theory Spec2Isabelle
  imports Complex_Main "HOL-Library.Multiset" "HOL-Library.Log_Nat"
begin

section \<open>The BAC simulator of DrinkGraph.tsx\<close>

text \<open>
  The component \<open>DrinkGraph\<close> computes two memoised values: \<open>points\<close>, the sampled
  BAC curve, and \<open>soberTimeInfo\<close>, the summary of that curve. Both are pure functions of
  the component's properties and are embedded here as HOL functions.

  Numbers. Timestamps are epoch milliseconds (\<open>Date.now()\<close>, or a parsed date that the
  caller checks with \<open>isNaN\<close> before storing it), so they are integers and every sum
  \<open>currentTime + stepMs\<close> is exact: they are modelled as \<open>int\<close>. Quantities of alcohol,
  burn rates, the body weight and BAC values are IEEE-754 doubles in the code. The theory
  embeds \<open>points\<close> twice, with the same structure. In the first embedding (\<open>points\<close>,
  \<open>whileLoop\<close>, \<open>stepNetSD\<close>, \<open>toBAC\<close>) these quantities are \<open>real\<close>, that is arithmetic is
  exact: it carries the properties of times, sample counts and control flow. In the
  second (\<open>pointsD\<close>, \<open>whileLoopD\<close>, \<open>stepNetSDD\<close>, \<open>toBACD\<close>) they are doubles, and every
  operation rounds, overflows and propagates NaN as the code's does: it carries the
  properties that rounding or overflow decides.
\<close>

subsection \<open>Data\<close>

datatype Gender = male | female

text \<open>A logged drink, with the fields that \<open>addDrink\<close> stores.\<close>

record Drink =
  id :: string
  name :: string
  volumeMl :: real
  abv :: real
  standardDrinks :: real
  timestamp :: int

text \<open>The standard drink formula of \<open>addDrink\<close> and \<open>calculateStandardDrinks\<close>.\<close>

definition calculateStandardDrinks :: "real \<Rightarrow> real \<Rightarrow> real" where
  "calculateStandardDrinks volumeMl' abv' = (volumeMl' / 1000) * abv' * 0.789"

text \<open>One element of \<open>dataPoints\<close>.\<close>

record DataPoint =
  time :: int
  bac :: real
  label :: string

subsection \<open>Constants and helpers of \<open>points\<close>\<close>

definition widmark :: "Gender \<Rightarrow> real" where
  "widmark gender = (if gender = male then 0.68 else 0.55)"

definition toBAC :: "real \<Rightarrow> Gender \<Rightarrow> real \<Rightarrow> real" where
  "toBAC weight gender netSD =
     (let w = (if weight > 0 then weight else 1) in netSD / (w * widmark gender))"

definition stepMs :: int where
  "stepMs = 5 * 60 * 1000"

definition stepBurnFirstHour :: "real \<Rightarrow> real" where
  "stepBurnFirstHour firstHourBurn = (firstHourBurn / 60) * 5"

definition stepBurnSubsequent :: "real \<Rightarrow> real" where
  "stepBurnSubsequent subsequentHourBurn = (subsequentHourBurn / 60) * 5"

definition maxSteps :: nat where
  "maxSteps = (24 * 60) div 5"

text \<open>\<open>sortedDrinks.filter(d => Math.abs(d.timestamp - startTime) < 1000)\<close>\<close>

definition initialDrinks :: "Drink list \<Rightarrow> int \<Rightarrow> Drink list" where
  "initialDrinks sortedDrinks startTime =
     filter (\<lambda>d. \<bar>timestamp d - startTime\<bar> < 1000) sortedDrinks"

text \<open>\<open>sortedDrinks.filter(d => d.timestamp > currentTime && d.timestamp <= nextTime)\<close>\<close>

definition drinksInInterval :: "Drink list \<Rightarrow> int \<Rightarrow> int \<Rightarrow> Drink list" where
  "drinksInInterval sortedDrinks currentTime nextTime =
     filter (\<lambda>d. timestamp d > currentTime \<and> timestamp d \<le> nextTime) sortedDrinks"

text \<open>The loops \<open>currentNetSD += d.standardDrinks\<close> over a list of drinks.\<close>

definition addDrinks :: "real \<Rightarrow> Drink list \<Rightarrow> real" where
  "addDrinks currentNetSD ds = foldl (\<lambda>acc d. acc + standardDrinks d) currentNetSD ds"

text \<open>
  The first half of the body of the \<open>while\<close> loop: the new value of \<open>currentNetSD\<close>
  after the drinks of the interval are added and the step's burn is subtracted.
\<close>

definition stepNetSD :: "Drink list \<Rightarrow> real \<Rightarrow> real \<Rightarrow> int \<Rightarrow> int \<Rightarrow> real \<Rightarrow> real" where
  "stepNetSD sortedDrinks firstHourBurn subsequentHourBurn currentTime timeSinceStart currentNetSD =
     (let nextTime = currentTime + stepMs;
          net1 = addDrinks currentNetSD (drinksInInterval sortedDrinks currentTime nextTime);
          burnAmount = (if timeSinceStart < 60 * 60 * 1000
                        then stepBurnFirstHour firstHourBurn
                        else stepBurnSubsequent subsequentHourBurn)
      in if net1 > 0
         then (let net2 = net1 - burnAmount in if net2 < 0 then 0 else net2)
         else net1)"

text \<open>
  The \<open>while (steps < maxSteps)\<close> loop. The result is the list of the data points it
  pushes, in order. \<open>toLocaleTimeString\<close> stands for the locale-dependent formatting
  \<open>new Date(t).toLocaleTimeString([], {hour: '2-digit', minute: '2-digit'})\<close>.
\<close>

function whileLoop ::
  "(int \<Rightarrow> string) \<Rightarrow> Drink list \<Rightarrow> real \<Rightarrow> real \<Rightarrow> real \<Rightarrow> Gender \<Rightarrow> int
     \<Rightarrow> nat \<Rightarrow> int \<Rightarrow> int \<Rightarrow> real \<Rightarrow> DataPoint list" where
  "whileLoop toLocaleTimeString sortedDrinks firstHourBurn subsequentHourBurn weight gender
       lastDrinkTime steps currentTime timeSinceStart currentNetSD =
     (if steps < maxSteps then
        (let nextTime = currentTime + stepMs;
             netSD = stepNetSD sortedDrinks firstHourBurn subsequentHourBurn
                       currentTime timeSinceStart currentNetSD;
             currentBAC = toBAC weight gender netSD;
             p = \<lparr>time = nextTime, bac = currentBAC, label = toLocaleTimeString nextTime\<rparr>
         in if currentTime > lastDrinkTime \<and> currentBAC \<le> 0.001
            then [p]
            else p # whileLoop toLocaleTimeString sortedDrinks firstHourBurn subsequentHourBurn
                       weight gender lastDrinkTime (steps + 1) nextTime
                       (timeSinceStart + stepMs) netSD)
      else [])"
  by pat_completeness auto
termination
  by (relation "measure (\<lambda>(f, ds, fb, sb, w, g, l, steps, ct, ts, n). maxSteps - steps)") auto

text \<open>The memoised value \<open>points\<close>.\<close>

definition points ::
  "(int \<Rightarrow> string) \<Rightarrow> Drink list \<Rightarrow> real \<Rightarrow> real \<Rightarrow> real \<Rightarrow> Gender \<Rightarrow> DataPoint list" where
  "points toLocaleTimeString drinks firstHourBurn subsequentHourBurn weight gender =
     (if length drinks = 0 then []
      else
        (let sortedDrinks = sort_key timestamp drinks;
             startTime = timestamp (hd sortedDrinks);
             currentNetSD = addDrinks 0 (initialDrinks sortedDrinks startTime);
             lastDrinkTime = timestamp (last sortedDrinks)
         in \<lparr>time = startTime, bac = toBAC weight gender currentNetSD,
              label = toLocaleTimeString startTime\<rparr>
            # whileLoop toLocaleTimeString sortedDrinks firstHourBurn subsequentHourBurn
                weight gender lastDrinkTime 0 startTime 0 currentNetSD))"

subsection \<open>The summary \<open>soberTimeInfo\<close>\<close>

datatype Status = under | over

text \<open>
  The object that \<open>soberTimeInfo\<close> returns. The keys \<open>time\<close>, \<open>label\<close> and \<open>projected\<close>
  are present in some of the returned objects only: an absent key is \<open>None\<close>.
\<close>

record SoberTimeInfo =
  status :: Status
  peak :: real
  soberTime :: "int option"
  soberLabel :: "string option"
  projected :: "bool option"

text \<open>\<open>for (let i = 1; i < points.length; i++) if (points[i].bac > points[peakIndex].bac) peakIndex = i\<close>\<close>

function peakLoop :: "DataPoint list \<Rightarrow> nat \<Rightarrow> nat \<Rightarrow> nat" where
  "peakLoop pts i peakIndex =
     (if i < length pts
      then peakLoop pts (i + 1) (if bac (pts ! i) > bac (pts ! peakIndex) then i else peakIndex)
      else peakIndex)"
  by pat_completeness auto
termination
  by (relation "measure (\<lambda>(pts, i, k). length pts - i)") auto

text \<open>
  \<open>for (let i = peakIndex; i < points.length; i++) if (points[i].bac <= 0.05) return ...\<close>:
  the index at which the loop returns, or \<open>None\<close> when it runs to the end.
\<close>

function crossLoop :: "DataPoint list \<Rightarrow> nat \<Rightarrow> nat option" where
  "crossLoop pts i =
     (if i < length pts
      then (if bac (pts ! i) \<le> 0.05 then Some i else crossLoop pts (i + 1))
      else None)"
  by pat_completeness auto
termination
  by (relation "measure (\<lambda>(pts, i). length pts - i)") auto

definition soberTimeInfo :: "DataPoint list \<Rightarrow> SoberTimeInfo option" where
  "soberTimeInfo pts =
     (if length pts = 0 then None
      else
        (let peakIndex = peakLoop pts 1 0;
             peakBAC = bac (pts ! peakIndex)
         in if peakBAC < 0.05
            then Some \<lparr>status = under, peak = peakBAC, soberTime = None, soberLabel = None,
                       projected = None\<rparr>
            else (case crossLoop pts peakIndex of
                    Some i \<Rightarrow>
                      Some \<lparr>status = over, peak = peakBAC, soberTime = Some (time (pts ! i)),
                            soberLabel = Some (label (pts ! i)), projected = None\<rparr>
                  | None \<Rightarrow>
                      (let lastP = pts ! (length pts - 1)
                       in Some \<lparr>status = over, peak = peakBAC, soberTime = Some (time lastP),
                               soberLabel = Some (label lastP), projected = Some True\<rparr>))))"

subsection \<open>The value of \<open>currentNetSD\<close> after a number of iterations\<close>

text \<open>
  \<open>netAfter \<dots> k\<close> is the value of the variable \<open>currentNetSD\<close> after \<open>k\<close> iterations
  of the loop body, started with the clock at \<open>ct\<close>, \<open>timeSinceStart\<close> at \<open>tss\<close> and
  \<open>currentNetSD\<close> at \<open>cur\<close>: iteration \<open>k\<close> runs \<open>stepNetSD\<close> with the clock and the
  elapsed time advanced by \<open>k\<close> steps. Lemma \<open>whileLoop_nth\<close> shows that the loop emits
  exactly these values.
\<close>

primrec netAfter :: "Drink list \<Rightarrow> real \<Rightarrow> real \<Rightarrow> int \<Rightarrow> int \<Rightarrow> real \<Rightarrow> nat \<Rightarrow> real" where
  "netAfter sortedDrinks fb sb ct tss cur 0 = cur"
| "netAfter sortedDrinks fb sb ct tss cur (Suc k) =
     stepNetSD sortedDrinks fb sb (ct + int k * stepMs) (tss + int k * stepMs)
       (netAfter sortedDrinks fb sb ct tss cur k)"

text \<open>
  \<open>netSDAt drinks \<dots> k\<close> is the value of \<open>currentNetSD\<close> in a run of \<open>points\<close> on
  \<open>drinks\<close> when the sample of index \<open>k\<close> is pushed: the initial sum for \<open>k = 0\<close>, and
  the value after \<open>k\<close> iterations of the loop otherwise.
\<close>

definition netSDAt :: "Drink list \<Rightarrow> real \<Rightarrow> real \<Rightarrow> nat \<Rightarrow> real" where
  "netSDAt drinks firstHourBurn subsequentHourBurn k =
     (let sortedDrinks = sort_key timestamp drinks;
          startTime = timestamp (hd sortedDrinks)
      in netAfter sortedDrinks firstHourBurn subsequentHourBurn startTime 0
           (addDrinks 0 (initialDrinks sortedDrinks startTime)) k)"


section \<open>IEEE-754 double arithmetic\<close>

text \<open>
  A JavaScript number is a binary64 value: a finite number \<open>m * 2 ^ e\<close> with \<open>\<bar>m\<bar> < 2 ^ 53\<close>
  and \<open>- 1074 \<le> e \<le> 971\<close>, an infinity or NaN. \<open>Finite x\<close> is the finite double of value
  \<open>x\<close>. The two zeros of IEEE arithmetic are not distinguished: \<open>Finite 0\<close> stands for
  both. Comparisons do not see the sign of a zero, and the only divisions of the program
  are by the constants 1000 and 60 and by the weight times the Widmark factor.
\<close>

datatype double = Finite real | PosInf | NegInf | NaN

text \<open>
  The binary exponent of \<open>y > 0\<close>: the integer \<open>e\<close> with \<open>2 ^ e \<le> y < 2 ^ (e + 1)\<close>
  (lemma \<open>binaryExponent_bounds\<close>).
\<close>

definition binaryExponent :: "real \<Rightarrow> int" where
  "binaryExponent y =
     (if 1 \<le> y then int (floorlog 2 (nat \<lfloor>y\<rfloor>)) - 1
      else - int (floorlog 2 (nat (\<lceil>1 / y\<rceil> - 1))))"

text \<open>Rounding to the nearest integer, a tie to the even one.\<close>

definition roundHalfEven :: "real \<Rightarrow> int" where
  "roundHalfEven n =
     (let f = \<lfloor>n\<rfloor>; d = n - of_int f
      in if d < 1 / 2 then f else if 1 / 2 < d then f + 1
         else if even f then f else f + 1)"

text \<open>
  Rounding to 53 significant bits, with the spacing \<open>2 ^ (- 1074)\<close> of the subnormal
  numbers below \<open>2 ^ (- 1022)\<close>, and no bound on the exponent above.
\<close>

definition round53 :: "real \<Rightarrow> real" where
  "round53 x =
     (if x = 0 then 0
      else (let e = max (binaryExponent \<bar>x\<bar>) (- 1022);
                ulp = 2 powi (e - 52)
            in of_int (roundHalfEven (x / ulp)) * ulp))"

text \<open>
  The double nearest to a real number (round to nearest, ties to even): what every
  arithmetic operation returns for its exact result, and what a decimal literal of the
  source denotes. A result of magnitude \<open>2 ^ 1024\<close> or more is an infinity.
\<close>

definition roundDouble :: "real \<Rightarrow> double" where
  "roundDouble x =
     (let v = round53 x
      in if 2 ^ 1024 \<le> \<bar>v\<bar> then (if 0 < x then PosInf else NegInf) else Finite v)"

text \<open>
  Negation, \<open>+\<close>, \<open>-\<close>, \<open>*\<close>, \<open>/\<close>, \<open><\<close> and \<open><=\<close> on doubles. A comparison with NaN is
  false.
\<close>

fun dneg :: "double \<Rightarrow> double" where
  "dneg (Finite a) = Finite (- a)"
| "dneg PosInf = NegInf"
| "dneg NegInf = PosInf"
| "dneg NaN = NaN"

fun dadd :: "double \<Rightarrow> double \<Rightarrow> double" where
  "dadd (Finite a) (Finite b) = roundDouble (a + b)"
| "dadd NaN y = NaN"
| "dadd x NaN = NaN"
| "dadd PosInf NegInf = NaN"
| "dadd NegInf PosInf = NaN"
| "dadd PosInf y = PosInf"
| "dadd x PosInf = PosInf"
| "dadd NegInf y = NegInf"
| "dadd x NegInf = NegInf"

definition dsub :: "double \<Rightarrow> double \<Rightarrow> double" where
  "dsub x y = dadd x (dneg y)"

fun dmul :: "double \<Rightarrow> double \<Rightarrow> double" where
  "dmul (Finite a) (Finite b) = roundDouble (a * b)"
| "dmul NaN y = NaN"
| "dmul x NaN = NaN"
| "dmul (Finite a) PosInf = (if 0 < a then PosInf else if a < 0 then NegInf else NaN)"
| "dmul (Finite a) NegInf = (if 0 < a then NegInf else if a < 0 then PosInf else NaN)"
| "dmul PosInf (Finite b) = (if 0 < b then PosInf else if b < 0 then NegInf else NaN)"
| "dmul NegInf (Finite b) = (if 0 < b then NegInf else if b < 0 then PosInf else NaN)"
| "dmul PosInf PosInf = PosInf"
| "dmul NegInf NegInf = PosInf"
| "dmul PosInf NegInf = NegInf"
| "dmul NegInf PosInf = NegInf"

fun ddiv :: "double \<Rightarrow> double \<Rightarrow> double" where
  "ddiv (Finite a) (Finite b) =
     (if b = 0 then (if 0 < a then PosInf else if a < 0 then NegInf else NaN)
      else roundDouble (a / b))"
| "ddiv NaN y = NaN"
| "ddiv x NaN = NaN"
| "ddiv (Finite a) PosInf = Finite 0"
| "ddiv (Finite a) NegInf = Finite 0"
| "ddiv PosInf (Finite b) = (if 0 \<le> b then PosInf else NegInf)"
| "ddiv NegInf (Finite b) = (if 0 \<le> b then NegInf else PosInf)"
| "ddiv PosInf PosInf = NaN"
| "ddiv PosInf NegInf = NaN"
| "ddiv NegInf PosInf = NaN"
| "ddiv NegInf NegInf = NaN"

fun dless :: "double \<Rightarrow> double \<Rightarrow> bool" where
  "dless (Finite a) (Finite b) = (a < b)"
| "dless NaN y = False"
| "dless x NaN = False"
| "dless PosInf y = False"
| "dless x NegInf = False"
| "dless x PosInf = True"
| "dless NegInf y = True"

fun dle :: "double \<Rightarrow> double \<Rightarrow> bool" where
  "dle (Finite a) (Finite b) = (a \<le> b)"
| "dle NaN y = False"
| "dle x NaN = False"
| "dle NegInf y = True"
| "dle x PosInf = True"
| "dle PosInf y = False"
| "dle x NegInf = False"


section \<open>The simulator in double arithmetic\<close>

text \<open>
  The same functions as above, line by line, with the numbers of the source as doubles.
  A name that ends in \<open>D\<close> is the double version of the name without it.
\<close>

record DrinkD =
  idD :: string
  nameD :: string
  volumeMlD :: double
  abvD :: double
  standardDrinksD :: double
  timestampD :: int

definition calculateStandardDrinksD :: "double \<Rightarrow> double \<Rightarrow> double" where
  "calculateStandardDrinksD volumeMl' abv' =
     dmul (dmul (ddiv volumeMl' (Finite 1000)) abv') (roundDouble 0.789)"

record DataPointD =
  timeD :: int
  bacD :: double
  labelD :: string

definition widmarkD :: "Gender \<Rightarrow> double" where
  "widmarkD gender = (if gender = male then roundDouble 0.68 else roundDouble 0.55)"

definition toBACD :: "double \<Rightarrow> Gender \<Rightarrow> double \<Rightarrow> double" where
  "toBACD weight gender netSD =
     (let w = (if dless (Finite 0) weight then weight else Finite 1)
      in ddiv netSD (dmul w (widmarkD gender)))"

definition stepBurnFirstHourD :: "double \<Rightarrow> double" where
  "stepBurnFirstHourD firstHourBurn = dmul (ddiv firstHourBurn (Finite 60)) (Finite 5)"

definition stepBurnSubsequentD :: "double \<Rightarrow> double" where
  "stepBurnSubsequentD subsequentHourBurn = dmul (ddiv subsequentHourBurn (Finite 60)) (Finite 5)"

definition initialDrinksD :: "DrinkD list \<Rightarrow> int \<Rightarrow> DrinkD list" where
  "initialDrinksD sortedDrinks startTime =
     filter (\<lambda>d. \<bar>timestampD d - startTime\<bar> < 1000) sortedDrinks"

definition drinksInIntervalD :: "DrinkD list \<Rightarrow> int \<Rightarrow> int \<Rightarrow> DrinkD list" where
  "drinksInIntervalD sortedDrinks currentTime nextTime =
     filter (\<lambda>d. timestampD d > currentTime \<and> timestampD d \<le> nextTime) sortedDrinks"

definition addDrinksD :: "double \<Rightarrow> DrinkD list \<Rightarrow> double" where
  "addDrinksD currentNetSD ds = foldl (\<lambda>acc d. dadd acc (standardDrinksD d)) currentNetSD ds"

definition stepNetSDD ::
  "DrinkD list \<Rightarrow> double \<Rightarrow> double \<Rightarrow> int \<Rightarrow> int \<Rightarrow> double \<Rightarrow> double" where
  "stepNetSDD sortedDrinks firstHourBurn subsequentHourBurn currentTime timeSinceStart currentNetSD =
     (let nextTime = currentTime + stepMs;
          net1 = addDrinksD currentNetSD (drinksInIntervalD sortedDrinks currentTime nextTime);
          burnAmount = (if timeSinceStart < 60 * 60 * 1000
                        then stepBurnFirstHourD firstHourBurn
                        else stepBurnSubsequentD subsequentHourBurn)
      in if dless (Finite 0) net1
         then (let net2 = dsub net1 burnAmount in if dless net2 (Finite 0) then Finite 0 else net2)
         else net1)"

function whileLoopD ::
  "(int \<Rightarrow> string) \<Rightarrow> DrinkD list \<Rightarrow> double \<Rightarrow> double \<Rightarrow> double \<Rightarrow> Gender \<Rightarrow> int
     \<Rightarrow> nat \<Rightarrow> int \<Rightarrow> int \<Rightarrow> double \<Rightarrow> DataPointD list" where
  "whileLoopD toLocaleTimeString sortedDrinks firstHourBurn subsequentHourBurn weight gender
       lastDrinkTime steps currentTime timeSinceStart currentNetSD =
     (if steps < maxSteps then
        (let nextTime = currentTime + stepMs;
             netSD = stepNetSDD sortedDrinks firstHourBurn subsequentHourBurn
                       currentTime timeSinceStart currentNetSD;
             currentBAC = toBACD weight gender netSD;
             p = \<lparr>timeD = nextTime, bacD = currentBAC, labelD = toLocaleTimeString nextTime\<rparr>
         in if currentTime > lastDrinkTime \<and> dle currentBAC (roundDouble 0.001)
            then [p]
            else p # whileLoopD toLocaleTimeString sortedDrinks firstHourBurn subsequentHourBurn
                       weight gender lastDrinkTime (steps + 1) nextTime
                       (timeSinceStart + stepMs) netSD)
      else [])"
  by pat_completeness auto
termination
  by (relation "measure (\<lambda>(f, ds, fb, sb, w, g, l, steps, ct, ts, n). maxSteps - steps)") auto

definition pointsD ::
  "(int \<Rightarrow> string) \<Rightarrow> DrinkD list \<Rightarrow> double \<Rightarrow> double \<Rightarrow> double \<Rightarrow> Gender \<Rightarrow> DataPointD list" where
  "pointsD toLocaleTimeString drinks firstHourBurn subsequentHourBurn weight gender =
     (if length drinks = 0 then []
      else
        (let sortedDrinks = sort_key timestampD drinks;
             startTime = timestampD (hd sortedDrinks);
             currentNetSD = addDrinksD (Finite 0) (initialDrinksD sortedDrinks startTime);
             lastDrinkTime = timestampD (last sortedDrinks)
         in \<lparr>timeD = startTime, bacD = toBACD weight gender currentNetSD,
              labelD = toLocaleTimeString startTime\<rparr>
            # whileLoopD toLocaleTimeString sortedDrinks firstHourBurn subsequentHourBurn
                weight gender lastDrinkTime 0 startTime 0 currentNetSD))"

primrec netAfterD ::
  "DrinkD list \<Rightarrow> double \<Rightarrow> double \<Rightarrow> int \<Rightarrow> int \<Rightarrow> double \<Rightarrow> nat \<Rightarrow> double" where
  "netAfterD sortedDrinks fb sb ct tss cur 0 = cur"
| "netAfterD sortedDrinks fb sb ct tss cur (Suc k) =
     stepNetSDD sortedDrinks fb sb (ct + int k * stepMs) (tss + int k * stepMs)
       (netAfterD sortedDrinks fb sb ct tss cur k)"

definition netSDAtD :: "DrinkD list \<Rightarrow> double \<Rightarrow> double \<Rightarrow> nat \<Rightarrow> double" where
  "netSDAtD drinks firstHourBurn subsequentHourBurn k =
     (let sortedDrinks = sort_key timestampD drinks;
          startTime = timestampD (hd sortedDrinks)
      in netAfterD sortedDrinks firstHourBurn subsequentHourBurn startTime 0
           (addDrinksD (Finite 0) (initialDrinksD sortedDrinks startTime)) k)"


section \<open>Properties of the loop\<close>

declare whileLoop.simps [simp del]

lemma whileLoop_unfold:
  "whileLoop f ds fb sb w g l steps ct tss cur =
     (if steps < maxSteps then
        (if ct > l \<and> toBAC w g (stepNetSD ds fb sb ct tss cur) \<le> 0.001
         then [\<lparr>time = ct + stepMs, bac = toBAC w g (stepNetSD ds fb sb ct tss cur),
                 label = f (ct + stepMs)\<rparr>]
         else \<lparr>time = ct + stepMs, bac = toBAC w g (stepNetSD ds fb sb ct tss cur),
                 label = f (ct + stepMs)\<rparr>
              # whileLoop f ds fb sb w g l (steps + 1) (ct + stepMs) (tss + stepMs)
                  (stepNetSD ds fb sb ct tss cur))
      else [])"
  by (subst whileLoop.simps) (simp add: Let_def)

lemma whileLoop_induct [case_names step]:
  assumes "\<And>steps ct tss cur.
     (steps < maxSteps \<Longrightarrow> \<not> (ct > l \<and> toBAC w g (stepNetSD ds fb sb ct tss cur) \<le> 0.001)
        \<Longrightarrow> P (steps + 1) (ct + stepMs) (tss + stepMs) (stepNetSD ds fb sb ct tss cur))
     \<Longrightarrow> P steps ct tss cur"
  shows "P steps ct tss cur"
proof (induction "maxSteps - steps" arbitrary: steps ct tss cur)
  case (0 steps ct tss cur)
  show ?case by (rule assms) (use 0 in simp)
next
  case (Suc n steps ct tss cur)
  show ?case
  proof (rule assms)
    assume "steps < maxSteps"
    with Suc.hyps(2) have "n = maxSteps - (steps + 1)" by simp
    then show "P (steps + 1) (ct + stepMs) (tss + stepMs) (stepNetSD ds fb sb ct tss cur)"
      by (rule Suc.hyps(1))
  qed
qed

lemma netAfter_shift:
  "netAfter ds fb sb (ct + stepMs) (tss + stepMs) (stepNetSD ds fb sb ct tss cur) k
     = netAfter ds fb sb ct tss cur (Suc k)"
proof (induction k)
  case 0
  show ?case by simp
next
  case (Suc k)
  have e1: "ct + stepMs + int k * stepMs = ct + int (Suc k) * stepMs"
    and e2: "tss + stepMs + int k * stepMs = tss + int (Suc k) * stepMs"
    by (simp_all add: algebra_simps)
  have "netAfter ds fb sb (ct + stepMs) (tss + stepMs) (stepNetSD ds fb sb ct tss cur) (Suc k)
      = stepNetSD ds fb sb (ct + stepMs + int k * stepMs) (tss + stepMs + int k * stepMs)
          (netAfter ds fb sb (ct + stepMs) (tss + stepMs) (stepNetSD ds fb sb ct tss cur) k)"
    by simp
  also have "\<dots> = stepNetSD ds fb sb (ct + int (Suc k) * stepMs) (tss + int (Suc k) * stepMs)
          (netAfter ds fb sb ct tss cur (Suc k))"
    by (simp only: e1 e2 Suc.IH)
  also have "\<dots> = netAfter ds fb sb ct tss cur (Suc (Suc k))"
    by (simp only: netAfter.simps)
  finally show ?case .
qed

lemma whileLoop_length: "length (whileLoop f ds fb sb w g l steps ct tss cur) \<le> maxSteps - steps"
proof (induction steps ct tss cur rule: whileLoop_induct[where l=l and w=w and g=g and ds=ds and fb=fb and sb=sb])
  case (step steps ct tss cur)
  show ?case
    using step by (subst whileLoop_unfold) auto
qed

lemma whileLoop_nonempty: "steps < maxSteps \<Longrightarrow> whileLoop f ds fb sb w g l steps ct tss cur \<noteq> []"
  by (subst whileLoop_unfold) simp

lemma whileLoop_nth:
  "k < length (whileLoop f ds fb sb w g l steps ct tss cur) \<Longrightarrow>
   whileLoop f ds fb sb w g l steps ct tss cur ! k =
     \<lparr>time = ct + (int k + 1) * stepMs,
      bac = toBAC w g (netAfter ds fb sb ct tss cur (Suc k)),
      label = f (ct + (int k + 1) * stepMs)\<rparr>"
proof (induction steps ct tss cur arbitrary: k rule: whileLoop_induct[where l=l and w=w and g=g and ds=ds and fb=fb and sb=sb])
  case (step steps ct tss cur)
  let ?n = "stepNetSD ds fb sb ct tss cur"
  from step.prems have lt: "steps < maxSteps"
    by (subst (asm) whileLoop_unfold) (auto split: if_splits)
  show ?case
  proof (cases k)
    case 0
    with lt show ?thesis by (subst whileLoop_unfold) simp
  next
    case (Suc j)
    with step.prems lt have nb: "\<not> (ct > l \<and> toBAC w g ?n \<le> 0.001)"
      by (subst (asm) whileLoop_unfold) (auto split: if_splits)
    with step.prems lt Suc have "j < length (whileLoop f ds fb sb w g l (steps + 1) (ct + stepMs) (tss + stepMs) ?n)"
      by (subst (asm) whileLoop_unfold) (auto split: if_splits)
    from step.IH[OF lt nb this]
    have "whileLoop f ds fb sb w g l (steps + 1) (ct + stepMs) (tss + stepMs) ?n ! j =
       \<lparr>time = ct + stepMs + (int j + 1) * stepMs,
         bac = toBAC w g (netAfter ds fb sb (ct + stepMs) (tss + stepMs) ?n (Suc j)),
         label = f (ct + stepMs + (int j + 1) * stepMs)\<rparr>" .
    moreover have "ct + stepMs + (int j + 1) * stepMs = ct + (int k + 1) * stepMs"
      using Suc by (simp add: algebra_simps)
    moreover have "whileLoop f ds fb sb w g l steps ct tss cur ! k
        = whileLoop f ds fb sb w g l (steps + 1) (ct + stepMs) (tss + stepMs) ?n ! j"
      using lt nb Suc by (subst whileLoop_unfold) auto
    ultimately show ?thesis
      using Suc by (simp only: netAfter_shift)
  qed
qed

lemma whileLoop_done:
  "\<not> steps < maxSteps \<Longrightarrow> whileLoop f ds fb sb w g l steps ct tss cur = []"
  by (subst whileLoop_unfold) simp

lemma whileLoop_break:
  "steps < maxSteps \<Longrightarrow> ct > l \<and> toBAC w g (stepNetSD ds fb sb ct tss cur) \<le> 0.001 \<Longrightarrow>
   whileLoop f ds fb sb w g l steps ct tss cur =
     [\<lparr>time = ct + stepMs, bac = toBAC w g (stepNetSD ds fb sb ct tss cur),
       label = f (ct + stepMs)\<rparr>]"
  by (subst whileLoop_unfold) simp

lemma whileLoop_continue:
  "steps < maxSteps \<Longrightarrow> \<not> (ct > l \<and> toBAC w g (stepNetSD ds fb sb ct tss cur) \<le> 0.001) \<Longrightarrow>
   whileLoop f ds fb sb w g l steps ct tss cur =
     \<lparr>time = ct + stepMs, bac = toBAC w g (stepNetSD ds fb sb ct tss cur),
       label = f (ct + stepMs)\<rparr>
     # whileLoop f ds fb sb w g l (steps + 1) (ct + stepMs) (tss + stepMs)
         (stepNetSD ds fb sb ct tss cur)"
  by (subst whileLoop_unfold) auto


lemma whileLoop_break_last:
  "length (whileLoop f ds fb sb w g l steps ct tss cur) < maxSteps - steps \<Longrightarrow>
   ct + int (length (whileLoop f ds fb sb w g l steps ct tss cur) - 1) * stepMs > l \<and>
   bac (last (whileLoop f ds fb sb w g l steps ct tss cur)) \<le> 0.001"
proof (induction steps ct tss cur rule: whileLoop_induct[where l=l and w=w and g=g and ds=ds and fb=fb and sb=sb])
  case (step steps ct tss cur)
  let ?n = "stepNetSD ds fb sb ct tss cur"
  from step.prems have lt: "steps < maxSteps" by simp
  show ?case
  proof (cases "ct > l \<and> toBAC w g ?n \<le> 0.001")
    case True
    with lt have "whileLoop f ds fb sb w g l steps ct tss cur =
        [\<lparr>time = ct + stepMs, bac = toBAC w g ?n, label = f (ct + stepMs)\<rparr>]"
      by (subst whileLoop_unfold) simp
    with True show ?thesis by simp
  next
    case False
    let ?r = "whileLoop f ds fb sb w g l (steps + 1) (ct + stepMs) (tss + stepMs) ?n"
    from False lt have eq: "whileLoop f ds fb sb w g l steps ct tss cur =
        \<lparr>time = ct + stepMs, bac = toBAC w g ?n, label = f (ct + stepMs)\<rparr> # ?r"
      by (subst whileLoop_unfold) auto
    with step.prems have "length ?r < maxSteps - (steps + 1)" by simp
    from step.IH[OF lt False this]
    have ih: "ct + stepMs + int (length ?r - 1) * stepMs > l" "bac (last ?r) \<le> 0.001" by simp_all
    have ne: "?r \<noteq> []" using \<open>length ?r < maxSteps - (steps + 1)\<close>
      by (intro whileLoop_nonempty) simp
    then obtain m where m: "length ?r = Suc m" by (cases ?r) auto
    from ih(1) m have "ct + int (Suc m) * stepMs > l" by (simp add: algebra_simps)
    moreover have "length (whileLoop f ds fb sb w g l steps ct tss cur) - 1 = Suc m"
      using m by (simp add: eq)
    moreover have "last (whileLoop f ds fb sb w g l steps ct tss cur) = last ?r"
      using ne by (simp add: eq)
    ultimately show ?thesis using ih(2) by simp
  qed
qed

lemma whileLoop_cong:
  "(\<And>j tss' cur'. j < maxSteps - steps \<Longrightarrow>
       stepNetSD ds fb sb (ct + int j * stepMs) tss' cur'
         = stepNetSD ds' fb sb (ct + int j * stepMs) tss' cur') \<Longrightarrow>
   whileLoop f ds fb sb w g l steps ct tss cur = whileLoop f ds' fb sb w g l steps ct tss cur"
proof (induction steps ct tss cur rule: whileLoop_induct[where l=l and w=w and g=g and ds=ds and fb=fb and sb=sb])
  case (step steps ct tss cur)
  show ?case
  proof (cases "steps < maxSteps")
    case False
    then show ?thesis by (simp add: whileLoop_done)
  next
    case True
    then have s0: "stepNetSD ds' fb sb ct tss cur = stepNetSD ds fb sb ct tss cur"
      using step.prems[of 0 tss cur] by simp
    show ?thesis
    proof (cases "ct > l \<and> toBAC w g (stepNetSD ds fb sb ct tss cur) \<le> 0.001")
      case brk: True
      then have "ct > l \<and> toBAC w g (stepNetSD ds' fb sb ct tss cur) \<le> 0.001"
        by (simp only: s0)
      from whileLoop_break[OF True brk] whileLoop_break[OF True this]
      show ?thesis by (simp only: s0)
    next
      case nb: False
      then have nb': "\<not> (ct > l \<and> toBAC w g (stepNetSD ds' fb sb ct tss cur) \<le> 0.001)"
        unfolding s0 .
      have "whileLoop f ds fb sb w g l (steps + 1) (ct + stepMs) (tss + stepMs) (stepNetSD ds fb sb ct tss cur)
          = whileLoop f ds' fb sb w g l (steps + 1) (ct + stepMs) (tss + stepMs) (stepNetSD ds fb sb ct tss cur)"
      proof (rule step.IH[OF True nb])
        fix j tss' cur'
        assume "j < maxSteps - (steps + 1)"
        then have "Suc j < maxSteps - steps" by simp
        from step.prems[OF this, of tss' cur']
        show "stepNetSD ds fb sb (ct + stepMs + int j * stepMs) tss' cur'
            = stepNetSD ds' fb sb (ct + stepMs + int j * stepMs) tss' cur'"
          by (simp add: algebra_simps)
      qed
      with whileLoop_continue[OF True nb] whileLoop_continue[OF True nb']
      show ?thesis by (simp only: s0)
    qed
  qed
qed

lemma whileLoop_weight:
  "toBAC w g = toBAC w' g \<Longrightarrow>
   whileLoop f ds fb sb w g l steps ct tss cur = whileLoop f ds fb sb w' g l steps ct tss cur"
proof (induction steps ct tss cur rule: whileLoop_induct[where l=l and w=w and g=g and ds=ds and fb=fb and sb=sb])
  case (step steps ct tss cur)
  note e = step.prems
  show ?case
  proof (cases "steps < maxSteps")
    case False
    then show ?thesis by (simp add: whileLoop_done)
  next
    case True
    show ?thesis
    proof (cases "ct > l \<and> toBAC w g (stepNetSD ds fb sb ct tss cur) \<le> 0.001")
      case brk: True
      then have "ct > l \<and> toBAC w' g (stepNetSD ds fb sb ct tss cur) \<le> 0.001"
        by (simp only: e)
      from whileLoop_break[OF True brk] whileLoop_break[OF True this]
      show ?thesis by (simp only: e)
    next
      case nb: False
      then have nb': "\<not> (ct > l \<and> toBAC w' g (stepNetSD ds fb sb ct tss cur) \<le> 0.001)"
        unfolding e .
      from step.IH[OF True nb e] whileLoop_continue[OF True nb] whileLoop_continue[OF True nb']
      show ?thesis by (simp only: e)
    qed
  qed
qed

lemma addDrinks_sum: "addDrinks cur ds = cur + sum_list (map standardDrinks ds)"
  unfolding addDrinks_def by (induction ds arbitrary: cur) simp_all

lemma sum_filter_mset:
  fixes f :: "'a \<Rightarrow> real"
  assumes "mset xs = mset ys"
  shows "sum_list (map f (filter P xs)) = sum_list (map f (filter P ys))"
proof -
  from assms have "mset (map f (filter P xs)) = mset (map f (filter P ys))" by simp
  then have "sum_mset (mset (map f (filter P xs))) = sum_mset (mset (map f (filter P ys)))"
    by (rule arg_cong)
  then show ?thesis by (simp only: sum_mset_sum_list)
qed

lemma sorted_hd_Min:
  fixes ys :: "int list"
  assumes "sorted ys" "ys \<noteq> []"
  shows "hd ys = Min (set ys)"
proof (rule Min_eqI [symmetric])
  fix y assume "y \<in> set ys"
  then obtain i where "i < length ys" "ys ! i = y" by (auto simp: in_set_conv_nth)
  with sorted_nth_mono[OF assms(1), of 0 i] assms(2) show "hd ys \<le> y"
    by (simp add: hd_conv_nth)
qed (use assms in simp_all)

lemma sorted_last_Max:
  fixes ys :: "int list"
  assumes "sorted ys" "ys \<noteq> []"
  shows "last ys = Max (set ys)"
proof (rule Max_eqI [symmetric])
  fix y assume "y \<in> set ys"
  then obtain i where "i < length ys" "ys ! i = y" by (auto simp: in_set_conv_nth)
  with sorted_nth_mono[OF assms(1), of i "length ys - 1"] assms(2) show "y \<le> last ys"
    by (simp add: last_conv_nth)
qed (use assms in simp_all)

lemma sort_key_nonempty: "drinks \<noteq> [] \<Longrightarrow> sort_key k drinks \<noteq> []"
  by (metis length_sort length_0_conv)

lemma hd_sort_key_timestamp:
  assumes "drinks \<noteq> []"
  shows "timestamp (hd (sort_key timestamp drinks)) = Min (timestamp ` set drinks)"
proof -
  let ?s = "sort_key timestamp drinks"
  have ne: "?s \<noteq> []" using assms by (rule sort_key_nonempty)
  have "hd (map timestamp ?s) = Min (set (map timestamp ?s))"
    by (rule sorted_hd_Min) (simp_all add: ne)
  then show ?thesis using ne by (simp add: hd_map)
qed

lemma last_sort_key_timestamp:
  assumes "drinks \<noteq> []"
  shows "timestamp (last (sort_key timestamp drinks)) = Max (timestamp ` set drinks)"
proof -
  let ?s = "sort_key timestamp drinks"
  have ne: "?s \<noteq> []" using assms by (rule sort_key_nonempty)
  have "last (map timestamp ?s) = Max (set (map timestamp ?s))"
    by (rule sorted_last_Max) (simp_all add: ne)
  then show ?thesis using ne by (simp add: last_map)
qed

section \<open>Properties of \<open>points\<close>\<close>

lemma points_unfold:
  assumes "drinks \<noteq> []"
  shows "points f drinks fb sb w g =
     \<lparr>time = Min (timestamp ` set drinks),
       bac = toBAC w g (addDrinks 0 (initialDrinks (sort_key timestamp drinks)
                                      (Min (timestamp ` set drinks)))),
       label = f (Min (timestamp ` set drinks))\<rparr>
     # whileLoop f (sort_key timestamp drinks) fb sb w g (Max (timestamp ` set drinks)) 0
         (Min (timestamp ` set drinks)) 0
         (addDrinks 0 (initialDrinks (sort_key timestamp drinks) (Min (timestamp ` set drinks))))"
  using assms
  by (simp add: points_def Let_def hd_sort_key_timestamp last_sort_key_timestamp)

lemma points_length:
  "length (points f drinks fb sb w g) \<le> Suc maxSteps"
proof (cases "drinks = []")
  case True
  then show ?thesis by (simp add: points_def)
next
  case False
  show ?thesis
    using whileLoop_length[of f "sort_key timestamp drinks" fb sb w g "Max (timestamp ` set drinks)" 0]
    by (simp add: points_unfold[OF False])
qed

lemma points_nth_time:
  assumes "drinks \<noteq> []" "i < length (points f drinks fb sb w g)"
  shows "time (points f drinks fb sb w g ! i) = Min (timestamp ` set drinks) + int i * stepMs"
proof (cases i)
  case 0
  then show ?thesis by (simp add: points_unfold[OF assms(1)])
next
  case (Suc k)
  with assms(2) have "k < length (whileLoop f (sort_key timestamp drinks) fb sb w g
      (Max (timestamp ` set drinks)) 0 (Min (timestamp ` set drinks)) 0
      (addDrinks 0 (initialDrinks (sort_key timestamp drinks) (Min (timestamp ` set drinks)))))"
    by (simp add: points_unfold[OF assms(1)])
  from whileLoop_nth[OF this] Suc show ?thesis
    by (simp add: points_unfold[OF assms(1)] algebra_simps)
qed

lemma maxSteps_eq: "maxSteps = 288"
  by (simp add: maxSteps_def)

lemma stepMs_eq: "stepMs = 300000"
  by (simp add: stepMs_def)

lemma points_stopped_early:
  assumes ne: "drinks \<noteq> []" and short: "length (points f drinks fb sb w g) < 289"
  shows "Max (timestamp ` set drinks)
           < time (points f drinks fb sb w g ! (length (points f drinks fb sb w g) - 2)) \<and>
         bac (last (points f drinks fb sb w g)) \<le> 0.001"
proof -
  let ?P = "points f drinks fb sb w g"
  let ?L = "whileLoop f (sort_key timestamp drinks) fb sb w g (Max (timestamp ` set drinks)) 0
         (Min (timestamp ` set drinks)) 0
         (addDrinks 0 (initialDrinks (sort_key timestamp drinks) (Min (timestamp ` set drinks))))"
  have P: "?P = \<lparr>time = Min (timestamp ` set drinks),
     bac = toBAC w g (addDrinks 0 (initialDrinks (sort_key timestamp drinks)
                                    (Min (timestamp ` set drinks)))),
     label = f (Min (timestamp ` set drinks))\<rparr> # ?L"
    by (rule points_unfold[OF ne])
  have Lne: "?L \<noteq> []" by (rule whileLoop_nonempty) (simp add: maxSteps_eq)
  then obtain m where m: "length ?L = Suc m" by (cases ?L) auto
  from short have "length ?L < maxSteps - 0" by (simp add: P maxSteps_eq)
  from whileLoop_break_last[OF this]
  have br: "Min (timestamp ` set drinks) + int m * stepMs > Max (timestamp ` set drinks)"
    "bac (last ?L) \<le> 0.001"
    by (simp_all add: m)
  have lenP: "length ?P = Suc (Suc m)" by (simp add: P m)
  have "time (?P ! m) = Min (timestamp ` set drinks) + int m * stepMs"
    by (rule points_nth_time[OF ne]) (simp add: lenP)
  moreover have "last ?P = last ?L" using Lne by (simp add: P)
  ultimately show ?thesis using br by (simp add: lenP)
qed

lemma stepNetSD_mset:
  assumes "mset ds = mset ds'"
  shows "stepNetSD ds fb sb ct tss cur = stepNetSD ds' fb sb ct tss cur"
proof -
  have "addDrinks cur (drinksInInterval ds ct (ct + stepMs))
      = addDrinks cur (drinksInInterval ds' ct (ct + stepMs))"
    unfolding addDrinks_sum drinksInInterval_def
    by (simp add: sum_filter_mset[OF assms])
  then show ?thesis by (simp add: stepNetSD_def)
qed

lemma initial_mset:
  assumes "mset ds = mset ds'"
  shows "addDrinks cur (initialDrinks ds t0) = addDrinks cur (initialDrinks ds' t0)"
  unfolding addDrinks_sum initialDrinks_def
  by (simp add: sum_filter_mset[OF assms])

lemma widmark_pos: "0 < widmark g"
  by (simp add: widmark_def)

lemma toBAC_divisor_pos: "0 < (if w > 0 then w else 1) * widmark g"
  using widmark_pos[of g] by simp

lemma toBAC_nonneg: "0 \<le> n \<Longrightarrow> 0 \<le> toBAC w g n"
  using toBAC_divisor_pos[of w g] by (simp add: toBAC_def Let_def)

lemma toBAC_weight_clamp: "w \<le> 0 \<Longrightarrow> toBAC w g = toBAC 1 g"
  by (rule ext) (simp add: toBAC_def)

lemma points_weight_clamp:
  assumes "w \<le> 0"
  shows "points f drinks fb sb w g = points f drinks fb sb 1 g"
proof (cases "drinks = []")
  case True
  then show ?thesis by (simp add: points_def)
next
  case False
  note e = toBAC_weight_clamp[OF assms, of g]
  show ?thesis
    by (simp add: points_unfold[OF False] e whileLoop_weight[OF e])
qed

lemma addDrinks_nonneg:
  assumes "0 \<le> cur" "\<forall>d \<in> set ds. 0 \<le> standardDrinks d"
  shows "0 \<le> addDrinks cur ds"
proof -
  have "0 \<le> sum_list (map standardDrinks ds)"
    by (rule sum_list_nonneg) (use assms(2) in auto)
  with assms(1) show ?thesis by (simp add: addDrinks_sum)
qed

lemma stepNetSD_nonneg:
  assumes "0 \<le> cur" "\<forall>d \<in> set ds. 0 \<le> standardDrinks d"
  shows "0 \<le> stepNetSD ds fb sb ct tss cur"
proof -
  have "0 \<le> addDrinks cur (drinksInInterval ds ct (ct + stepMs))"
    by (rule addDrinks_nonneg[OF assms(1)]) (use assms(2) in \<open>simp add: drinksInInterval_def\<close>)
  then show ?thesis by (simp add: stepNetSD_def Let_def)
qed

lemma netAfter_nonneg:
  assumes "0 \<le> cur" "\<forall>d \<in> set ds. 0 \<le> standardDrinks d"
  shows "0 \<le> netAfter ds fb sb ct tss cur k"
  by (induction k) (simp_all add: assms stepNetSD_nonneg)

lemma points_bac_nonneg:
  assumes "\<forall>d \<in> set drinks. 0 \<le> standardDrinks d" "p \<in> set (points f drinks fb sb w g)"
  shows "0 \<le> bac p"
proof (cases "drinks = []")
  case True
  with assms(2) show ?thesis by (simp add: points_def)
next
  case False
  let ?s = "sort_key timestamp drinks"
  let ?t0 = "Min (timestamp ` set drinks)"
  let ?n0 = "addDrinks 0 (initialDrinks ?s ?t0)"
  let ?L = "whileLoop f ?s fb sb w g (Max (timestamp ` set drinks)) 0 ?t0 0 ?n0"
  have sd: "\<forall>d \<in> set ?s. 0 \<le> standardDrinks d" using assms(1) by simp
  have n0: "0 \<le> ?n0"
    by (rule addDrinks_nonneg) (use sd in \<open>simp_all add: initialDrinks_def\<close>)
  from assms(2) consider "p = \<lparr>time = ?t0, bac = toBAC w g ?n0, label = f ?t0\<rparr>" | "p \<in> set ?L"
    by (auto simp: points_unfold[OF False])
  then show ?thesis
  proof cases
    case 1
    then show ?thesis using toBAC_nonneg[OF n0] by simp
  next
    case 2
    then obtain k where k: "k < length ?L" "?L ! k = p" by (auto simp: in_set_conv_nth)
    from whileLoop_nth[OF k(1)] k(2)
    have "bac p = toBAC w g (netAfter ?s fb sb ?t0 0 ?n0 (Suc k))" by simp
    moreover have "0 \<le> toBAC w g (netAfter ?s fb sb ?t0 0 ?n0 (Suc k))"
      by (rule toBAC_nonneg[OF netAfter_nonneg[OF n0 sd]])
    ultimately show ?thesis by (simp only:)
  qed
qed

lemma calculateStandardDrinks_nonneg:
  "0 \<le> v \<Longrightarrow> 0 \<le> a \<Longrightarrow> 0 \<le> calculateStandardDrinks v a"
  by (simp add: calculateStandardDrinks_def)

lemma drinksInInterval_map:
  assumes ts: "\<And>e. timestamp (h e) = timestamp e"
    and same: "\<And>e. timestamp e \<le> b \<Longrightarrow> h e = e"
  shows "drinksInInterval (map h ds) a b = drinksInInterval ds a b"
proof -
  have "drinksInInterval (map h ds) a b = map h (drinksInInterval ds a b)"
    by (simp add: drinksInInterval_def filter_map o_def ts)
  also have "\<dots> = drinksInInterval ds a b"
    by (rule map_idI) (simp add: drinksInInterval_def same)
  finally show ?thesis .
qed

lemma initialDrinks_map:
  assumes ts: "\<And>e. timestamp (h e) = timestamp e"
    and same: "\<And>e. timestamp e < t0 + 1000 \<Longrightarrow> h e = e"
  shows "initialDrinks (map h ds) t0 = initialDrinks ds t0"
proof -
  have "initialDrinks (map h ds) t0 = map h (initialDrinks ds t0)"
    by (simp add: initialDrinks_def filter_map o_def ts)
  also have "\<dots> = initialDrinks ds t0"
    by (rule map_idI) (auto simp: initialDrinks_def intro!: same)
  finally show ?thesis .
qed

lemma points_map_late:
  assumes ne: "drinks \<noteq> []"
    and ts: "\<And>e. timestamp (h e) = timestamp e"
    and same: "\<And>e. timestamp e \<le> Min (timestamp ` set drinks) + 86400000 \<Longrightarrow> h e = e"
  shows "points f (map h drinks) fb sb w g = points f drinks fb sb w g"
proof -
  let ?t0 = "Min (timestamp ` set drinks)"
  let ?l = "Max (timestamp ` set drinks)"
  let ?s = "sort_key timestamp drinks"
  let ?s' = "sort_key timestamp (map h drinks)"
  have ne': "map h drinks \<noteq> []" using ne by simp
  have img: "timestamp ` h ` set drinks = timestamp ` set drinks"
    by (simp add: image_image ts)
  have "addDrinks 0 (initialDrinks ?s' ?t0) = addDrinks 0 (initialDrinks (map h drinks) ?t0)"
    by (rule initial_mset) simp
  also have "\<dots> = addDrinks 0 (initialDrinks drinks ?t0)"
    by (subst initialDrinks_map[of h]) (simp_all add: ts same)
  also have "\<dots> = addDrinks 0 (initialDrinks ?s ?t0)"
    by (rule initial_mset) simp
  finally have n0: "addDrinks 0 (initialDrinks ?s' ?t0) = addDrinks 0 (initialDrinks ?s ?t0)" .
  have "whileLoop f ?s' fb sb w g ?l 0 ?t0 0 (addDrinks 0 (initialDrinks ?s ?t0))
      = whileLoop f ?s fb sb w g ?l 0 ?t0 0 (addDrinks 0 (initialDrinks ?s ?t0))"
  proof (rule whileLoop_cong)
    fix j tss' cur'
    assume "j < maxSteps - 0"
    then have j: "?t0 + int j * stepMs + stepMs \<le> ?t0 + 86400000"
      by (simp add: maxSteps_eq stepMs_eq)
    have "stepNetSD ?s' fb sb (?t0 + int j * stepMs) tss' cur'
        = stepNetSD (map h drinks) fb sb (?t0 + int j * stepMs) tss' cur'"
      by (rule stepNetSD_mset) simp
    also have "\<dots> = stepNetSD drinks fb sb (?t0 + int j * stepMs) tss' cur'"
    proof -
      have "drinksInInterval (map h drinks) (?t0 + int j * stepMs) (?t0 + int j * stepMs + stepMs)
          = drinksInInterval drinks (?t0 + int j * stepMs) (?t0 + int j * stepMs + stepMs)"
        by (rule drinksInInterval_map) (use j in \<open>simp_all add: ts same\<close>)
      then show ?thesis by (simp add: stepNetSD_def)
    qed
    also have "\<dots> = stepNetSD ?s fb sb (?t0 + int j * stepMs) tss' cur'"
      by (rule stepNetSD_mset) simp
    finally show "stepNetSD ?s' fb sb (?t0 + int j * stepMs) tss' cur'
        = stepNetSD ?s fb sb (?t0 + int j * stepMs) tss' cur'" .
  qed
  then show ?thesis
    by (simp add: points_unfold[OF ne] points_unfold[OF ne'] img n0)
qed

lemma points_full_horizon:
  assumes ne: "drinks \<noteq> []"
    and late: "Min (timestamp ` set drinks) + 86400000 < Max (timestamp ` set drinks)"
  shows "length (points f drinks fb sb w g) = 289"
proof (rule ccontr)
  let ?P = "points f drinks fb sb w g"
  assume "length ?P \<noteq> 289"
  with points_length[of f drinks fb sb w g] have short: "length ?P < 289"
    by (simp add: maxSteps_eq)
  have "2 \<le> length ?P"
    using whileLoop_nonempty[of 0 f "sort_key timestamp drinks" fb sb w g]
    by (simp add: points_unfold[OF ne] maxSteps_eq Suc_le_eq)
  with short have idx: "length ?P - 2 < length ?P" "length ?P - 2 < 287" by simp_all
  from points_stopped_early[OF ne short]
  have "Max (timestamp ` set drinks) < time (?P ! (length ?P - 2))" by blast
  also have "\<dots> = Min (timestamp ` set drinks) + int (length ?P - 2) * stepMs"
    by (rule points_nth_time[OF ne idx(1)])
  also have "\<dots> \<le> Min (timestamp ` set drinks) + 86400000"
    using idx(2) by (simp add: stepMs_eq)
  finally show False using late by simp
qed

lemma netSDAt_unfold:
  assumes "drinks \<noteq> []"
  shows "netSDAt drinks fb sb k =
     netAfter (sort_key timestamp drinks) fb sb (Min (timestamp ` set drinks)) 0
       (addDrinks 0 (initialDrinks (sort_key timestamp drinks) (Min (timestamp ` set drinks)))) k"
  by (simp add: netSDAt_def Let_def hd_sort_key_timestamp[OF assms])

lemma points_nth_bac:
  assumes ne: "drinks \<noteq> []" and k: "k < length (points f drinks fb sb w g)"
  shows "bac (points f drinks fb sb w g ! k) = toBAC w g (netSDAt drinks fb sb k)"
proof (cases k)
  case 0
  then show ?thesis by (simp add: points_unfold[OF ne] netSDAt_unfold[OF ne])
next
  case (Suc j)
  with k have "j < length (whileLoop f (sort_key timestamp drinks) fb sb w g
      (Max (timestamp ` set drinks)) 0 (Min (timestamp ` set drinks)) 0
      (addDrinks 0 (initialDrinks (sort_key timestamp drinks) (Min (timestamp ` set drinks)))))"
    by (simp add: points_unfold[OF ne])
  from whileLoop_nth[OF this] Suc show ?thesis
    by (simp add: points_unfold[OF ne] netSDAt_unfold[OF ne] del: netAfter.simps)
qed

lemma stepNetSD_eq:
  "stepNetSD ds fb sb ct tss cur =
     (let net1 = cur + sum_list (map standardDrinks (drinksInInterval ds ct (ct + 300000)));
          burnAmount = (if tss < 60 * 60 * 1000 then fb * (5 / 60) else sb * (5 / 60))
      in if 0 < net1 then max 0 (net1 - burnAmount) else net1)"
  by (simp add: stepNetSD_def Let_def addDrinks_sum stepMs_eq stepBurnFirstHour_def
      stepBurnSubsequent_def max_def)

lemma interval_sum_split:
  fixes f :: "Drink \<Rightarrow> real"
  assumes "a \<le> b" "b \<le> c"
  shows "sum_list (map f (drinksInInterval ds a b)) + sum_list (map f (drinksInInterval ds b c))
       = sum_list (map f (drinksInInterval ds a c))"
  using assms by (induction ds) (auto simp: drinksInInterval_def)

lemma interval_empty: "drinksInInterval ds a a = []"
  by (simp add: drinksInInterval_def)

lemma first_hour_burn:
  assumes pos: "\<And>k. 1 \<le> k \<Longrightarrow> k \<le> j \<Longrightarrow> 0 < netAfter ds fb sb t0 0 cur k" and j: "j \<le> 12"
  shows "netAfter ds fb sb t0 0 cur j =
      cur + sum_list (map standardDrinks (drinksInInterval ds t0 (t0 + int j * 300000)))
        - real j * (fb * (5 / 60))"
  using pos j
proof (induction j)
  case 0
  show ?case by (simp add: interval_empty)
next
  case (Suc j)
  let ?prev = "netAfter ds fb sb t0 0 cur j"
  let ?add = "sum_list (map standardDrinks
      (drinksInInterval ds (t0 + int j * 300000) (t0 + int j * 300000 + 300000)))"
  have ih: "?prev = cur + sum_list (map standardDrinks (drinksInInterval ds t0 (t0 + int j * 300000)))
        - real j * (fb * (5 / 60))"
    by (rule Suc.IH) (use Suc.prems in auto)
  have early: "int j * 300000 < 60 * 60 * 1000" using Suc.prems(2) by simp
  have step: "netAfter ds fb sb t0 0 cur (Suc j) =
      (if 0 < ?prev + ?add then max 0 (?prev + ?add - fb * (5 / 60)) else ?prev + ?add)"
    using early by (simp add: stepNetSD_eq[of ds fb sb] stepMs_eq Let_def)
  have "0 < netAfter ds fb sb t0 0 cur (Suc j)" by (rule Suc.prems(1)) simp_all
  with step have val: "netAfter ds fb sb t0 0 cur (Suc j) = ?prev + ?add - fb * (5 / 60)"
    by (auto simp: max_def split: if_splits)
  let ?S = "sum_list (map standardDrinks (drinksInInterval ds t0 (t0 + int j * 300000)))"
  have "?S + ?add
      = sum_list (map standardDrinks (drinksInInterval ds t0 (t0 + int j * 300000 + 300000)))"
    by (rule interval_sum_split) simp_all
  moreover have "t0 + int j * 300000 + 300000 = t0 + int (Suc j) * 300000" by simp
  ultimately have merged: "?S + ?add
      = sum_list (map standardDrinks (drinksInInterval ds t0 (t0 + int (Suc j) * 300000)))"
    by (simp only:)
  note val
  also have "?prev + ?add - fb * (5 / 60) = (cur + ?S - real j * (fb * (5 / 60))) + ?add - fb * (5 / 60)"
    by (simp only: ih)
  also have "\<dots> = cur + (?S + ?add) - real (Suc j) * (fb * (5 / 60))"
    by (simp add: algebra_simps)
  also have "\<dots> = cur + sum_list (map standardDrinks (drinksInInterval ds t0 (t0 + int (Suc j) * 300000)))
      - real (Suc j) * (fb * (5 / 60))"
    by (simp only: merged)
  finally show ?case .
qed

section \<open>Properties of \<open>soberTimeInfo\<close>\<close>

declare peakLoop.simps [simp del] crossLoop.simps [simp del]

lemma peakLoop_first_max:
  assumes "p < i" "i \<le> length pts"
    and "\<forall>j<i. bac (pts ! j) \<le> bac (pts ! p)"
    and "\<forall>j<p. bac (pts ! j) < bac (pts ! p)"
  shows "peakLoop pts i p < length pts \<and>
         (\<forall>j<length pts. bac (pts ! j) \<le> bac (pts ! peakLoop pts i p)) \<and>
         (\<forall>j<peakLoop pts i p. bac (pts ! j) < bac (pts ! peakLoop pts i p))"
  using assms
proof (induction pts i p rule: peakLoop.induct)
  case (1 pts i p)
  show ?case
  proof (cases "i < length pts")
    case False
    with "1.prems" have "i = length pts" by simp
    with "1.prems" False show ?thesis by (subst (1 2 3 4) peakLoop.simps) simp
  next
    case True
    let ?p = "if bac (pts ! i) > bac (pts ! p) then i else p"
    have a: "?p < i + 1" using "1.prems"(1) by simp
    have b: "i + 1 \<le> length pts" using True by simp
    have c: "\<forall>j<i + 1. bac (pts ! j) \<le> bac (pts ! ?p)"
    proof (intro allI impI)
      fix j assume "j < i + 1"
      then consider "j < i" | "j = i" by linarith
      then show "bac (pts ! j) \<le> bac (pts ! ?p)"
        using "1.prems"(3) by cases (auto simp: less_imp_le dest: spec[of _ j])
    qed
    have d: "\<forall>j<?p. bac (pts ! j) < bac (pts ! ?p)"
    proof (intro allI impI)
      fix j assume j: "j < ?p"
      show "bac (pts ! j) < bac (pts ! ?p)"
      proof (cases "bac (pts ! i) > bac (pts ! p)")
        case True
        with j have "j < i" by simp
        with "1.prems"(3) have "bac (pts ! j) \<le> bac (pts ! p)" by blast
        with True show ?thesis by simp
      next
        case False
        with j "1.prems"(4) show ?thesis by simp
      qed
    qed
    from "1.IH"[OF True a b c d] True show ?thesis
      by (subst (1 2 3 4) peakLoop.simps) simp
  qed
qed

lemma crossLoop_Some:
  "crossLoop pts i = Some k \<Longrightarrow>
   i \<le> k \<and> k < length pts \<and> bac (pts ! k) \<le> 0.05 \<and>
   (\<forall>j. i \<le> j \<and> j < k \<longrightarrow> 0.05 < bac (pts ! j))"
proof (induction pts i rule: crossLoop.induct)
  case (1 pts i)
  show ?case
  proof (cases "i < length pts \<and> \<not> bac (pts ! i) \<le> 0.05")
    case True
    with "1.prems" have "crossLoop pts (i + 1) = Some k"
      by (subst (asm) crossLoop.simps) simp
    with "1.IH" True have ih: "i + 1 \<le> k \<and> k < length pts \<and> bac (pts ! k) \<le> 0.05 \<and>
       (\<forall>j. i + 1 \<le> j \<and> j < k \<longrightarrow> 0.05 < bac (pts ! j))" by blast
    have "0.05 < bac (pts ! j)" if "i \<le> j" "j < k" for j
    proof (cases "j = i")
      case True
      with \<open>i < length pts \<and> \<not> bac (pts ! i) \<le> 0.05\<close> show ?thesis by simp
    next
      case False
      with that have "i + 1 \<le> j" by simp
      with ih that show ?thesis by blast
    qed
    with ih show ?thesis by auto
  next
    case False
    with "1.prems" show ?thesis
      by (subst (asm) crossLoop.simps) (auto split: if_splits)
  qed
qed

lemma crossLoop_None:
  "crossLoop pts i = None \<Longrightarrow> \<forall>j. i \<le> j \<and> j < length pts \<longrightarrow> 0.05 < bac (pts ! j)"
proof (induction pts i rule: crossLoop.induct)
  case (1 pts i)
  show ?case
  proof (cases "i < length pts")
    case False
    then show ?thesis by simp
  next
    case True
    with "1.prems" have nb: "\<not> bac (pts ! i) \<le> 0.05" and rest: "crossLoop pts (i + 1) = None"
      by (subst (asm) crossLoop.simps, simp split: if_splits)+
    from "1.IH"[OF True nb rest] have ih: "\<forall>j. i + 1 \<le> j \<and> j < length pts \<longrightarrow> 0.05 < bac (pts ! j)" .
    show ?thesis
    proof (intro allI impI)
      fix j assume j: "i \<le> j \<and> j < length pts"
      show "0.05 < bac (pts ! j)"
      proof (cases "j = i")
        case True
        with nb show ?thesis by simp
      next
        case False
        with j have "i + 1 \<le> j" by simp
        with ih j show ?thesis by blast
      qed
    qed
  qed
qed

lemma peakLoop_start:
  assumes "pts \<noteq> []"
  shows "peakLoop pts 1 0 < length pts \<and>
         (\<forall>j<length pts. bac (pts ! j) \<le> bac (pts ! peakLoop pts 1 0)) \<and>
         (\<forall>j<peakLoop pts 1 0. bac (pts ! j) < bac (pts ! peakLoop pts 1 0))"
  by (rule peakLoop_first_max) (use assms in \<open>simp_all add: Suc_le_eq\<close>)

section \<open>Exact arithmetic: first-hour total and order of the input\<close>

text \<open>
  With exact arithmetic, twelve steps that keep the units positive remove exactly
  \<open>firstHourBurn\<close> units.
\<close>

lemma first_hour_total_exact:
  assumes "drinks \<noteq> []"
  shows "(\<forall>k < length (points f drinks fb sb w g).
            bac (points f drinks fb sb w g ! k) = toBAC w g (netSDAt drinks fb sb k)) \<and>
    (\<forall>k. netSDAt drinks fb sb (Suc k) =
       (let net1 = netSDAt drinks fb sb k + sum_list (map standardDrinks
                     (drinksInInterval (sort_key timestamp drinks)
                        (Min (timestamp ` set drinks) + int k * 300000)
                        (Min (timestamp ` set drinks) + int k * 300000 + 300000)));
            burnAmount = (if int k * 300000 < 60 * 60 * 1000
                          then fb * (5 / 60) else sb * (5 / 60))
        in if 0 < net1 then max 0 (net1 - burnAmount) else net1)) \<and>
    ((\<forall>k. 1 \<le> k \<and> k \<le> 12 \<longrightarrow> 0 < netSDAt drinks fb sb k) \<longrightarrow>
       netSDAt drinks fb sb 12 =
         netSDAt drinks fb sb 0
         + sum_list (map standardDrinks
             (drinksInInterval (sort_key timestamp drinks)
                (Min (timestamp ` set drinks)) (Min (timestamp ` set drinks) + 60 * 60 * 1000)))
         - fb) \<and>
    ((\<forall>d \<in> set drinks. 0 \<le> standardDrinks d) \<longrightarrow> (\<forall>k. 0 \<le> netSDAt drinks fb sb k))"
proof -
  let ?s = "sort_key timestamp drinks"
  let ?t0 = "Min (timestamp ` set drinks)"
  let ?n0 = "addDrinks 0 (initialDrinks ?s ?t0)"
  note u = netSDAt_unfold[OF assms]
  have a: "\<forall>k < length (points f drinks fb sb w g).
            bac (points f drinks fb sb w g ! k) = toBAC w g (netSDAt drinks fb sb k)"
    using points_nth_bac[OF assms] by blast
  have b: "netSDAt drinks fb sb (Suc k) =
       (let net1 = netSDAt drinks fb sb k + sum_list (map standardDrinks
                     (drinksInInterval ?s (?t0 + int k * 300000) (?t0 + int k * 300000 + 300000)));
            burnAmount = (if int k * 300000 < 60 * 60 * 1000
                          then fb * (5 / 60) else sb * (5 / 60))
        in if 0 < net1 then max 0 (net1 - burnAmount) else net1)" for k
    by (simp add: u stepNetSD_eq[of ?s fb sb] stepMs_eq)
  have c: "netSDAt drinks fb sb 12 =
         netSDAt drinks fb sb 0
         + sum_list (map standardDrinks (drinksInInterval ?s ?t0 (?t0 + 60 * 60 * 1000))) - fb"
    if pos: "\<forall>k. 1 \<le> k \<and> k \<le> 12 \<longrightarrow> 0 < netSDAt drinks fb sb k"
  proof -
    have "netAfter ?s fb sb ?t0 0 ?n0 12 =
      ?n0 + sum_list (map standardDrinks (drinksInInterval ?s ?t0 (?t0 + int 12 * 300000)))
        - real 12 * (fb * (5 / 60))"
      by (rule first_hour_burn) (use pos in \<open>simp_all add: u\<close>)
    then show ?thesis by (simp add: u)
  qed
  have d: "0 \<le> netSDAt drinks fb sb k" if sd: "\<forall>d \<in> set drinks. 0 \<le> standardDrinks d" for k
  proof -
    have sd': "\<forall>d \<in> set ?s. 0 \<le> standardDrinks d" using sd by simp
    have "0 \<le> ?n0"
      by (rule addDrinks_nonneg) (use sd' in \<open>simp_all add: initialDrinks_def\<close>)
    from netAfter_nonneg[OF this sd'] show ?thesis by (simp only: u)
  qed
  from a b c d show ?thesis by blast
qed

text \<open>
  With exact arithmetic, the samples do not depend on the order of the input list, also
  when drinks share a timestamp.
\<close>

lemma points_order_independent_exact:
  assumes "mset drinks = mset drinks'"
  shows "points f drinks fb sb w g = points f drinks' fb sb w g"
proof (cases "drinks = []")
  case True
  with assms have "drinks' = []" by simp
  with True show ?thesis by simp
next
  case False
  with assms have ne': "drinks' \<noteq> []" by auto
  from assms have set_eq: "set drinks = set drinks'" by (rule mset_eq_setD)
  have ms: "mset (sort_key timestamp drinks) = mset (sort_key timestamp drinks')"
    using assms by simp
  have n0: "addDrinks 0 (initialDrinks (sort_key timestamp drinks) (Min (timestamp ` set drinks')))
      = addDrinks 0 (initialDrinks (sort_key timestamp drinks') (Min (timestamp ` set drinks')))"
    by (rule initial_mset[OF ms])
  have "whileLoop f (sort_key timestamp drinks) fb sb w g (Max (timestamp ` set drinks')) 0
         (Min (timestamp ` set drinks')) 0
         (addDrinks 0 (initialDrinks (sort_key timestamp drinks') (Min (timestamp ` set drinks'))))
      = whileLoop f (sort_key timestamp drinks') fb sb w g (Max (timestamp ` set drinks')) 0
         (Min (timestamp ` set drinks')) 0
         (addDrinks 0 (initialDrinks (sort_key timestamp drinks') (Min (timestamp ` set drinks'))))"
    by (rule whileLoop_cong) (rule stepNetSD_mset[OF ms])
  then show ?thesis
    by (simp add: points_unfold[OF False] points_unfold[OF ne'] set_eq n0)
qed

section \<open>Properties of double arithmetic and of the simulator in doubles\<close>

lemma binaryExponent_bounds:
  assumes "0 < y"
  shows "2 powi (binaryExponent y) \<le> y \<and> y < 2 powi (binaryExponent y + 1)"
proof (cases "1 \<le> y")
  case True
  define n where "n = nat \<lfloor>y\<rfloor>"
  define k where "k = floorlog 2 n"
  from True have n1: "1 \<le> n" by (simp add: n_def le_nat_iff)
  then have b: "2 ^ (k - 1) \<le> n" "n < 2 ^ k"
    using floorlog_bounds[of n 2] by (simp_all add: k_def)
  from b(2) n1 have k1: "1 \<le> k" by (cases k) auto
  have e: "binaryExponent y = int k - 1"
    using True by (simp add: binaryExponent_def k_def n_def)
  have ny: "real n \<le> y" "y < real n + 1" using True by (simp_all add: n_def)
  have r1: "(2::real) ^ (k - 1) \<le> real n" using of_nat_mono[OF b(1), where 'a = real] by simp
  from b(2) have "Suc n \<le> 2 ^ k" by (rule Suc_leI)
  from of_nat_mono[OF this, where 'a = real] have r2: "real n + 1 \<le> 2 ^ k" by simp
  have p1: "(2::real) powi (int k - 1) = 2 ^ (k - 1)"
    using k1 by (simp add: of_nat_diff flip: power_int_of_nat)
  have p2: "(2::real) powi (int k - 1 + 1) = 2 ^ k" by simp
  have "2 powi (int k - 1) \<le> y" using p1 r1 ny by linarith
  moreover have "y < 2 powi (int k - 1 + 1)" using p2 r2 ny by linarith
  ultimately show ?thesis unfolding e by blast
next
  case False
  define z where "z = 1 / y"
  define m where "m = \<lceil>z\<rceil>"
  define k where "k = floorlog 2 (nat (m - 1))"
  from False assms have z1: "1 < z" by (simp add: z_def)
  then have m2: "2 \<le> m" unfolding m_def by linarith
  then have pos: "0 < nat (m - 1)" by simp
  have b: "2 ^ (k - 1) \<le> nat (m - 1)" "nat (m - 1) < 2 ^ k"
    using floorlog_bounds[OF pos, of 2] by (simp_all add: k_def)
  from b(2) pos have k1: "1 \<le> k" by (cases k) auto
  have e: "binaryExponent y = - int k"
    using False by (simp add: binaryExponent_def k_def m_def z_def)
  have zm: "z \<le> of_int m" "of_int m - 1 < z" unfolding m_def by linarith+
  from b(2) have "Suc (nat (m - 1)) \<le> 2 ^ k" by (rule Suc_leI)
  from of_nat_mono[OF this, where 'a = real] m2 have "of_int m \<le> (2::real) ^ k" by simp
  with zm have zle: "z \<le> 2 ^ k" by linarith
  from of_nat_mono[OF b(1), where 'a = real] m2 have "(2::real) ^ (k - 1) \<le> of_int m - 1" by simp
  with zm have zgt: "2 ^ (k - 1) < z" by linarith
  have y: "y = 1 / z" using assms by (simp add: z_def)
  have q1: "1 / 2 ^ k \<le> y" unfolding y using zle z1 by (simp add: frac_le)
  have q2: "y < 1 / 2 ^ (k - 1)" unfolding y using zgt z1
    by (simp add: frac_less2)
  have p1: "(2::real) powi (- int k) = 1 / 2 ^ k"
    by (simp add: power_int_minus_divide)
  have p2: "(2::real) powi (- int k + 1) = 1 / 2 ^ (k - 1)"
  proof -
    have "- int k + 1 = - int (k - 1)" using k1 by simp
    then show ?thesis by (simp only: power_int_minus_divide power_int_of_nat)
  qed
  have "2 powi (- int k) \<le> y" using p1 q1 by linarith
  moreover have "y < 2 powi (- int k + 1)" using p2 q2 by linarith
  ultimately show ?thesis unfolding e by blast
qed

lemma binaryExponent_eq:
  assumes "2 powi e \<le> y" "y < 2 powi (e + 1)"
  shows "binaryExponent y = e"
proof -
  have pos: "0 < y" using assms(1) zero_less_power_int[of "2::real" e] by linarith
  note b = binaryExponent_bounds[OF pos]
  have "binaryExponent y < e + 1"
  proof (rule ccontr)
    assume "\<not> binaryExponent y < e + 1"
    then have "(2::real) powi (e + 1) \<le> 2 powi binaryExponent y"
      by (intro power_int_increasing) simp_all
    with b assms show False by linarith
  qed
  moreover have "e < binaryExponent y + 1"
  proof (rule ccontr)
    assume "\<not> e < binaryExponent y + 1"
    then have "(2::real) powi (binaryExponent y + 1) \<le> 2 powi e"
      by (intro power_int_increasing) simp_all
    with b assms show False by linarith
  qed
  ultimately show ?thesis by simp
qed

lemma round53_eval:
  assumes "2 powi e \<le> \<bar>x\<bar>" "\<bar>x\<bar> < 2 powi (e + 1)"
  shows "round53 x =
     of_int (roundHalfEven (x / 2 powi (max e (- 1022) - 52))) * 2 powi (max e (- 1022) - 52)"
proof -
  have "0 < (2::real) powi e" by simp
  with assms(1) have "0 < \<bar>x\<bar>" by linarith
  then have "x \<noteq> 0" by simp
  then show ?thesis
    by (simp add: round53_def Let_def binaryExponent_eq[OF assms])
qed

lemma roundDouble_eval:
  assumes "2 powi e \<le> \<bar>x\<bar>" "\<bar>x\<bar> < 2 powi (e + 1)"
  shows "roundDouble x =
     (let ulp = 2 powi (max e (- 1022) - 52);
          v = of_int (roundHalfEven (x / ulp)) * ulp
      in if 2 ^ 1024 \<le> \<bar>v\<bar> then (if 0 < x then PosInf else NegInf) else Finite v)"
  by (simp add: roundDouble_def Let_def round53_eval[OF assms])




lemma dle_zero_cases: "dle (Finite 0) x \<longleftrightarrow> x = PosInf \<or> (\<exists>a. 0 \<le> a \<and> x = Finite a)"
  by (cases x) auto


declare whileLoopD.simps [simp del]

lemma whileLoopD_unfold:
  "whileLoopD f ds fb sb w g l steps ct tss cur =
     (if steps < maxSteps then
        (if ct > l \<and> dle (toBACD w g (stepNetSDD ds fb sb ct tss cur)) (roundDouble 0.001)
         then [\<lparr>timeD = ct + stepMs, bacD = toBACD w g (stepNetSDD ds fb sb ct tss cur),
                 labelD = f (ct + stepMs)\<rparr>]
         else \<lparr>timeD = ct + stepMs, bacD = toBACD w g (stepNetSDD ds fb sb ct tss cur),
                 labelD = f (ct + stepMs)\<rparr>
              # whileLoopD f ds fb sb w g l (steps + 1) (ct + stepMs) (tss + stepMs)
                  (stepNetSDD ds fb sb ct tss cur))
      else [])"
  by (subst whileLoopD.simps) (simp add: Let_def)

lemma whileLoopD_induct [case_names step]:
  assumes "\<And>steps ct tss cur.
     (steps < maxSteps \<Longrightarrow>
        \<not> (ct > l \<and> dle (toBACD w g (stepNetSDD ds fb sb ct tss cur)) (roundDouble 0.001))
        \<Longrightarrow> P (steps + 1) (ct + stepMs) (tss + stepMs) (stepNetSDD ds fb sb ct tss cur))
     \<Longrightarrow> P steps ct tss cur"
  shows "P steps ct tss cur"
proof (induction "maxSteps - steps" arbitrary: steps ct tss cur)
  case (0 steps ct tss cur)
  show ?case by (rule assms) (use 0 in simp)
next
  case (Suc n steps ct tss cur)
  show ?case
  proof (rule assms)
    assume "steps < maxSteps"
    with Suc.hyps(2) have "n = maxSteps - (steps + 1)" by simp
    then show "P (steps + 1) (ct + stepMs) (tss + stepMs) (stepNetSDD ds fb sb ct tss cur)"
      by (rule Suc.hyps(1))
  qed
qed

lemma netAfterD_shift:
  "netAfterD ds fb sb (ct + stepMs) (tss + stepMs) (stepNetSDD ds fb sb ct tss cur) k
     = netAfterD ds fb sb ct tss cur (Suc k)"
proof (induction k)
  case 0
  show ?case by simp
next
  case (Suc k)
  have e1: "ct + stepMs + int k * stepMs = ct + int (Suc k) * stepMs"
    and e2: "tss + stepMs + int k * stepMs = tss + int (Suc k) * stepMs"
    by (simp_all add: algebra_simps)
  have "netAfterD ds fb sb (ct + stepMs) (tss + stepMs) (stepNetSDD ds fb sb ct tss cur) (Suc k)
      = stepNetSDD ds fb sb (ct + stepMs + int k * stepMs) (tss + stepMs + int k * stepMs)
          (netAfterD ds fb sb (ct + stepMs) (tss + stepMs) (stepNetSDD ds fb sb ct tss cur) k)"
    by simp
  also have "\<dots> = stepNetSDD ds fb sb (ct + int (Suc k) * stepMs) (tss + int (Suc k) * stepMs)
          (netAfterD ds fb sb ct tss cur (Suc k))"
    by (simp only: e1 e2 Suc.IH)
  also have "\<dots> = netAfterD ds fb sb ct tss cur (Suc (Suc k))"
    by (simp only: netAfterD.simps)
  finally show ?case .
qed



lemma whileLoopD_continue:
  "steps < maxSteps \<Longrightarrow>
   \<not> (ct > l \<and> dle (toBACD w g (stepNetSDD ds fb sb ct tss cur)) (roundDouble 0.001)) \<Longrightarrow>
   whileLoopD f ds fb sb w g l steps ct tss cur =
     \<lparr>timeD = ct + stepMs, bacD = toBACD w g (stepNetSDD ds fb sb ct tss cur),
       labelD = f (ct + stepMs)\<rparr>
     # whileLoopD f ds fb sb w g l (steps + 1) (ct + stepMs) (tss + stepMs)
         (stepNetSDD ds fb sb ct tss cur)"
  by (subst whileLoopD_unfold) auto

lemma whileLoopD_nth:
  "k < length (whileLoopD f ds fb sb w g l steps ct tss cur) \<Longrightarrow>
   whileLoopD f ds fb sb w g l steps ct tss cur ! k =
     \<lparr>timeD = ct + (int k + 1) * stepMs,
      bacD = toBACD w g (netAfterD ds fb sb ct tss cur (Suc k)),
      labelD = f (ct + (int k + 1) * stepMs)\<rparr>"
proof (induction steps ct tss cur arbitrary: k rule: whileLoopD_induct[where l=l and w=w and g=g and ds=ds and fb=fb and sb=sb])
  case (step steps ct tss cur)
  let ?n = "stepNetSDD ds fb sb ct tss cur"
  from step.prems have lt: "steps < maxSteps"
    by (subst (asm) whileLoopD_unfold) (auto split: if_splits)
  show ?case
  proof (cases k)
    case 0
    with lt show ?thesis by (subst whileLoopD_unfold) simp
  next
    case (Suc j)
    with step.prems lt have nb: "\<not> (ct > l \<and> dle (toBACD w g ?n) (roundDouble 0.001))"
      by (subst (asm) whileLoopD_unfold) (auto split: if_splits)
    with step.prems lt Suc have "j < length (whileLoopD f ds fb sb w g l (steps + 1) (ct + stepMs) (tss + stepMs) ?n)"
      by (subst (asm) whileLoopD_unfold) (auto split: if_splits)
    from step.IH[OF lt nb this]
    have "whileLoopD f ds fb sb w g l (steps + 1) (ct + stepMs) (tss + stepMs) ?n ! j =
       \<lparr>timeD = ct + stepMs + (int j + 1) * stepMs,
         bacD = toBACD w g (netAfterD ds fb sb (ct + stepMs) (tss + stepMs) ?n (Suc j)),
         labelD = f (ct + stepMs + (int j + 1) * stepMs)\<rparr>" .
    moreover have "ct + stepMs + (int j + 1) * stepMs = ct + (int k + 1) * stepMs"
      using Suc by (simp add: algebra_simps)
    moreover have "whileLoopD f ds fb sb w g l steps ct tss cur ! k
        = whileLoopD f ds fb sb w g l (steps + 1) (ct + stepMs) (tss + stepMs) ?n ! j"
      using Suc by (simp add: whileLoopD_continue[OF lt nb])
    ultimately show ?thesis
      using Suc by (simp only: netAfterD_shift)
  qed
qed














lemma hd_sort_key_timestampD:
  assumes "drinks \<noteq> []"
  shows "timestampD (hd (sort_key timestampD drinks)) = Min (timestampD ` set drinks)"
proof -
  let ?s = "sort_key timestampD drinks"
  have ne: "?s \<noteq> []" using assms by (rule sort_key_nonempty)
  have "hd (map timestampD ?s) = Min (set (map timestampD ?s))"
    by (rule sorted_hd_Min) (simp_all add: ne)
  then show ?thesis using ne by (simp add: hd_map)
qed

lemma last_sort_key_timestampD:
  assumes "drinks \<noteq> []"
  shows "timestampD (last (sort_key timestampD drinks)) = Max (timestampD ` set drinks)"
proof -
  let ?s = "sort_key timestampD drinks"
  have ne: "?s \<noteq> []" using assms by (rule sort_key_nonempty)
  have "last (map timestampD ?s) = Max (set (map timestampD ?s))"
    by (rule sorted_last_Max) (simp_all add: ne)
  then show ?thesis using ne by (simp add: last_map)
qed

lemma pointsD_unfold:
  assumes "drinks \<noteq> []"
  shows "pointsD f drinks fb sb w g =
     \<lparr>timeD = Min (timestampD ` set drinks),
       bacD = toBACD w g (addDrinksD (Finite 0) (initialDrinksD (sort_key timestampD drinks)
                                      (Min (timestampD ` set drinks)))),
       labelD = f (Min (timestampD ` set drinks))\<rparr>
     # whileLoopD f (sort_key timestampD drinks) fb sb w g (Max (timestampD ` set drinks)) 0
         (Min (timestampD ` set drinks)) 0
         (addDrinksD (Finite 0) (initialDrinksD (sort_key timestampD drinks)
            (Min (timestampD ` set drinks))))"
  using assms
  by (simp add: pointsD_def Let_def hd_sort_key_timestampD last_sort_key_timestampD)

lemma netSDAtD_unfold:
  assumes "drinks \<noteq> []"
  shows "netSDAtD drinks fb sb k =
     netAfterD (sort_key timestampD drinks) fb sb (Min (timestampD ` set drinks)) 0
       (addDrinksD (Finite 0) (initialDrinksD (sort_key timestampD drinks)
          (Min (timestampD ` set drinks)))) k"
  by (simp add: netSDAtD_def Let_def hd_sort_key_timestampD[OF assms])

lemma pointsD_nth_bac:
  assumes ne: "drinks \<noteq> []" and k: "k < length (pointsD f drinks fb sb w g)"
  shows "bacD (pointsD f drinks fb sb w g ! k) = toBACD w g (netSDAtD drinks fb sb k)"
proof (cases k)
  case 0
  then show ?thesis by (simp add: pointsD_unfold[OF ne] netSDAtD_unfold[OF ne])
next
  case (Suc j)
  with k have "j < length (whileLoopD f (sort_key timestampD drinks) fb sb w g
      (Max (timestampD ` set drinks)) 0 (Min (timestampD ` set drinks)) 0
      (addDrinksD (Finite 0) (initialDrinksD (sort_key timestampD drinks)
         (Min (timestampD ` set drinks)))))"
    by (simp add: pointsD_unfold[OF ne])
  from whileLoopD_nth[OF this] Suc show ?thesis
    by (simp add: pointsD_unfold[OF ne] netSDAtD_unfold[OF ne] del: netAfterD.simps)
qed





lemma pointsD_sorted_eq:
  assumes "mset drinks = mset drinks'" "distinct (map timestampD drinks)"
  shows "sort_key timestampD drinks = sort_key timestampD drinks'"
proof (rule sort_key_inj_key_eq)
  show "mset drinks = mset (sort_key timestampD drinks')" using assms(1) by simp
  show "inj_on timestampD (set drinks)" using assms(2) by (simp add: distinct_map)
  show "sorted (map timestampD (sort_key timestampD drinks'))" by simp
qed

lemma netSDAtD_Suc:
  assumes "drinks \<noteq> []"
  shows "netSDAtD drinks fb sb (Suc k) =
       (let net1 = addDrinksD (netSDAtD drinks fb sb k)
                     (drinksInIntervalD (sort_key timestampD drinks)
                        (Min (timestampD ` set drinks) + int k * 300000)
                        (Min (timestampD ` set drinks) + int k * 300000 + 300000));
            burnAmount = (if int k * 300000 < 60 * 60 * 1000
                          then dmul (ddiv fb (Finite 60)) (Finite 5)
                          else dmul (ddiv sb (Finite 60)) (Finite 5))
        in if dless (Finite 0) net1
           then (let net2 = dsub net1 burnAmount in if dless net2 (Finite 0) then Finite 0 else net2)
           else net1)"
  by (simp add: netSDAtD_unfold[OF assms] stepNetSDD_def Let_def stepMs_eq
      stepBurnFirstHourD_def stepBurnSubsequentD_def)

lemma netSDAtD_Suc_floor:
  assumes "drinks \<noteq> []"
    and "dless (Finite 0) (addDrinksD (netSDAtD drinks fb sb k)
                     (drinksInIntervalD (sort_key timestampD drinks)
                        (Min (timestampD ` set drinks) + int k * 300000)
                        (Min (timestampD ` set drinks) + int k * 300000 + 300000)))"
  shows "\<not> dless (netSDAtD drinks fb sb (Suc k)) (Finite 0)"
  using assms(2) by (simp add: netSDAtD_Suc[OF assms(1)] Let_def)

lemma netSDAtD_Suc_positive:
  assumes "drinks \<noteq> []" "k < 12" "dless (Finite 0) (netSDAtD drinks fb sb (Suc k))"
  shows "netSDAtD drinks fb sb (Suc k) =
     dsub (addDrinksD (netSDAtD drinks fb sb k)
             (drinksInIntervalD (sort_key timestampD drinks)
                (Min (timestampD ` set drinks) + int k * 300000)
                (Min (timestampD ` set drinks) + int k * 300000 + 300000)))
          (dmul (ddiv fb (Finite 60)) (Finite 5))"
proof -
  let ?net1 = "addDrinksD (netSDAtD drinks fb sb k)
             (drinksInIntervalD (sort_key timestampD drinks)
                (Min (timestampD ` set drinks) + int k * 300000)
                (Min (timestampD ` set drinks) + int k * 300000 + 300000))"
  let ?burn = "dmul (ddiv fb (Finite 60)) (Finite 5)"
  have early: "int k * 300000 < 60 * 60 * 1000" using assms(2) by simp
  have eq: "netSDAtD drinks fb sb (Suc k) =
      (if dless (Finite 0) ?net1
       then (if dless (dsub ?net1 ?burn) (Finite 0) then Finite 0 else dsub ?net1 ?burn)
       else ?net1)"
    using early by (simp add: netSDAtD_Suc[OF assms(1)] Let_def)
  show ?thesis
  proof (cases "dless (Finite 0) ?net1")
    case True
    show ?thesis
    proof (cases "dless (dsub ?net1 ?burn) (Finite 0)")
      case neg: True
      with True eq have "netSDAtD drinks fb sb (Suc k) = Finite 0" by simp
      with assms(3) show ?thesis by simp
    next
      case False
      with True eq show ?thesis by simp
    qed
  next
    case False
    with eq have "netSDAtD drinks fb sb (Suc k) = ?net1" by simp
    with assms(3) False show ?thesis by simp
  qed
qed

section \<open>Evaluations in double arithmetic\<close>

lemma ev1:
  "roundDouble 0.789 = Finite (7106680211990643 / 2 ^ 53)"
  by (subst roundDouble_eval[where e = "-1"]) (simp_all add: roundHalfEven_def Let_def)

lemma ev2:
  "roundDouble 0.68 = Finite (6124895493223875 / 2 ^ 53)"
  by (subst roundDouble_eval[where e = "-1"]) (simp_all add: roundHalfEven_def Let_def)

lemma ev3:
  "ddiv (Finite 570) (Finite 1000) = Finite (5134103575202365 / 2 ^ 53)"
  by (simp only: dsub_def dneg.simps ddiv.simps, subst roundDouble_eval[where e = "-1"]) (simp_all add: roundHalfEven_def Let_def)

lemma ev4:
  "dmul (Finite (5134103575202365 / 2 ^ 53)) (Finite 5) = Finite (1604407367250739 / 2 ^ 49)"
  by (simp only: dsub_def dneg.simps dmul.simps, subst roundDouble_eval[where e = "1"]) (simp_all add: roundHalfEven_def Let_def)

lemma ev5:
  "dmul (Finite (1604407367250739 / 2 ^ 49)) (Finite (7106680211990643 / 2 ^ 53)) = Finite (5063509651043333 / 2 ^ 51)"
  by (simp only: dsub_def dneg.simps dmul.simps, subst roundDouble_eval[where e = "1"]) (simp_all add: roundHalfEven_def Let_def)

lemma ev6:
  "ddiv (Finite 150) (Finite 1000) = Finite (5404319552844595 / 2 ^ 55)"
  by (simp only: dsub_def dneg.simps ddiv.simps, subst roundDouble_eval[where e = "-3"]) (simp_all add: roundHalfEven_def Let_def)

lemma ev7:
  "dmul (Finite (5404319552844595 / 2 ^ 55)) (Finite 12) = Finite (2026619832316723 / 2 ^ 50)"
  by (simp only: dsub_def dneg.simps dmul.simps, subst roundDouble_eval[where e = "0"]) (simp_all add: roundHalfEven_def Let_def)

lemma ev8:
  "dmul (Finite (2026619832316723 / 2 ^ 50)) (Finite (7106680211990643 / 2 ^ 53)) = Finite (3198006095395789 / 2 ^ 51)"
  by (simp only: dsub_def dneg.simps dmul.simps, subst roundDouble_eval[where e = "0"]) (simp_all add: roundHalfEven_def Let_def)

lemma ev9:
  "ddiv (Finite 30) (Finite 1000) = Finite (1080863910568919 / 2 ^ 55)"
  by (simp only: dsub_def dneg.simps ddiv.simps, subst roundDouble_eval[where e = "-6"]) (simp_all add: roundHalfEven_def Let_def)

lemma ev10:
  "dmul (Finite (1080863910568919 / 2 ^ 55)) (Finite 40) = Finite (5404319552844595 / 2 ^ 52)"
  by (simp only: dsub_def dneg.simps dmul.simps, subst roundDouble_eval[where e = "0"]) (simp_all add: roundHalfEven_def Let_def)

lemma ev11:
  "dmul (Finite (5404319552844595 / 2 ^ 52)) (Finite (7106680211990643 / 2 ^ 53)) = Finite (8528016254388771 / 2 ^ 53)"
  by (simp only: dsub_def dneg.simps dmul.simps, subst roundDouble_eval[where e = "-1"]) (simp_all add: roundHalfEven_def Let_def)

lemma ev12:
  "dadd (Finite 0) (Finite (5063509651043333 / 2 ^ 51)) = Finite (5063509651043333 / 2 ^ 51)"
  by (simp only: dsub_def dneg.simps dadd.simps, subst roundDouble_eval[where e = "1"]) (simp_all add: roundHalfEven_def Let_def)

lemma ev13:
  "dadd (Finite (5063509651043333 / 2 ^ 51)) (Finite (3198006095395789 / 2 ^ 51)) = Finite (4130757873219561 / 2 ^ 50)"
  by (simp only: dsub_def dneg.simps dadd.simps, subst roundDouble_eval[where e = "1"]) (simp_all add: roundHalfEven_def Let_def)

lemma ev14:
  "dadd (Finite (4130757873219561 / 2 ^ 50)) (Finite (8528016254388771 / 2 ^ 53)) = Finite (5196759905018157 / 2 ^ 50)"
  by (simp only: dsub_def dneg.simps dadd.simps, subst roundDouble_eval[where e = "2"]) (simp_all add: roundHalfEven_def Let_def)

lemma ev15:
  "dadd (Finite 0) (Finite (8528016254388771 / 2 ^ 53)) = Finite (8528016254388771 / 2 ^ 53)"
  by (simp only: dsub_def dneg.simps dadd.simps, subst roundDouble_eval[where e = "-1"]) (simp_all add: roundHalfEven_def Let_def)

lemma ev16:
  "dadd (Finite (8528016254388771 / 2 ^ 53)) (Finite (3198006095395789 / 2 ^ 51)) = Finite (2665005079496491 / 2 ^ 50)"
  by (simp only: dsub_def dneg.simps dadd.simps, subst roundDouble_eval[where e = "1"]) (simp_all add: roundHalfEven_def Let_def)

lemma ev17:
  "dadd (Finite (2665005079496491 / 2 ^ 50)) (Finite (5063509651043333 / 2 ^ 51)) = Finite (2598379952509079 / 2 ^ 49)"
  by (simp only: dsub_def dneg.simps dadd.simps, subst roundDouble_eval[where e = "2"]) (simp_all add: roundHalfEven_def Let_def)

lemma ev18:
  "dmul (Finite 80) (Finite (6124895493223875 / 2 ^ 53)) = Finite (1914029841632461 / 2 ^ 45)"
  by (simp only: dsub_def dneg.simps dmul.simps, subst roundDouble_eval[where e = "5"]) (simp_all add: roundHalfEven_def Let_def)

lemma ev19:
  "ddiv (Finite (5196759905018157 / 2 ^ 50)) (Finite (1914029841632461 / 2 ^ 45)) = Finite (3056917591187151 / 2 ^ 55)"
  by (simp only: dsub_def dneg.simps ddiv.simps, subst roundDouble_eval[where e = "-4"]) (simp_all add: roundHalfEven_def Let_def)

lemma ev20:
  "ddiv (Finite (2598379952509079 / 2 ^ 49)) (Finite (1914029841632461 / 2 ^ 45)) = Finite (6113835182374303 / 2 ^ 56)"
  by (simp only: dsub_def dneg.simps ddiv.simps, subst roundDouble_eval[where e = "-4"]) (simp_all add: roundHalfEven_def Let_def)

lemma ev21:
  "ddiv (Finite 2) (Finite 60) = Finite (4803839602528529 / 2 ^ 57)"
  by (simp only: dsub_def dneg.simps ddiv.simps, subst roundDouble_eval[where e = "-5"]) (simp_all add: roundHalfEven_def Let_def)

lemma ev22:
  "dmul (Finite (4803839602528529 / 2 ^ 57)) (Finite 5) = Finite (6004799503160661 / 2 ^ 55)"
  by (simp only: dsub_def dneg.simps dmul.simps, subst roundDouble_eval[where e = "-3"]) (simp_all add: roundHalfEven_def Let_def)

lemma ev23:
  "dsub (Finite (5063509651043333 / 2 ^ 51)) (Finite (6004799503160661 / 2 ^ 55)) = Finite (293013105130987 / 2 ^ 47)"
  by (simp only: dsub_def dneg.simps dadd.simps, subst roundDouble_eval[where e = "1"]) (simp_all add: roundHalfEven_def Let_def)

lemma ev24:
  "dsub (Finite (293013105130987 / 2 ^ 47)) (Finite (6004799503160661 / 2 ^ 55)) = Finite (8625819426296501 / 2 ^ 52)"
  by (simp only: dsub_def dneg.simps dadd.simps, subst roundDouble_eval[where e = "0"]) (simp_all add: roundHalfEven_def Let_def)

lemma ev25:
  "dsub (Finite (8625819426296501 / 2 ^ 52)) (Finite (6004799503160661 / 2 ^ 55)) = Finite (3937609744200709 / 2 ^ 51)"
  by (simp only: dsub_def dneg.simps dadd.simps, subst roundDouble_eval[where e = "0"]) (simp_all add: roundHalfEven_def Let_def)

lemma ev26:
  "dsub (Finite (3937609744200709 / 2 ^ 51)) (Finite (6004799503160661 / 2 ^ 55)) = Finite (7124619550506335 / 2 ^ 52)"
  by (simp only: dsub_def dneg.simps dadd.simps, subst roundDouble_eval[where e = "0"]) (simp_all add: roundHalfEven_def Let_def)

lemma ev27:
  "dsub (Finite (7124619550506335 / 2 ^ 52)) (Finite (6004799503160661 / 2 ^ 55)) = Finite (1593504903152813 / 2 ^ 50)"
  by (simp only: dsub_def dneg.simps dadd.simps, subst roundDouble_eval[where e = "0"]) (simp_all add: roundHalfEven_def Let_def)

lemma ev28:
  "dsub (Finite (1593504903152813 / 2 ^ 50)) (Finite (6004799503160661 / 2 ^ 55)) = Finite (5623419674716169 / 2 ^ 52)"
  by (simp only: dsub_def dneg.simps dadd.simps, subst roundDouble_eval[where e = "0"]) (simp_all add: roundHalfEven_def Let_def)

lemma ev29:
  "dsub (Finite (5623419674716169 / 2 ^ 52)) (Finite (6004799503160661 / 2 ^ 55)) = Finite (2436409868410543 / 2 ^ 51)"
  by (simp only: dsub_def dneg.simps dadd.simps, subst roundDouble_eval[where e = "0"]) (simp_all add: roundHalfEven_def Let_def)

lemma ev30:
  "dsub (Finite (2436409868410543 / 2 ^ 51)) (Finite (6004799503160661 / 2 ^ 55)) = Finite (8244439597852007 / 2 ^ 53)"
  by (simp only: dsub_def dneg.simps dadd.simps, subst roundDouble_eval[where e = "-1"]) (simp_all add: roundHalfEven_def Let_def)

lemma ev31:
  "dsub (Finite (8244439597852007 / 2 ^ 53)) (Finite (6004799503160661 / 2 ^ 55)) = Finite (3371619861030921 / 2 ^ 52)"
  by (simp only: dsub_def dneg.simps dadd.simps, subst roundDouble_eval[where e = "-1"]) (simp_all add: roundHalfEven_def Let_def)

lemma ev32:
  "dsub (Finite (3371619861030921 / 2 ^ 52)) (Finite (6004799503160661 / 2 ^ 55)) = Finite (5242039846271677 / 2 ^ 53)"
  by (simp only: dsub_def dneg.simps dadd.simps, subst roundDouble_eval[where e = "-1"]) (simp_all add: roundHalfEven_def Let_def)

lemma ev33:
  "dsub (Finite (5242039846271677 / 2 ^ 53)) (Finite (6004799503160661 / 2 ^ 55)) = Finite (467604996310189 / 2 ^ 50)"
  by (simp only: dsub_def dneg.simps dadd.simps, subst roundDouble_eval[where e = "-2"]) (simp_all add: roundHalfEven_def Let_def)

lemma ev34:
  "dsub (Finite (467604996310189 / 2 ^ 50)) (Finite (6004799503160661 / 2 ^ 55)) = Finite (8958560378765387 / 2 ^ 55)"
  by (simp only: dsub_def dneg.simps dadd.simps, subst roundDouble_eval[where e = "-3"]) (simp_all add: roundHalfEven_def Let_def)

lemma ev35:
  "dsub (Finite (5063509651043333 / 2 ^ 51)) (Finite 2) = Finite (559910023672837 / 2 ^ 51)"
  by (simp only: dsub_def dneg.simps dadd.simps, subst roundDouble_eval[where e = "-3"]) (simp_all add: roundHalfEven_def Let_def)




lemmas double_evals = ev1 ev2 ev3 ev4 ev5 ev6 ev7 ev8 ev9 ev10 ev11 ev12 ev13 ev14 ev15 ev16 ev17 ev18 ev19 ev20 ev21 ev22 ev23 ev24 ev25 ev26 ev27 ev28 ev29 ev30 ev31 ev32 ev33 ev34 ev35

lemma csd_beer: "calculateStandardDrinksD (Finite 570) (Finite 5) = Finite (5063509651043333 / 2 ^ 51)"
  unfolding calculateStandardDrinksD_def double_evals ..

lemma csd_wine: "calculateStandardDrinksD (Finite 150) (Finite 12) = Finite (3198006095395789 / 2 ^ 51)"
  unfolding calculateStandardDrinksD_def double_evals ..

lemma csd_shot: "calculateStandardDrinksD (Finite 30) (Finite 40) = Finite (8528016254388771 / 2 ^ 53)"
  unfolding calculateStandardDrinksD_def double_evals ..

lemma first_bacD:
  assumes "drinks \<noteq> []"
  shows "bacD (hd (pointsD f drinks fb sb w g)) =
     toBACD w g (addDrinksD (Finite 0)
       (initialDrinksD (sort_key timestampD drinks) (Min (timestampD ` set drinks))))"
  by (simp add: pointsD_unfold[OF assms])

lemma toBACD_80_male:
  "toBACD (Finite 80) male x = ddiv x (Finite (1914029841632461 / 2 ^ 45))"
proof -
  have "dmul (Finite 80) (widmarkD male) = Finite (1914029841632461 / 2 ^ 45)"
    unfolding widmarkD_def by (simp only: simp_thms if_True double_evals)
  then show ?thesis by (simp add: toBACD_def)
qed

lemma sum_beer_wine_shot:
  "addDrinksD (Finite 0) [\<lparr>idD = ''1'', nameD = ''beer'', volumeMlD = Finite 570, abvD = Finite 5,
        standardDrinksD = calculateStandardDrinksD (Finite 570) (Finite 5), timestampD = 1000\<rparr>,
      \<lparr>idD = ''2'', nameD = ''wine'', volumeMlD = Finite 150, abvD = Finite 12,
        standardDrinksD = calculateStandardDrinksD (Finite 150) (Finite 12), timestampD = 1000\<rparr>,
      \<lparr>idD = ''3'', nameD = ''shot'', volumeMlD = Finite 30, abvD = Finite 40,
        standardDrinksD = calculateStandardDrinksD (Finite 30) (Finite 40), timestampD = 1000\<rparr>] = Finite (5196759905018157 / 2 ^ 50)"
  by (simp only: addDrinksD_def foldl.simps DrinkD.select_convs csd_beer csd_wine csd_shot double_evals)

lemma sum_shot_wine_beer:
  "addDrinksD (Finite 0) [\<lparr>idD = ''3'', nameD = ''shot'', volumeMlD = Finite 30, abvD = Finite 40,
        standardDrinksD = calculateStandardDrinksD (Finite 30) (Finite 40), timestampD = 1000\<rparr>,
      \<lparr>idD = ''2'', nameD = ''wine'', volumeMlD = Finite 150, abvD = Finite 12,
        standardDrinksD = calculateStandardDrinksD (Finite 150) (Finite 12), timestampD = 1000\<rparr>,
      \<lparr>idD = ''1'', nameD = ''beer'', volumeMlD = Finite 570, abvD = Finite 5,
        standardDrinksD = calculateStandardDrinksD (Finite 570) (Finite 5), timestampD = 1000\<rparr>] = Finite (2598379952509079 / 2 ^ 49)"
  by (simp only: addDrinksD_def foldl.simps DrinkD.select_convs csd_beer csd_wine csd_shot double_evals)

lemma first_hour_trace:
  "netSDAtD [\<lparr>idD = ''1'', nameD = ''beer'', volumeMlD = Finite 570, abvD = Finite 5,
        standardDrinksD = calculateStandardDrinksD (Finite 570) (Finite 5), timestampD = 1000\<rparr>] (Finite 2) (Finite 1) 0 = Finite (5063509651043333 / 2 ^ 51) \<and>
   dless (Finite 0) (netSDAtD [\<lparr>idD = ''1'', nameD = ''beer'', volumeMlD = Finite 570, abvD = Finite 5,
        standardDrinksD = calculateStandardDrinksD (Finite 570) (Finite 5), timestampD = 1000\<rparr>] (Finite 2) (Finite 1) 1) \<and>
   dless (Finite 0) (netSDAtD [\<lparr>idD = ''1'', nameD = ''beer'', volumeMlD = Finite 570, abvD = Finite 5,
        standardDrinksD = calculateStandardDrinksD (Finite 570) (Finite 5), timestampD = 1000\<rparr>] (Finite 2) (Finite 1) 2) \<and>
   dless (Finite 0) (netSDAtD [\<lparr>idD = ''1'', nameD = ''beer'', volumeMlD = Finite 570, abvD = Finite 5,
        standardDrinksD = calculateStandardDrinksD (Finite 570) (Finite 5), timestampD = 1000\<rparr>] (Finite 2) (Finite 1) 3) \<and>
   dless (Finite 0) (netSDAtD [\<lparr>idD = ''1'', nameD = ''beer'', volumeMlD = Finite 570, abvD = Finite 5,
        standardDrinksD = calculateStandardDrinksD (Finite 570) (Finite 5), timestampD = 1000\<rparr>] (Finite 2) (Finite 1) 4) \<and>
   dless (Finite 0) (netSDAtD [\<lparr>idD = ''1'', nameD = ''beer'', volumeMlD = Finite 570, abvD = Finite 5,
        standardDrinksD = calculateStandardDrinksD (Finite 570) (Finite 5), timestampD = 1000\<rparr>] (Finite 2) (Finite 1) 5) \<and>
   dless (Finite 0) (netSDAtD [\<lparr>idD = ''1'', nameD = ''beer'', volumeMlD = Finite 570, abvD = Finite 5,
        standardDrinksD = calculateStandardDrinksD (Finite 570) (Finite 5), timestampD = 1000\<rparr>] (Finite 2) (Finite 1) 6) \<and>
   dless (Finite 0) (netSDAtD [\<lparr>idD = ''1'', nameD = ''beer'', volumeMlD = Finite 570, abvD = Finite 5,
        standardDrinksD = calculateStandardDrinksD (Finite 570) (Finite 5), timestampD = 1000\<rparr>] (Finite 2) (Finite 1) 7) \<and>
   dless (Finite 0) (netSDAtD [\<lparr>idD = ''1'', nameD = ''beer'', volumeMlD = Finite 570, abvD = Finite 5,
        standardDrinksD = calculateStandardDrinksD (Finite 570) (Finite 5), timestampD = 1000\<rparr>] (Finite 2) (Finite 1) 8) \<and>
   dless (Finite 0) (netSDAtD [\<lparr>idD = ''1'', nameD = ''beer'', volumeMlD = Finite 570, abvD = Finite 5,
        standardDrinksD = calculateStandardDrinksD (Finite 570) (Finite 5), timestampD = 1000\<rparr>] (Finite 2) (Finite 1) 9) \<and>
   dless (Finite 0) (netSDAtD [\<lparr>idD = ''1'', nameD = ''beer'', volumeMlD = Finite 570, abvD = Finite 5,
        standardDrinksD = calculateStandardDrinksD (Finite 570) (Finite 5), timestampD = 1000\<rparr>] (Finite 2) (Finite 1) 10) \<and>
   dless (Finite 0) (netSDAtD [\<lparr>idD = ''1'', nameD = ''beer'', volumeMlD = Finite 570, abvD = Finite 5,
        standardDrinksD = calculateStandardDrinksD (Finite 570) (Finite 5), timestampD = 1000\<rparr>] (Finite 2) (Finite 1) 11) \<and>
   dless (Finite 0) (netSDAtD [\<lparr>idD = ''1'', nameD = ''beer'', volumeMlD = Finite 570, abvD = Finite 5,
        standardDrinksD = calculateStandardDrinksD (Finite 570) (Finite 5), timestampD = 1000\<rparr>] (Finite 2) (Finite 1) 12) \<and>
   netSDAtD [\<lparr>idD = ''1'', nameD = ''beer'', volumeMlD = Finite 570, abvD = Finite 5,
        standardDrinksD = calculateStandardDrinksD (Finite 570) (Finite 5), timestampD = 1000\<rparr>] (Finite 2) (Finite 1) 12 = Finite (8958560378765387 / 2 ^ 55)"
proof -
  have ne: "[\<lparr>idD = ''1'', nameD = ''beer'', volumeMlD = Finite 570, abvD = Finite 5,
        standardDrinksD = calculateStandardDrinksD (Finite 570) (Finite 5), timestampD = 1000\<rparr>] \<noteq> []" by simp
  have burn: "dmul (ddiv (Finite 2) (Finite 60)) (Finite 5) = Finite (6004799503160661 / 2 ^ 55)"
    by (simp only: double_evals)
  have empty: "drinksInIntervalD (sort_key timestampD [\<lparr>idD = ''1'', nameD = ''beer'', volumeMlD = Finite 570, abvD = Finite 5,
        standardDrinksD = calculateStandardDrinksD (Finite 570) (Finite 5), timestampD = 1000\<rparr>])
      (Min (timestampD ` set [\<lparr>idD = ''1'', nameD = ''beer'', volumeMlD = Finite 570, abvD = Finite 5,
        standardDrinksD = calculateStandardDrinksD (Finite 570) (Finite 5), timestampD = 1000\<rparr>]) + int k * 300000)
      (Min (timestampD ` set [\<lparr>idD = ''1'', nameD = ''beer'', volumeMlD = Finite 570, abvD = Finite 5,
        standardDrinksD = calculateStandardDrinksD (Finite 570) (Finite 5), timestampD = 1000\<rparr>]) + int k * 300000 + 300000) = []" for k
    by (simp add: drinksInIntervalD_def)
  have step: "netSDAtD [\<lparr>idD = ''1'', nameD = ''beer'', volumeMlD = Finite 570, abvD = Finite 5,
        standardDrinksD = calculateStandardDrinksD (Finite 570) (Finite 5), timestampD = 1000\<rparr>] (Finite 2) (Finite 1) (Suc k) =
        (let net2 = dsub (Finite x) (Finite (6004799503160661 / 2 ^ 55))
         in if dless net2 (Finite 0) then Finite 0 else net2)"
    if "k < 12" "netSDAtD [\<lparr>idD = ''1'', nameD = ''beer'', volumeMlD = Finite 570, abvD = Finite 5,
        standardDrinksD = calculateStandardDrinksD (Finite 570) (Finite 5), timestampD = 1000\<rparr>] (Finite 2) (Finite 1) k = Finite x" "0 < x" for k x
  proof -
    have early: "int k * 300000 < 60 * 60 * 1000" using that(1) by simp
    show ?thesis
      unfolding netSDAtD_Suc[OF ne] empty that(2) burn
      using early that(3) by (simp add: addDrinksD_def)
  qed
  have "netSDAtD [\<lparr>idD = ''1'', nameD = ''beer'', volumeMlD = Finite 570, abvD = Finite 5,
        standardDrinksD = calculateStandardDrinksD (Finite 570) (Finite 5), timestampD = 1000\<rparr>] (Finite 2) (Finite 1) 0 = addDrinksD (Finite 0) [\<lparr>idD = ''1'', nameD = ''beer'', volumeMlD = Finite 570, abvD = Finite 5,
        standardDrinksD = calculateStandardDrinksD (Finite 570) (Finite 5), timestampD = 1000\<rparr>]"
    by (simp add: netSDAtD_unfold[OF ne] initialDrinksD_def)
  also have "\<dots> = Finite (5063509651043333 / 2 ^ 51)"
    by (simp only: addDrinksD_def foldl.simps DrinkD.select_convs csd_beer double_evals)
  finally have t0: "netSDAtD [\<lparr>idD = ''1'', nameD = ''beer'', volumeMlD = Finite 570, abvD = Finite 5,
        standardDrinksD = calculateStandardDrinksD (Finite 570) (Finite 5), timestampD = 1000\<rparr>] (Finite 2) (Finite 1) 0 = Finite (5063509651043333 / 2 ^ 51)" .
  note trace_evals = double_evals
  have t1: "netSDAtD [\<lparr>idD = ''1'', nameD = ''beer'', volumeMlD = Finite 570, abvD = Finite 5,
        standardDrinksD = calculateStandardDrinksD (Finite 570) (Finite 5), timestampD = 1000\<rparr>] (Finite 2) (Finite 1) (Suc 0) = Finite (293013105130987 / 2 ^ 47)"
  proof -
    have "netSDAtD [\<lparr>idD = ''1'', nameD = ''beer'', volumeMlD = Finite 570, abvD = Finite 5,
        standardDrinksD = calculateStandardDrinksD (Finite 570) (Finite 5), timestampD = 1000\<rparr>] (Finite 2) (Finite 1) (Suc 0) =
        (let net2 = dsub (Finite (5063509651043333 / 2 ^ 51)) (Finite (6004799503160661 / 2 ^ 55))
         in if dless net2 (Finite 0) then Finite 0 else net2)"
      by (rule step[OF _ t0]) simp_all
    then show ?thesis unfolding trace_evals Let_def by simp
  qed
  have t2: "netSDAtD [\<lparr>idD = ''1'', nameD = ''beer'', volumeMlD = Finite 570, abvD = Finite 5,
        standardDrinksD = calculateStandardDrinksD (Finite 570) (Finite 5), timestampD = 1000\<rparr>] (Finite 2) (Finite 1) (Suc (Suc 0)) = Finite (8625819426296501 / 2 ^ 52)"
  proof -
    have "netSDAtD [\<lparr>idD = ''1'', nameD = ''beer'', volumeMlD = Finite 570, abvD = Finite 5,
        standardDrinksD = calculateStandardDrinksD (Finite 570) (Finite 5), timestampD = 1000\<rparr>] (Finite 2) (Finite 1) (Suc (Suc 0)) =
        (let net2 = dsub (Finite (293013105130987 / 2 ^ 47)) (Finite (6004799503160661 / 2 ^ 55))
         in if dless net2 (Finite 0) then Finite 0 else net2)"
      by (rule step[OF _ t1]) simp_all
    then show ?thesis unfolding trace_evals Let_def by simp
  qed
  have t3: "netSDAtD [\<lparr>idD = ''1'', nameD = ''beer'', volumeMlD = Finite 570, abvD = Finite 5,
        standardDrinksD = calculateStandardDrinksD (Finite 570) (Finite 5), timestampD = 1000\<rparr>] (Finite 2) (Finite 1) (Suc (Suc (Suc 0))) = Finite (3937609744200709 / 2 ^ 51)"
  proof -
    have "netSDAtD [\<lparr>idD = ''1'', nameD = ''beer'', volumeMlD = Finite 570, abvD = Finite 5,
        standardDrinksD = calculateStandardDrinksD (Finite 570) (Finite 5), timestampD = 1000\<rparr>] (Finite 2) (Finite 1) (Suc (Suc (Suc 0))) =
        (let net2 = dsub (Finite (8625819426296501 / 2 ^ 52)) (Finite (6004799503160661 / 2 ^ 55))
         in if dless net2 (Finite 0) then Finite 0 else net2)"
      by (rule step[OF _ t2]) simp_all
    then show ?thesis unfolding trace_evals Let_def by simp
  qed
  have t4: "netSDAtD [\<lparr>idD = ''1'', nameD = ''beer'', volumeMlD = Finite 570, abvD = Finite 5,
        standardDrinksD = calculateStandardDrinksD (Finite 570) (Finite 5), timestampD = 1000\<rparr>] (Finite 2) (Finite 1) (Suc (Suc (Suc (Suc 0)))) = Finite (7124619550506335 / 2 ^ 52)"
  proof -
    have "netSDAtD [\<lparr>idD = ''1'', nameD = ''beer'', volumeMlD = Finite 570, abvD = Finite 5,
        standardDrinksD = calculateStandardDrinksD (Finite 570) (Finite 5), timestampD = 1000\<rparr>] (Finite 2) (Finite 1) (Suc (Suc (Suc (Suc 0)))) =
        (let net2 = dsub (Finite (3937609744200709 / 2 ^ 51)) (Finite (6004799503160661 / 2 ^ 55))
         in if dless net2 (Finite 0) then Finite 0 else net2)"
      by (rule step[OF _ t3]) simp_all
    then show ?thesis unfolding trace_evals Let_def by simp
  qed
  have t5: "netSDAtD [\<lparr>idD = ''1'', nameD = ''beer'', volumeMlD = Finite 570, abvD = Finite 5,
        standardDrinksD = calculateStandardDrinksD (Finite 570) (Finite 5), timestampD = 1000\<rparr>] (Finite 2) (Finite 1) (Suc (Suc (Suc (Suc (Suc 0))))) = Finite (1593504903152813 / 2 ^ 50)"
  proof -
    have "netSDAtD [\<lparr>idD = ''1'', nameD = ''beer'', volumeMlD = Finite 570, abvD = Finite 5,
        standardDrinksD = calculateStandardDrinksD (Finite 570) (Finite 5), timestampD = 1000\<rparr>] (Finite 2) (Finite 1) (Suc (Suc (Suc (Suc (Suc 0))))) =
        (let net2 = dsub (Finite (7124619550506335 / 2 ^ 52)) (Finite (6004799503160661 / 2 ^ 55))
         in if dless net2 (Finite 0) then Finite 0 else net2)"
      by (rule step[OF _ t4]) simp_all
    then show ?thesis unfolding trace_evals Let_def by simp
  qed
  have t6: "netSDAtD [\<lparr>idD = ''1'', nameD = ''beer'', volumeMlD = Finite 570, abvD = Finite 5,
        standardDrinksD = calculateStandardDrinksD (Finite 570) (Finite 5), timestampD = 1000\<rparr>] (Finite 2) (Finite 1) (Suc (Suc (Suc (Suc (Suc (Suc 0)))))) = Finite (5623419674716169 / 2 ^ 52)"
  proof -
    have "netSDAtD [\<lparr>idD = ''1'', nameD = ''beer'', volumeMlD = Finite 570, abvD = Finite 5,
        standardDrinksD = calculateStandardDrinksD (Finite 570) (Finite 5), timestampD = 1000\<rparr>] (Finite 2) (Finite 1) (Suc (Suc (Suc (Suc (Suc (Suc 0)))))) =
        (let net2 = dsub (Finite (1593504903152813 / 2 ^ 50)) (Finite (6004799503160661 / 2 ^ 55))
         in if dless net2 (Finite 0) then Finite 0 else net2)"
      by (rule step[OF _ t5]) simp_all
    then show ?thesis unfolding trace_evals Let_def by simp
  qed
  have t7: "netSDAtD [\<lparr>idD = ''1'', nameD = ''beer'', volumeMlD = Finite 570, abvD = Finite 5,
        standardDrinksD = calculateStandardDrinksD (Finite 570) (Finite 5), timestampD = 1000\<rparr>] (Finite 2) (Finite 1) (Suc (Suc (Suc (Suc (Suc (Suc (Suc 0))))))) = Finite (2436409868410543 / 2 ^ 51)"
  proof -
    have "netSDAtD [\<lparr>idD = ''1'', nameD = ''beer'', volumeMlD = Finite 570, abvD = Finite 5,
        standardDrinksD = calculateStandardDrinksD (Finite 570) (Finite 5), timestampD = 1000\<rparr>] (Finite 2) (Finite 1) (Suc (Suc (Suc (Suc (Suc (Suc (Suc 0))))))) =
        (let net2 = dsub (Finite (5623419674716169 / 2 ^ 52)) (Finite (6004799503160661 / 2 ^ 55))
         in if dless net2 (Finite 0) then Finite 0 else net2)"
      by (rule step[OF _ t6]) simp_all
    then show ?thesis unfolding trace_evals Let_def by simp
  qed
  have t8: "netSDAtD [\<lparr>idD = ''1'', nameD = ''beer'', volumeMlD = Finite 570, abvD = Finite 5,
        standardDrinksD = calculateStandardDrinksD (Finite 570) (Finite 5), timestampD = 1000\<rparr>] (Finite 2) (Finite 1) (Suc (Suc (Suc (Suc (Suc (Suc (Suc (Suc 0)))))))) = Finite (8244439597852007 / 2 ^ 53)"
  proof -
    have "netSDAtD [\<lparr>idD = ''1'', nameD = ''beer'', volumeMlD = Finite 570, abvD = Finite 5,
        standardDrinksD = calculateStandardDrinksD (Finite 570) (Finite 5), timestampD = 1000\<rparr>] (Finite 2) (Finite 1) (Suc (Suc (Suc (Suc (Suc (Suc (Suc (Suc 0)))))))) =
        (let net2 = dsub (Finite (2436409868410543 / 2 ^ 51)) (Finite (6004799503160661 / 2 ^ 55))
         in if dless net2 (Finite 0) then Finite 0 else net2)"
      by (rule step[OF _ t7]) simp_all
    then show ?thesis unfolding trace_evals Let_def by simp
  qed
  have t9: "netSDAtD [\<lparr>idD = ''1'', nameD = ''beer'', volumeMlD = Finite 570, abvD = Finite 5,
        standardDrinksD = calculateStandardDrinksD (Finite 570) (Finite 5), timestampD = 1000\<rparr>] (Finite 2) (Finite 1) (Suc (Suc (Suc (Suc (Suc (Suc (Suc (Suc (Suc 0))))))))) = Finite (3371619861030921 / 2 ^ 52)"
  proof -
    have "netSDAtD [\<lparr>idD = ''1'', nameD = ''beer'', volumeMlD = Finite 570, abvD = Finite 5,
        standardDrinksD = calculateStandardDrinksD (Finite 570) (Finite 5), timestampD = 1000\<rparr>] (Finite 2) (Finite 1) (Suc (Suc (Suc (Suc (Suc (Suc (Suc (Suc (Suc 0))))))))) =
        (let net2 = dsub (Finite (8244439597852007 / 2 ^ 53)) (Finite (6004799503160661 / 2 ^ 55))
         in if dless net2 (Finite 0) then Finite 0 else net2)"
      by (rule step[OF _ t8]) simp_all
    then show ?thesis unfolding trace_evals Let_def by simp
  qed
  have t10: "netSDAtD [\<lparr>idD = ''1'', nameD = ''beer'', volumeMlD = Finite 570, abvD = Finite 5,
        standardDrinksD = calculateStandardDrinksD (Finite 570) (Finite 5), timestampD = 1000\<rparr>] (Finite 2) (Finite 1) (Suc (Suc (Suc (Suc (Suc (Suc (Suc (Suc (Suc (Suc 0)))))))))) = Finite (5242039846271677 / 2 ^ 53)"
  proof -
    have "netSDAtD [\<lparr>idD = ''1'', nameD = ''beer'', volumeMlD = Finite 570, abvD = Finite 5,
        standardDrinksD = calculateStandardDrinksD (Finite 570) (Finite 5), timestampD = 1000\<rparr>] (Finite 2) (Finite 1) (Suc (Suc (Suc (Suc (Suc (Suc (Suc (Suc (Suc (Suc 0)))))))))) =
        (let net2 = dsub (Finite (3371619861030921 / 2 ^ 52)) (Finite (6004799503160661 / 2 ^ 55))
         in if dless net2 (Finite 0) then Finite 0 else net2)"
      by (rule step[OF _ t9]) simp_all
    then show ?thesis unfolding trace_evals Let_def by simp
  qed
  have t11: "netSDAtD [\<lparr>idD = ''1'', nameD = ''beer'', volumeMlD = Finite 570, abvD = Finite 5,
        standardDrinksD = calculateStandardDrinksD (Finite 570) (Finite 5), timestampD = 1000\<rparr>] (Finite 2) (Finite 1) (Suc (Suc (Suc (Suc (Suc (Suc (Suc (Suc (Suc (Suc (Suc 0))))))))))) = Finite (467604996310189 / 2 ^ 50)"
  proof -
    have "netSDAtD [\<lparr>idD = ''1'', nameD = ''beer'', volumeMlD = Finite 570, abvD = Finite 5,
        standardDrinksD = calculateStandardDrinksD (Finite 570) (Finite 5), timestampD = 1000\<rparr>] (Finite 2) (Finite 1) (Suc (Suc (Suc (Suc (Suc (Suc (Suc (Suc (Suc (Suc (Suc 0))))))))))) =
        (let net2 = dsub (Finite (5242039846271677 / 2 ^ 53)) (Finite (6004799503160661 / 2 ^ 55))
         in if dless net2 (Finite 0) then Finite 0 else net2)"
      by (rule step[OF _ t10]) simp_all
    then show ?thesis unfolding trace_evals Let_def by simp
  qed
  have t12: "netSDAtD [\<lparr>idD = ''1'', nameD = ''beer'', volumeMlD = Finite 570, abvD = Finite 5,
        standardDrinksD = calculateStandardDrinksD (Finite 570) (Finite 5), timestampD = 1000\<rparr>] (Finite 2) (Finite 1) (Suc (Suc (Suc (Suc (Suc (Suc (Suc (Suc (Suc (Suc (Suc (Suc 0)))))))))))) = Finite (8958560378765387 / 2 ^ 55)"
  proof -
    have "netSDAtD [\<lparr>idD = ''1'', nameD = ''beer'', volumeMlD = Finite 570, abvD = Finite 5,
        standardDrinksD = calculateStandardDrinksD (Finite 570) (Finite 5), timestampD = 1000\<rparr>] (Finite 2) (Finite 1) (Suc (Suc (Suc (Suc (Suc (Suc (Suc (Suc (Suc (Suc (Suc (Suc 0)))))))))))) =
        (let net2 = dsub (Finite (467604996310189 / 2 ^ 50)) (Finite (6004799503160661 / 2 ^ 55))
         in if dless net2 (Finite 0) then Finite 0 else net2)"
      by (rule step[OF _ t11]) simp_all
    then show ?thesis unfolding trace_evals Let_def by simp
  qed

  note ts = t0 t1 t2 t3 t4 t5 t6 t7 t8 t9 t10 t11 t12
  show ?thesis
    by (simp add: eval_nat_numeral ts)
qed

section \<open>Finite parameters: the BAC is a number that is not negative, or infinity\<close>
























lemmas eval_defs =
  points_def Let_def initialDrinks_def addDrinks_def toBAC_def widmark_def stepNetSD_def
  drinksInInterval_def stepMs_def maxSteps_def stepBurnFirstHour_def stepBurnSubsequent_def
  whileLoop.simps

section \<open>The claims\<close>

text \<open>
  C1 fails on the code. The initial sum takes every drink less than one second from the
  earliest timestamp, and the first step interval takes every drink strictly after it:
  a drink within the first second after the earliest one is in both, and its units are
  added twice. Here two beers of 2.24865 units each, at 0 and at 500 ms, and burn rates
  of 60 units per hour (5 units per step): the first sample has both beers, 4.4973
  units, and the first step should floor them at zero; instead it adds the second beer
  again and leaves 1.74595 units.
\<close>

theorem drink_in_first_second_counted_twice:
  "initialDrinks [\<lparr>id = ''1'', name = ''beer'', volumeMl = 570, abv = 5,
        standardDrinks = 2.24865, timestamp = 0\<rparr>,
      \<lparr>id = ''2'', name = ''beer'', volumeMl = 570, abv = 5,
        standardDrinks = 2.24865, timestamp = 500\<rparr>] 0
     = [\<lparr>id = ''1'', name = ''beer'', volumeMl = 570, abv = 5,
        standardDrinks = 2.24865, timestamp = 0\<rparr>,
      \<lparr>id = ''2'', name = ''beer'', volumeMl = 570, abv = 5,
        standardDrinks = 2.24865, timestamp = 500\<rparr>] \<and>
   drinksInInterval [\<lparr>id = ''1'', name = ''beer'', volumeMl = 570, abv = 5,
        standardDrinks = 2.24865, timestamp = 0\<rparr>,
      \<lparr>id = ''2'', name = ''beer'', volumeMl = 570, abv = 5,
        standardDrinks = 2.24865, timestamp = 500\<rparr>] 0 300000
     = [\<lparr>id = ''2'', name = ''beer'', volumeMl = 570, abv = 5,
        standardDrinks = 2.24865, timestamp = 500\<rparr>] \<and>
   points (\<lambda>t. ''12:00'') [\<lparr>id = ''1'', name = ''beer'', volumeMl = 570, abv = 5,
        standardDrinks = 2.24865, timestamp = 0\<rparr>,
      \<lparr>id = ''2'', name = ''beer'', volumeMl = 570, abv = 5,
        standardDrinks = 2.24865, timestamp = 500\<rparr>] 60 60 100 male
   = [\<lparr>time = 0, bac = 4.4973 / 68, label = ''12:00''\<rparr>,
      \<lparr>time = 300000, bac = 1.74595 / 68, label = ''12:00''\<rparr>,
      \<lparr>time = 600000, bac = 0, label = ''12:00''\<rparr>]"
  by (simp add: eval_defs)

text \<open>
  C2. For every non-empty list of samples, the peak index that \<open>soberTimeInfo\<close> computes
  is the first index with the maximal BAC. When the peak BAC is below 0.05 the result
  has status \<open>under\<close> and no time. Otherwise the status is \<open>over\<close>; the time and label are
  those of the first sample at or after the peak index with a BAC of at most 0.05, and
  the object has no \<open>projected\<close> key (it reads as not projected); when there is no such
  sample they are those of the last sample, with \<open>projected\<close> true.
\<close>

theorem soberTimeInfo_peak_and_crossing:
  assumes "pts \<noteq> []"
  shows "peakLoop pts 1 0 < length pts \<and>
    (\<forall>j<length pts. bac (pts ! j) \<le> bac (pts ! peakLoop pts 1 0)) \<and>
    (\<forall>j<peakLoop pts 1 0. bac (pts ! j) < bac (pts ! peakLoop pts 1 0)) \<and>
    (bac (pts ! peakLoop pts 1 0) < 0.05 \<longrightarrow>
       soberTimeInfo pts =
         Some \<lparr>status = under, peak = bac (pts ! peakLoop pts 1 0), soberTime = None,
               soberLabel = None, projected = None\<rparr>) \<and>
    (0.05 \<le> bac (pts ! peakLoop pts 1 0) \<longrightarrow>
       (\<forall>i. peakLoop pts 1 0 \<le> i \<and> i < length pts \<and> bac (pts ! i) \<le> 0.05 \<and>
            (\<forall>j. peakLoop pts 1 0 \<le> j \<and> j < i \<longrightarrow> 0.05 < bac (pts ! j)) \<longrightarrow>
          soberTimeInfo pts =
            Some \<lparr>status = over, peak = bac (pts ! peakLoop pts 1 0),
                  soberTime = Some (time (pts ! i)), soberLabel = Some (label (pts ! i)),
                  projected = None\<rparr>) \<and>
       ((\<forall>i. peakLoop pts 1 0 \<le> i \<and> i < length pts \<longrightarrow> 0.05 < bac (pts ! i)) \<longrightarrow>
          soberTimeInfo pts =
            Some \<lparr>status = over, peak = bac (pts ! peakLoop pts 1 0),
                  soberTime = Some (time (last pts)), soberLabel = Some (label (last pts)),
                  projected = Some True\<rparr>))"
proof -
  let ?k = "peakLoop pts 1 0"
  note pk = peakLoop_start[OF assms]
  have under: "soberTimeInfo pts =
         Some \<lparr>status = under, peak = bac (pts ! ?k), soberTime = None,
               soberLabel = None, projected = None\<rparr>" if "bac (pts ! ?k) < 0.05"
    using that assms by (simp add: soberTimeInfo_def Let_def)
  have cross: "soberTimeInfo pts =
            Some \<lparr>status = over, peak = bac (pts ! ?k),
                  soberTime = Some (time (pts ! i)), soberLabel = Some (label (pts ! i)),
                  projected = None\<rparr>"
    if over: "0.05 \<le> bac (pts ! ?k)"
      and i: "?k \<le> i \<and> i < length pts \<and> bac (pts ! i) \<le> 0.05 \<and>
            (\<forall>j. ?k \<le> j \<and> j < i \<longrightarrow> 0.05 < bac (pts ! j))" for i
  proof (cases "crossLoop pts ?k")
    case None
    from crossLoop_None[OF None] i have "0.05 < bac (pts ! i)" by blast
    with i show ?thesis by simp
  next
    case (Some c)
    note cs = crossLoop_Some[OF Some]
    have "c = i"
    proof (rule ccontr)
      assume "c \<noteq> i"
      then consider "c < i" | "i < c" by linarith
      then show False
      proof cases
        case 1
        with cs i have "0.05 < bac (pts ! c)" by blast
        with cs show False by simp
      next
        case 2
        with cs i have "0.05 < bac (pts ! i)" by blast
        with i show False by simp
      qed
    qed
    with Some over assms show ?thesis by (simp add: soberTimeInfo_def Let_def)
  qed
  have proj: "soberTimeInfo pts =
            Some \<lparr>status = over, peak = bac (pts ! ?k),
                  soberTime = Some (time (last pts)), soberLabel = Some (label (last pts)),
                  projected = Some True\<rparr>"
    if over: "0.05 \<le> bac (pts ! ?k)"
      and none: "\<forall>i. ?k \<le> i \<and> i < length pts \<longrightarrow> 0.05 < bac (pts ! i)"
  proof (cases "crossLoop pts ?k")
    case None
    with over assms show ?thesis by (simp add: soberTimeInfo_def Let_def last_conv_nth)
  next
    case (Some c)
    from crossLoop_Some[OF Some] none have False by force
    then show ?thesis ..
  qed
  from pk under cross proj show ?thesis by blast
qed

theorem soberTimeInfo_peak_and_crossing_witness:
  "[\<lparr>time = 0, bac = 0.02, label = ''12:00''\<rparr>,
      \<lparr>time = 300000, bac = 0.08, label = ''12:05''\<rparr>,
      \<lparr>time = 600000, bac = 0.08, label = ''12:10''\<rparr>,
      \<lparr>time = 900000, bac = 0.04, label = ''12:15''\<rparr>] \<noteq> [] \<and>
   peakLoop [\<lparr>time = 0, bac = 0.02, label = ''12:00''\<rparr>,
      \<lparr>time = 300000, bac = 0.08, label = ''12:05''\<rparr>,
      \<lparr>time = 600000, bac = 0.08, label = ''12:10''\<rparr>,
      \<lparr>time = 900000, bac = 0.04, label = ''12:15''\<rparr>] 1 0 = 1 \<and>
   soberTimeInfo [\<lparr>time = 0, bac = 0.02, label = ''12:00''\<rparr>,
      \<lparr>time = 300000, bac = 0.08, label = ''12:05''\<rparr>,
      \<lparr>time = 600000, bac = 0.08, label = ''12:10''\<rparr>,
      \<lparr>time = 900000, bac = 0.04, label = ''12:15''\<rparr>] =
     Some \<lparr>status = over, peak = 0.08, soberTime = Some 900000, soberLabel = Some ''12:15'',
           projected = None\<rparr>"
proof -
  have ne: "[\<lparr>time = 0, bac = 0.02, label = ''12:00''\<rparr>,
      \<lparr>time = 300000, bac = 0.08, label = ''12:05''\<rparr>,
      \<lparr>time = 600000, bac = 0.08, label = ''12:10''\<rparr>,
      \<lparr>time = 900000, bac = 0.04, label = ''12:15''\<rparr>] \<noteq> []" by simp
  have k: "peakLoop [\<lparr>time = 0, bac = 0.02, label = ''12:00''\<rparr>,
      \<lparr>time = 300000, bac = 0.08, label = ''12:05''\<rparr>,
      \<lparr>time = 600000, bac = 0.08, label = ''12:10''\<rparr>,
      \<lparr>time = 900000, bac = 0.04, label = ''12:15''\<rparr>] 1 0 = 1"
    by (simp add: peakLoop.simps)
  note t = soberTimeInfo_peak_and_crossing[OF ne]
  have "(1::nat) \<le> 3 \<and> 3 < length [\<lparr>time = 0, bac = 0.02, label = ''12:00''\<rparr>,
      \<lparr>time = 300000, bac = 0.08, label = ''12:05''\<rparr>,
      \<lparr>time = 600000, bac = 0.08, label = ''12:10''\<rparr>,
      \<lparr>time = 900000, bac = 0.04, label = ''12:15''\<rparr>] \<and> bac ([\<lparr>time = 0, bac = 0.02, label = ''12:00''\<rparr>,
      \<lparr>time = 300000, bac = 0.08, label = ''12:05''\<rparr>,
      \<lparr>time = 600000, bac = 0.08, label = ''12:10''\<rparr>,
      \<lparr>time = 900000, bac = 0.04, label = ''12:15''\<rparr>] ! 3) \<le> 0.05 \<and>
      (\<forall>j. (1::nat) \<le> j \<and> j < 3 \<longrightarrow> 0.05 < bac ([\<lparr>time = 0, bac = 0.02, label = ''12:00''\<rparr>,
      \<lparr>time = 300000, bac = 0.08, label = ''12:05''\<rparr>,
      \<lparr>time = 600000, bac = 0.08, label = ''12:10''\<rparr>,
      \<lparr>time = 900000, bac = 0.04, label = ''12:15''\<rparr>] ! j))"
  proof (intro conjI allI impI)
    fix j :: nat assume "1 \<le> j \<and> j < 3"
    then consider "j = 1" | "j = 2" by linarith
    then show "0.05 < bac ([\<lparr>time = 0, bac = 0.02, label = ''12:00''\<rparr>,
      \<lparr>time = 300000, bac = 0.08, label = ''12:05''\<rparr>,
      \<lparr>time = 600000, bac = 0.08, label = ''12:10''\<rparr>,
      \<lparr>time = 900000, bac = 0.04, label = ''12:15''\<rparr>] ! j)" by cases simp_all
  qed simp_all
  moreover have "0.05 \<le> bac ([\<lparr>time = 0, bac = 0.02, label = ''12:00''\<rparr>,
      \<lparr>time = 300000, bac = 0.08, label = ''12:05''\<rparr>,
      \<lparr>time = 600000, bac = 0.08, label = ''12:10''\<rparr>,
      \<lparr>time = 900000, bac = 0.04, label = ''12:15''\<rparr>] ! 1)" by simp
  ultimately have "soberTimeInfo [\<lparr>time = 0, bac = 0.02, label = ''12:00''\<rparr>,
      \<lparr>time = 300000, bac = 0.08, label = ''12:05''\<rparr>,
      \<lparr>time = 600000, bac = 0.08, label = ''12:10''\<rparr>,
      \<lparr>time = 900000, bac = 0.04, label = ''12:15''\<rparr>] =
     Some \<lparr>status = over, peak = bac ([\<lparr>time = 0, bac = 0.02, label = ''12:00''\<rparr>,
      \<lparr>time = 300000, bac = 0.08, label = ''12:05''\<rparr>,
      \<lparr>time = 600000, bac = 0.08, label = ''12:10''\<rparr>,
      \<lparr>time = 900000, bac = 0.04, label = ''12:15''\<rparr>] ! 1), soberTime = Some (time ([\<lparr>time = 0, bac = 0.02, label = ''12:00''\<rparr>,
      \<lparr>time = 300000, bac = 0.08, label = ''12:05''\<rparr>,
      \<lparr>time = 600000, bac = 0.08, label = ''12:10''\<rparr>,
      \<lparr>time = 900000, bac = 0.04, label = ''12:15''\<rparr>] ! 3)),
           soberLabel = Some (label ([\<lparr>time = 0, bac = 0.02, label = ''12:00''\<rparr>,
      \<lparr>time = 300000, bac = 0.08, label = ''12:05''\<rparr>,
      \<lparr>time = 600000, bac = 0.08, label = ''12:10''\<rparr>,
      \<lparr>time = 900000, bac = 0.04, label = ''12:15''\<rparr>] ! 3)), projected = None\<rparr>"
    using t unfolding k by blast
  then show ?thesis using k by simp
qed




text \<open>
  C4, as the code has it. In a run on a non-empty drink list the BAC of sample \<open>k\<close> is
  \<open>toBACD\<close> of the accumulated units \<open>netSDAtD \<dots> k\<close>. Step \<open>k\<close> adds the units of the drinks
  of its interval and then, when the sum is positive, subtracts the double
  \<open>(firstHourBurn / 60) * 5\<close> if the elapsed time \<open>k * 300000\<close> ms is below 60 minutes, which
  holds for exactly the first 12 steps, and \<open>(subsequentHourBurn / 60) * 5\<close> otherwise, with
  a floor of zero: after such a step the units are never negative. When the units are
  positive after each of the first 12 steps, each of these steps subtracts
  \<open>(firstHourBurn / 60) * 5\<close> and no floor applies. Every subtraction is rounded to a
  double, so the twelve steps need not remove exactly \<open>firstHourBurn\<close>.
\<close>

theorem first_hour_burn_steps:
  assumes "drinks \<noteq> []"
  shows "(\<forall>k < length (pointsD f drinks fb sb w g).
            bacD (pointsD f drinks fb sb w g ! k) = toBACD w g (netSDAtD drinks fb sb k)) \<and>
    (\<forall>k. netSDAtD drinks fb sb (Suc k) =
       (let net1 = addDrinksD (netSDAtD drinks fb sb k)
                     (drinksInIntervalD (sort_key timestampD drinks)
                        (Min (timestampD ` set drinks) + int k * 300000)
                        (Min (timestampD ` set drinks) + int k * 300000 + 300000));
            burnAmount = (if int k * 300000 < 60 * 60 * 1000
                          then dmul (ddiv fb (Finite 60)) (Finite 5)
                          else dmul (ddiv sb (Finite 60)) (Finite 5))
        in if dless (Finite 0) net1
           then (let net2 = dsub net1 burnAmount in if dless net2 (Finite 0) then Finite 0 else net2)
           else net1)) \<and>
    (\<forall>k. (int k * 300000 < 60 * 60 * 1000) = (k < 12)) \<and>
    (\<forall>k. dless (Finite 0) (addDrinksD (netSDAtD drinks fb sb k)
                     (drinksInIntervalD (sort_key timestampD drinks)
                        (Min (timestampD ` set drinks) + int k * 300000)
                        (Min (timestampD ` set drinks) + int k * 300000 + 300000)))
          \<longrightarrow> \<not> dless (netSDAtD drinks fb sb (Suc k)) (Finite 0)) \<and>
    ((\<forall>k. 1 \<le> k \<and> k \<le> 12 \<longrightarrow> dless (Finite 0) (netSDAtD drinks fb sb k)) \<longrightarrow>
       (\<forall>k < 12. netSDAtD drinks fb sb (Suc k) =
          dsub (addDrinksD (netSDAtD drinks fb sb k)
                  (drinksInIntervalD (sort_key timestampD drinks)
                     (Min (timestampD ` set drinks) + int k * 300000)
                     (Min (timestampD ` set drinks) + int k * 300000 + 300000)))
               (dmul (ddiv fb (Finite 60)) (Finite 5))))"
proof -
  have a: "\<forall>k < length (pointsD f drinks fb sb w g).
            bacD (pointsD f drinks fb sb w g ! k) = toBACD w g (netSDAtD drinks fb sb k)"
    using pointsD_nth_bac[OF assms] by blast
  note b = netSDAtD_Suc[OF assms, of fb sb]
  have c: "(int k * 300000 < 60 * 60 * 1000) = (k < 12)" for k by auto
  note d = netSDAtD_Suc_floor[OF assms, of fb sb]
  have e: "netSDAtD drinks fb sb (Suc k) =
          dsub (addDrinksD (netSDAtD drinks fb sb k)
                  (drinksInIntervalD (sort_key timestampD drinks)
                     (Min (timestampD ` set drinks) + int k * 300000)
                     (Min (timestampD ` set drinks) + int k * 300000 + 300000)))
               (dmul (ddiv fb (Finite 60)) (Finite 5))"
    if pos: "\<forall>k. 1 \<le> k \<and> k \<le> 12 \<longrightarrow> dless (Finite 0) (netSDAtD drinks fb sb k)"
      and k: "k < 12" for k
  proof (rule netSDAtD_Suc_positive[OF assms k])
    from k have "1 \<le> Suc k \<and> Suc k \<le> 12" by simp
    with pos show "dless (Finite 0) (netSDAtD drinks fb sb (Suc k))" by blast
  qed
  from a b c d e show ?thesis by blast
qed

theorem first_hour_burn_steps_witness:
  "[\<lparr>idD = ''1'', nameD = ''beer'', volumeMlD = Finite 570, abvD = Finite 5,
        standardDrinksD = calculateStandardDrinksD (Finite 570) (Finite 5), timestampD = 1000\<rparr>] \<noteq> [] \<and>
   dless (Finite 0) (netSDAtD [\<lparr>idD = ''1'', nameD = ''beer'', volumeMlD = Finite 570, abvD = Finite 5,
        standardDrinksD = calculateStandardDrinksD (Finite 570) (Finite 5), timestampD = 1000\<rparr>] (Finite 2) (Finite 1) 1) \<and>
   dless (Finite 0) (netSDAtD [\<lparr>idD = ''1'', nameD = ''beer'', volumeMlD = Finite 570, abvD = Finite 5,
        standardDrinksD = calculateStandardDrinksD (Finite 570) (Finite 5), timestampD = 1000\<rparr>] (Finite 2) (Finite 1) 2) \<and>
   dless (Finite 0) (netSDAtD [\<lparr>idD = ''1'', nameD = ''beer'', volumeMlD = Finite 570, abvD = Finite 5,
        standardDrinksD = calculateStandardDrinksD (Finite 570) (Finite 5), timestampD = 1000\<rparr>] (Finite 2) (Finite 1) 3) \<and>
   dless (Finite 0) (netSDAtD [\<lparr>idD = ''1'', nameD = ''beer'', volumeMlD = Finite 570, abvD = Finite 5,
        standardDrinksD = calculateStandardDrinksD (Finite 570) (Finite 5), timestampD = 1000\<rparr>] (Finite 2) (Finite 1) 4) \<and>
   dless (Finite 0) (netSDAtD [\<lparr>idD = ''1'', nameD = ''beer'', volumeMlD = Finite 570, abvD = Finite 5,
        standardDrinksD = calculateStandardDrinksD (Finite 570) (Finite 5), timestampD = 1000\<rparr>] (Finite 2) (Finite 1) 5) \<and>
   dless (Finite 0) (netSDAtD [\<lparr>idD = ''1'', nameD = ''beer'', volumeMlD = Finite 570, abvD = Finite 5,
        standardDrinksD = calculateStandardDrinksD (Finite 570) (Finite 5), timestampD = 1000\<rparr>] (Finite 2) (Finite 1) 6) \<and>
   dless (Finite 0) (netSDAtD [\<lparr>idD = ''1'', nameD = ''beer'', volumeMlD = Finite 570, abvD = Finite 5,
        standardDrinksD = calculateStandardDrinksD (Finite 570) (Finite 5), timestampD = 1000\<rparr>] (Finite 2) (Finite 1) 7) \<and>
   dless (Finite 0) (netSDAtD [\<lparr>idD = ''1'', nameD = ''beer'', volumeMlD = Finite 570, abvD = Finite 5,
        standardDrinksD = calculateStandardDrinksD (Finite 570) (Finite 5), timestampD = 1000\<rparr>] (Finite 2) (Finite 1) 8) \<and>
   dless (Finite 0) (netSDAtD [\<lparr>idD = ''1'', nameD = ''beer'', volumeMlD = Finite 570, abvD = Finite 5,
        standardDrinksD = calculateStandardDrinksD (Finite 570) (Finite 5), timestampD = 1000\<rparr>] (Finite 2) (Finite 1) 9) \<and>
   dless (Finite 0) (netSDAtD [\<lparr>idD = ''1'', nameD = ''beer'', volumeMlD = Finite 570, abvD = Finite 5,
        standardDrinksD = calculateStandardDrinksD (Finite 570) (Finite 5), timestampD = 1000\<rparr>] (Finite 2) (Finite 1) 10) \<and>
   dless (Finite 0) (netSDAtD [\<lparr>idD = ''1'', nameD = ''beer'', volumeMlD = Finite 570, abvD = Finite 5,
        standardDrinksD = calculateStandardDrinksD (Finite 570) (Finite 5), timestampD = 1000\<rparr>] (Finite 2) (Finite 1) 11) \<and>
   dless (Finite 0) (netSDAtD [\<lparr>idD = ''1'', nameD = ''beer'', volumeMlD = Finite 570, abvD = Finite 5,
        standardDrinksD = calculateStandardDrinksD (Finite 570) (Finite 5), timestampD = 1000\<rparr>] (Finite 2) (Finite 1) 12) \<and>
   netSDAtD [\<lparr>idD = ''1'', nameD = ''beer'', volumeMlD = Finite 570, abvD = Finite 5,
        standardDrinksD = calculateStandardDrinksD (Finite 570) (Finite 5), timestampD = 1000\<rparr>] (Finite 2) (Finite 1) (Suc 11) =
     dsub (addDrinksD (netSDAtD [\<lparr>idD = ''1'', nameD = ''beer'', volumeMlD = Finite 570, abvD = Finite 5,
        standardDrinksD = calculateStandardDrinksD (Finite 570) (Finite 5), timestampD = 1000\<rparr>] (Finite 2) (Finite 1) 11)
             (drinksInIntervalD (sort_key timestampD [\<lparr>idD = ''1'', nameD = ''beer'', volumeMlD = Finite 570, abvD = Finite 5,
        standardDrinksD = calculateStandardDrinksD (Finite 570) (Finite 5), timestampD = 1000\<rparr>])
                (Min (timestampD ` set [\<lparr>idD = ''1'', nameD = ''beer'', volumeMlD = Finite 570, abvD = Finite 5,
        standardDrinksD = calculateStandardDrinksD (Finite 570) (Finite 5), timestampD = 1000\<rparr>]) + int 11 * 300000)
                (Min (timestampD ` set [\<lparr>idD = ''1'', nameD = ''beer'', volumeMlD = Finite 570, abvD = Finite 5,
        standardDrinksD = calculateStandardDrinksD (Finite 570) (Finite 5), timestampD = 1000\<rparr>]) + int 11 * 300000 + 300000)))
          (dmul (ddiv (Finite 2) (Finite 60)) (Finite 5))"
proof -
  have ne: "[\<lparr>idD = ''1'', nameD = ''beer'', volumeMlD = Finite 570, abvD = Finite 5,
        standardDrinksD = calculateStandardDrinksD (Finite 570) (Finite 5), timestampD = 1000\<rparr>] \<noteq> []" by simp
  note tr = first_hour_trace
  have pos: "\<forall>k. 1 \<le> k \<and> k \<le> 12 \<longrightarrow> dless (Finite 0) (netSDAtD [\<lparr>idD = ''1'', nameD = ''beer'', volumeMlD = Finite 570, abvD = Finite 5,
        standardDrinksD = calculateStandardDrinksD (Finite 570) (Finite 5), timestampD = 1000\<rparr>] (Finite 2) (Finite 1) k)"
  proof (intro allI impI)
    fix k :: nat assume "1 \<le> k \<and> k \<le> 12"
    then consider "k = 1" | "k = 2" | "k = 3" | "k = 4" | "k = 5" | "k = 6" | "k = 7" | "k = 8"
      | "k = 9" | "k = 10" | "k = 11" | "k = 12" by atomize_elim presburger
    then show "dless (Finite 0) (netSDAtD [\<lparr>idD = ''1'', nameD = ''beer'', volumeMlD = Finite 570, abvD = Finite 5,
        standardDrinksD = calculateStandardDrinksD (Finite 570) (Finite 5), timestampD = 1000\<rparr>] (Finite 2) (Finite 1) k)"
      using tr by cases blast+
  qed
  from first_hour_burn_steps[OF ne, of "(\<lambda>t. ''12:00'')" "Finite 2" "Finite 1" "Finite 80" male] pos
  have "\<forall>k < 12. netSDAtD [\<lparr>idD = ''1'', nameD = ''beer'', volumeMlD = Finite 570, abvD = Finite 5,
        standardDrinksD = calculateStandardDrinksD (Finite 570) (Finite 5), timestampD = 1000\<rparr>] (Finite 2) (Finite 1) (Suc k) =
     dsub (addDrinksD (netSDAtD [\<lparr>idD = ''1'', nameD = ''beer'', volumeMlD = Finite 570, abvD = Finite 5,
        standardDrinksD = calculateStandardDrinksD (Finite 570) (Finite 5), timestampD = 1000\<rparr>] (Finite 2) (Finite 1) k)
             (drinksInIntervalD (sort_key timestampD [\<lparr>idD = ''1'', nameD = ''beer'', volumeMlD = Finite 570, abvD = Finite 5,
        standardDrinksD = calculateStandardDrinksD (Finite 570) (Finite 5), timestampD = 1000\<rparr>])
                (Min (timestampD ` set [\<lparr>idD = ''1'', nameD = ''beer'', volumeMlD = Finite 570, abvD = Finite 5,
        standardDrinksD = calculateStandardDrinksD (Finite 570) (Finite 5), timestampD = 1000\<rparr>]) + int k * 300000)
                (Min (timestampD ` set [\<lparr>idD = ''1'', nameD = ''beer'', volumeMlD = Finite 570, abvD = Finite 5,
        standardDrinksD = calculateStandardDrinksD (Finite 570) (Finite 5), timestampD = 1000\<rparr>]) + int k * 300000 + 300000)))
          (dmul (ddiv (Finite 2) (Finite 60)) (Finite 5))"
    by blast
  then have "netSDAtD [\<lparr>idD = ''1'', nameD = ''beer'', volumeMlD = Finite 570, abvD = Finite 5,
        standardDrinksD = calculateStandardDrinksD (Finite 570) (Finite 5), timestampD = 1000\<rparr>] (Finite 2) (Finite 1) (Suc 11) =
     dsub (addDrinksD (netSDAtD [\<lparr>idD = ''1'', nameD = ''beer'', volumeMlD = Finite 570, abvD = Finite 5,
        standardDrinksD = calculateStandardDrinksD (Finite 570) (Finite 5), timestampD = 1000\<rparr>] (Finite 2) (Finite 1) 11)
             (drinksInIntervalD (sort_key timestampD [\<lparr>idD = ''1'', nameD = ''beer'', volumeMlD = Finite 570, abvD = Finite 5,
        standardDrinksD = calculateStandardDrinksD (Finite 570) (Finite 5), timestampD = 1000\<rparr>])
                (Min (timestampD ` set [\<lparr>idD = ''1'', nameD = ''beer'', volumeMlD = Finite 570, abvD = Finite 5,
        standardDrinksD = calculateStandardDrinksD (Finite 570) (Finite 5), timestampD = 1000\<rparr>]) + int 11 * 300000)
                (Min (timestampD ` set [\<lparr>idD = ''1'', nameD = ''beer'', volumeMlD = Finite 570, abvD = Finite 5,
        standardDrinksD = calculateStandardDrinksD (Finite 570) (Finite 5), timestampD = 1000\<rparr>]) + int 11 * 300000 + 300000)))
          (dmul (ddiv (Finite 2) (Finite 60)) (Finite 5))"
    by (rule allE[where x = 11]) simp
  with ne tr show ?thesis by blast
qed

text \<open>
  C4 as stated fails. One beer of 570 ml at 5 per cent, \<open>firstHourBurn = 2\<close>: the units
  are 2.24865 at the start and stay positive during the first hour, but after the 12
  steps they are 0.2486499999999999 (the double \<open>8958560378765387 / 2 ^ 55\<close>), while
  2.24865 - 2 is the double 0.24865000000000004: the steps did not remove exactly 2.
\<close>

theorem first_hour_total_not_exact:
  "netSDAtD [\<lparr>idD = ''1'', nameD = ''beer'', volumeMlD = Finite 570, abvD = Finite 5,
        standardDrinksD = calculateStandardDrinksD (Finite 570) (Finite 5), timestampD = 1000\<rparr>] (Finite 2) (Finite 1) 0 = Finite (5063509651043333 / 2 ^ 51) \<and>
   dless (Finite 0) (netSDAtD [\<lparr>idD = ''1'', nameD = ''beer'', volumeMlD = Finite 570, abvD = Finite 5,
        standardDrinksD = calculateStandardDrinksD (Finite 570) (Finite 5), timestampD = 1000\<rparr>] (Finite 2) (Finite 1) 1) \<and>
   dless (Finite 0) (netSDAtD [\<lparr>idD = ''1'', nameD = ''beer'', volumeMlD = Finite 570, abvD = Finite 5,
        standardDrinksD = calculateStandardDrinksD (Finite 570) (Finite 5), timestampD = 1000\<rparr>] (Finite 2) (Finite 1) 2) \<and>
   dless (Finite 0) (netSDAtD [\<lparr>idD = ''1'', nameD = ''beer'', volumeMlD = Finite 570, abvD = Finite 5,
        standardDrinksD = calculateStandardDrinksD (Finite 570) (Finite 5), timestampD = 1000\<rparr>] (Finite 2) (Finite 1) 3) \<and>
   dless (Finite 0) (netSDAtD [\<lparr>idD = ''1'', nameD = ''beer'', volumeMlD = Finite 570, abvD = Finite 5,
        standardDrinksD = calculateStandardDrinksD (Finite 570) (Finite 5), timestampD = 1000\<rparr>] (Finite 2) (Finite 1) 4) \<and>
   dless (Finite 0) (netSDAtD [\<lparr>idD = ''1'', nameD = ''beer'', volumeMlD = Finite 570, abvD = Finite 5,
        standardDrinksD = calculateStandardDrinksD (Finite 570) (Finite 5), timestampD = 1000\<rparr>] (Finite 2) (Finite 1) 5) \<and>
   dless (Finite 0) (netSDAtD [\<lparr>idD = ''1'', nameD = ''beer'', volumeMlD = Finite 570, abvD = Finite 5,
        standardDrinksD = calculateStandardDrinksD (Finite 570) (Finite 5), timestampD = 1000\<rparr>] (Finite 2) (Finite 1) 6) \<and>
   dless (Finite 0) (netSDAtD [\<lparr>idD = ''1'', nameD = ''beer'', volumeMlD = Finite 570, abvD = Finite 5,
        standardDrinksD = calculateStandardDrinksD (Finite 570) (Finite 5), timestampD = 1000\<rparr>] (Finite 2) (Finite 1) 7) \<and>
   dless (Finite 0) (netSDAtD [\<lparr>idD = ''1'', nameD = ''beer'', volumeMlD = Finite 570, abvD = Finite 5,
        standardDrinksD = calculateStandardDrinksD (Finite 570) (Finite 5), timestampD = 1000\<rparr>] (Finite 2) (Finite 1) 8) \<and>
   dless (Finite 0) (netSDAtD [\<lparr>idD = ''1'', nameD = ''beer'', volumeMlD = Finite 570, abvD = Finite 5,
        standardDrinksD = calculateStandardDrinksD (Finite 570) (Finite 5), timestampD = 1000\<rparr>] (Finite 2) (Finite 1) 9) \<and>
   dless (Finite 0) (netSDAtD [\<lparr>idD = ''1'', nameD = ''beer'', volumeMlD = Finite 570, abvD = Finite 5,
        standardDrinksD = calculateStandardDrinksD (Finite 570) (Finite 5), timestampD = 1000\<rparr>] (Finite 2) (Finite 1) 10) \<and>
   dless (Finite 0) (netSDAtD [\<lparr>idD = ''1'', nameD = ''beer'', volumeMlD = Finite 570, abvD = Finite 5,
        standardDrinksD = calculateStandardDrinksD (Finite 570) (Finite 5), timestampD = 1000\<rparr>] (Finite 2) (Finite 1) 11) \<and>
   dless (Finite 0) (netSDAtD [\<lparr>idD = ''1'', nameD = ''beer'', volumeMlD = Finite 570, abvD = Finite 5,
        standardDrinksD = calculateStandardDrinksD (Finite 570) (Finite 5), timestampD = 1000\<rparr>] (Finite 2) (Finite 1) 12) \<and>
   netSDAtD [\<lparr>idD = ''1'', nameD = ''beer'', volumeMlD = Finite 570, abvD = Finite 5,
        standardDrinksD = calculateStandardDrinksD (Finite 570) (Finite 5), timestampD = 1000\<rparr>] (Finite 2) (Finite 1) 12 = Finite (8958560378765387 / 2 ^ 55) \<and>
   (5063509651043333 / 2 ^ 51) - (8958560378765387 / 2 ^ 55) \<noteq> (2 :: real) \<and>
   dsub (Finite (5063509651043333 / 2 ^ 51)) (Finite 2) = Finite (559910023672837 / 2 ^ 51) \<and>
   Finite (559910023672837 / 2 ^ 51) \<noteq> Finite (8958560378765387 / 2 ^ 55)"
proof -
  have "(5063509651043333 / 2 ^ 51) - (8958560378765387 / 2 ^ 55) \<noteq> (2 :: real)" by simp
  moreover have "dsub (Finite (5063509651043333 / 2 ^ 51)) (Finite 2) = Finite (559910023672837 / 2 ^ 51)"
    by (simp only: double_evals)
  moreover have "Finite (559910023672837 / 2 ^ 51) \<noteq> Finite (8958560378765387 / 2 ^ 55)" by simp
  ultimately show ?thesis using first_hour_trace by blast
qed

text \<open>
  C5, as the code has it. Two drink lists that are permutations of each other and in
  which no two drinks have the same timestamp give the same sample sequence, for every
  elimination profile: the sort leaves one order only. Drinks with equal timestamps
  keep the caller's order, since the sort is stable, and their units are added in that
  order, each sum rounded to a double.
\<close>

theorem pointsD_order_independent_distinct:
  assumes "mset drinks = mset drinks'" and "distinct (map timestampD drinks)"
  shows "pointsD f drinks fb sb w g = pointsD f drinks' fb sb w g"
proof -
  have s: "sort_key timestampD drinks = sort_key timestampD drinks'"
    by (rule pointsD_sorted_eq[OF assms])
  from assms(1) have "length drinks = length drinks'" by (rule mset_eq_length)
  with s show ?thesis by (simp add: pointsD_def)
qed

theorem pointsD_order_independent_distinct_witness:
  "mset [\<lparr>idD = ''1'', nameD = ''beer'', volumeMlD = Finite 570, abvD = Finite 5,
        standardDrinksD = calculateStandardDrinksD (Finite 570) (Finite 5), timestampD = 1000\<rparr>,
      \<lparr>idD = ''2'', nameD = ''wine'', volumeMlD = Finite 150, abvD = Finite 12,
        standardDrinksD = calculateStandardDrinksD (Finite 150) (Finite 12), timestampD = 601000\<rparr>]
   = mset [\<lparr>idD = ''2'', nameD = ''wine'', volumeMlD = Finite 150, abvD = Finite 12,
        standardDrinksD = calculateStandardDrinksD (Finite 150) (Finite 12), timestampD = 601000\<rparr>,
      \<lparr>idD = ''1'', nameD = ''beer'', volumeMlD = Finite 570, abvD = Finite 5,
        standardDrinksD = calculateStandardDrinksD (Finite 570) (Finite 5), timestampD = 1000\<rparr>] \<and>
   distinct (map timestampD [\<lparr>idD = ''1'', nameD = ''beer'', volumeMlD = Finite 570, abvD = Finite 5,
        standardDrinksD = calculateStandardDrinksD (Finite 570) (Finite 5), timestampD = 1000\<rparr>,
      \<lparr>idD = ''2'', nameD = ''wine'', volumeMlD = Finite 150, abvD = Finite 12,
        standardDrinksD = calculateStandardDrinksD (Finite 150) (Finite 12), timestampD = 601000\<rparr>]) \<and>
   pointsD (\<lambda>t. ''12:00'') [\<lparr>idD = ''1'', nameD = ''beer'', volumeMlD = Finite 570, abvD = Finite 5,
        standardDrinksD = calculateStandardDrinksD (Finite 570) (Finite 5), timestampD = 1000\<rparr>,
      \<lparr>idD = ''2'', nameD = ''wine'', volumeMlD = Finite 150, abvD = Finite 12,
        standardDrinksD = calculateStandardDrinksD (Finite 150) (Finite 12), timestampD = 601000\<rparr>] (Finite 2) (Finite 1) (Finite 80) male
   = pointsD (\<lambda>t. ''12:00'') [\<lparr>idD = ''2'', nameD = ''wine'', volumeMlD = Finite 150, abvD = Finite 12,
        standardDrinksD = calculateStandardDrinksD (Finite 150) (Finite 12), timestampD = 601000\<rparr>,
      \<lparr>idD = ''1'', nameD = ''beer'', volumeMlD = Finite 570, abvD = Finite 5,
        standardDrinksD = calculateStandardDrinksD (Finite 570) (Finite 5), timestampD = 1000\<rparr>] (Finite 2) (Finite 1) (Finite 80) male"
proof -
  have m: "mset [\<lparr>idD = ''1'', nameD = ''beer'', volumeMlD = Finite 570, abvD = Finite 5,
        standardDrinksD = calculateStandardDrinksD (Finite 570) (Finite 5), timestampD = 1000\<rparr>,
      \<lparr>idD = ''2'', nameD = ''wine'', volumeMlD = Finite 150, abvD = Finite 12,
        standardDrinksD = calculateStandardDrinksD (Finite 150) (Finite 12), timestampD = 601000\<rparr>]
   = mset [\<lparr>idD = ''2'', nameD = ''wine'', volumeMlD = Finite 150, abvD = Finite 12,
        standardDrinksD = calculateStandardDrinksD (Finite 150) (Finite 12), timestampD = 601000\<rparr>,
      \<lparr>idD = ''1'', nameD = ''beer'', volumeMlD = Finite 570, abvD = Finite 5,
        standardDrinksD = calculateStandardDrinksD (Finite 570) (Finite 5), timestampD = 1000\<rparr>]"
    by (simp add: add.commute)
  have d: "distinct (map timestampD [\<lparr>idD = ''1'', nameD = ''beer'', volumeMlD = Finite 570, abvD = Finite 5,
        standardDrinksD = calculateStandardDrinksD (Finite 570) (Finite 5), timestampD = 1000\<rparr>,
      \<lparr>idD = ''2'', nameD = ''wine'', volumeMlD = Finite 150, abvD = Finite 12,
        standardDrinksD = calculateStandardDrinksD (Finite 150) (Finite 12), timestampD = 601000\<rparr>])" by simp
  from pointsD_order_independent_distinct[OF m d] m d show ?thesis by blast
qed

text \<open>
  C5 as stated fails. A beer, a wine and a shot logged with the same timestamp: in the
  order beer, wine, shot the units add up to 4.61565 and the first BAC is
  0.08484650735294116; in the order shot, wine, beer they add up to 4.6156500000000005
  and the first BAC is 0.08484650735294118.
\<close>

theorem pointsD_order_dependent_ties:
  "mset [\<lparr>idD = ''1'', nameD = ''beer'', volumeMlD = Finite 570, abvD = Finite 5,
        standardDrinksD = calculateStandardDrinksD (Finite 570) (Finite 5), timestampD = 1000\<rparr>,
      \<lparr>idD = ''2'', nameD = ''wine'', volumeMlD = Finite 150, abvD = Finite 12,
        standardDrinksD = calculateStandardDrinksD (Finite 150) (Finite 12), timestampD = 1000\<rparr>,
      \<lparr>idD = ''3'', nameD = ''shot'', volumeMlD = Finite 30, abvD = Finite 40,
        standardDrinksD = calculateStandardDrinksD (Finite 30) (Finite 40), timestampD = 1000\<rparr>]
   = mset [\<lparr>idD = ''3'', nameD = ''shot'', volumeMlD = Finite 30, abvD = Finite 40,
        standardDrinksD = calculateStandardDrinksD (Finite 30) (Finite 40), timestampD = 1000\<rparr>,
      \<lparr>idD = ''2'', nameD = ''wine'', volumeMlD = Finite 150, abvD = Finite 12,
        standardDrinksD = calculateStandardDrinksD (Finite 150) (Finite 12), timestampD = 1000\<rparr>,
      \<lparr>idD = ''1'', nameD = ''beer'', volumeMlD = Finite 570, abvD = Finite 5,
        standardDrinksD = calculateStandardDrinksD (Finite 570) (Finite 5), timestampD = 1000\<rparr>] \<and>
   bacD (hd (pointsD (\<lambda>t. ''12:00'') [\<lparr>idD = ''1'', nameD = ''beer'', volumeMlD = Finite 570, abvD = Finite 5,
        standardDrinksD = calculateStandardDrinksD (Finite 570) (Finite 5), timestampD = 1000\<rparr>,
      \<lparr>idD = ''2'', nameD = ''wine'', volumeMlD = Finite 150, abvD = Finite 12,
        standardDrinksD = calculateStandardDrinksD (Finite 150) (Finite 12), timestampD = 1000\<rparr>,
      \<lparr>idD = ''3'', nameD = ''shot'', volumeMlD = Finite 30, abvD = Finite 40,
        standardDrinksD = calculateStandardDrinksD (Finite 30) (Finite 40), timestampD = 1000\<rparr>] (Finite 2) (Finite 1) (Finite 80) male))
     = Finite (3056917591187151 / 2 ^ 55) \<and>
   bacD (hd (pointsD (\<lambda>t. ''12:00'') [\<lparr>idD = ''3'', nameD = ''shot'', volumeMlD = Finite 30, abvD = Finite 40,
        standardDrinksD = calculateStandardDrinksD (Finite 30) (Finite 40), timestampD = 1000\<rparr>,
      \<lparr>idD = ''2'', nameD = ''wine'', volumeMlD = Finite 150, abvD = Finite 12,
        standardDrinksD = calculateStandardDrinksD (Finite 150) (Finite 12), timestampD = 1000\<rparr>,
      \<lparr>idD = ''1'', nameD = ''beer'', volumeMlD = Finite 570, abvD = Finite 5,
        standardDrinksD = calculateStandardDrinksD (Finite 570) (Finite 5), timestampD = 1000\<rparr>] (Finite 2) (Finite 1) (Finite 80) male))
     = Finite (6113835182374303 / 2 ^ 56) \<and>
   pointsD (\<lambda>t. ''12:00'') [\<lparr>idD = ''1'', nameD = ''beer'', volumeMlD = Finite 570, abvD = Finite 5,
        standardDrinksD = calculateStandardDrinksD (Finite 570) (Finite 5), timestampD = 1000\<rparr>,
      \<lparr>idD = ''2'', nameD = ''wine'', volumeMlD = Finite 150, abvD = Finite 12,
        standardDrinksD = calculateStandardDrinksD (Finite 150) (Finite 12), timestampD = 1000\<rparr>,
      \<lparr>idD = ''3'', nameD = ''shot'', volumeMlD = Finite 30, abvD = Finite 40,
        standardDrinksD = calculateStandardDrinksD (Finite 30) (Finite 40), timestampD = 1000\<rparr>] (Finite 2) (Finite 1) (Finite 80) male
   \<noteq> pointsD (\<lambda>t. ''12:00'') [\<lparr>idD = ''3'', nameD = ''shot'', volumeMlD = Finite 30, abvD = Finite 40,
        standardDrinksD = calculateStandardDrinksD (Finite 30) (Finite 40), timestampD = 1000\<rparr>,
      \<lparr>idD = ''2'', nameD = ''wine'', volumeMlD = Finite 150, abvD = Finite 12,
        standardDrinksD = calculateStandardDrinksD (Finite 150) (Finite 12), timestampD = 1000\<rparr>,
      \<lparr>idD = ''1'', nameD = ''beer'', volumeMlD = Finite 570, abvD = Finite 5,
        standardDrinksD = calculateStandardDrinksD (Finite 570) (Finite 5), timestampD = 1000\<rparr>] (Finite 2) (Finite 1) (Finite 80) male"
proof -
  have m: "mset [\<lparr>idD = ''1'', nameD = ''beer'', volumeMlD = Finite 570, abvD = Finite 5,
        standardDrinksD = calculateStandardDrinksD (Finite 570) (Finite 5), timestampD = 1000\<rparr>,
      \<lparr>idD = ''2'', nameD = ''wine'', volumeMlD = Finite 150, abvD = Finite 12,
        standardDrinksD = calculateStandardDrinksD (Finite 150) (Finite 12), timestampD = 1000\<rparr>,
      \<lparr>idD = ''3'', nameD = ''shot'', volumeMlD = Finite 30, abvD = Finite 40,
        standardDrinksD = calculateStandardDrinksD (Finite 30) (Finite 40), timestampD = 1000\<rparr>]
   = mset [\<lparr>idD = ''3'', nameD = ''shot'', volumeMlD = Finite 30, abvD = Finite 40,
        standardDrinksD = calculateStandardDrinksD (Finite 30) (Finite 40), timestampD = 1000\<rparr>,
      \<lparr>idD = ''2'', nameD = ''wine'', volumeMlD = Finite 150, abvD = Finite 12,
        standardDrinksD = calculateStandardDrinksD (Finite 150) (Finite 12), timestampD = 1000\<rparr>,
      \<lparr>idD = ''1'', nameD = ''beer'', volumeMlD = Finite 570, abvD = Finite 5,
        standardDrinksD = calculateStandardDrinksD (Finite 570) (Finite 5), timestampD = 1000\<rparr>]"
    by (simp add: add.commute add.left_commute)
  have neA: "[\<lparr>idD = ''1'', nameD = ''beer'', volumeMlD = Finite 570, abvD = Finite 5,
        standardDrinksD = calculateStandardDrinksD (Finite 570) (Finite 5), timestampD = 1000\<rparr>,
      \<lparr>idD = ''2'', nameD = ''wine'', volumeMlD = Finite 150, abvD = Finite 12,
        standardDrinksD = calculateStandardDrinksD (Finite 150) (Finite 12), timestampD = 1000\<rparr>,
      \<lparr>idD = ''3'', nameD = ''shot'', volumeMlD = Finite 30, abvD = Finite 40,
        standardDrinksD = calculateStandardDrinksD (Finite 30) (Finite 40), timestampD = 1000\<rparr>] \<noteq> []" and neB: "[\<lparr>idD = ''3'', nameD = ''shot'', volumeMlD = Finite 30, abvD = Finite 40,
        standardDrinksD = calculateStandardDrinksD (Finite 30) (Finite 40), timestampD = 1000\<rparr>,
      \<lparr>idD = ''2'', nameD = ''wine'', volumeMlD = Finite 150, abvD = Finite 12,
        standardDrinksD = calculateStandardDrinksD (Finite 150) (Finite 12), timestampD = 1000\<rparr>,
      \<lparr>idD = ''1'', nameD = ''beer'', volumeMlD = Finite 570, abvD = Finite 5,
        standardDrinksD = calculateStandardDrinksD (Finite 570) (Finite 5), timestampD = 1000\<rparr>] \<noteq> []" by simp_all
  have iA: "initialDrinksD (sort_key timestampD [\<lparr>idD = ''1'', nameD = ''beer'', volumeMlD = Finite 570, abvD = Finite 5,
        standardDrinksD = calculateStandardDrinksD (Finite 570) (Finite 5), timestampD = 1000\<rparr>,
      \<lparr>idD = ''2'', nameD = ''wine'', volumeMlD = Finite 150, abvD = Finite 12,
        standardDrinksD = calculateStandardDrinksD (Finite 150) (Finite 12), timestampD = 1000\<rparr>,
      \<lparr>idD = ''3'', nameD = ''shot'', volumeMlD = Finite 30, abvD = Finite 40,
        standardDrinksD = calculateStandardDrinksD (Finite 30) (Finite 40), timestampD = 1000\<rparr>])
      (Min (timestampD ` set [\<lparr>idD = ''1'', nameD = ''beer'', volumeMlD = Finite 570, abvD = Finite 5,
        standardDrinksD = calculateStandardDrinksD (Finite 570) (Finite 5), timestampD = 1000\<rparr>,
      \<lparr>idD = ''2'', nameD = ''wine'', volumeMlD = Finite 150, abvD = Finite 12,
        standardDrinksD = calculateStandardDrinksD (Finite 150) (Finite 12), timestampD = 1000\<rparr>,
      \<lparr>idD = ''3'', nameD = ''shot'', volumeMlD = Finite 30, abvD = Finite 40,
        standardDrinksD = calculateStandardDrinksD (Finite 30) (Finite 40), timestampD = 1000\<rparr>])) = [\<lparr>idD = ''1'', nameD = ''beer'', volumeMlD = Finite 570, abvD = Finite 5,
        standardDrinksD = calculateStandardDrinksD (Finite 570) (Finite 5), timestampD = 1000\<rparr>,
      \<lparr>idD = ''2'', nameD = ''wine'', volumeMlD = Finite 150, abvD = Finite 12,
        standardDrinksD = calculateStandardDrinksD (Finite 150) (Finite 12), timestampD = 1000\<rparr>,
      \<lparr>idD = ''3'', nameD = ''shot'', volumeMlD = Finite 30, abvD = Finite 40,
        standardDrinksD = calculateStandardDrinksD (Finite 30) (Finite 40), timestampD = 1000\<rparr>]"
    by (simp add: initialDrinksD_def)
  have iB: "initialDrinksD (sort_key timestampD [\<lparr>idD = ''3'', nameD = ''shot'', volumeMlD = Finite 30, abvD = Finite 40,
        standardDrinksD = calculateStandardDrinksD (Finite 30) (Finite 40), timestampD = 1000\<rparr>,
      \<lparr>idD = ''2'', nameD = ''wine'', volumeMlD = Finite 150, abvD = Finite 12,
        standardDrinksD = calculateStandardDrinksD (Finite 150) (Finite 12), timestampD = 1000\<rparr>,
      \<lparr>idD = ''1'', nameD = ''beer'', volumeMlD = Finite 570, abvD = Finite 5,
        standardDrinksD = calculateStandardDrinksD (Finite 570) (Finite 5), timestampD = 1000\<rparr>])
      (Min (timestampD ` set [\<lparr>idD = ''3'', nameD = ''shot'', volumeMlD = Finite 30, abvD = Finite 40,
        standardDrinksD = calculateStandardDrinksD (Finite 30) (Finite 40), timestampD = 1000\<rparr>,
      \<lparr>idD = ''2'', nameD = ''wine'', volumeMlD = Finite 150, abvD = Finite 12,
        standardDrinksD = calculateStandardDrinksD (Finite 150) (Finite 12), timestampD = 1000\<rparr>,
      \<lparr>idD = ''1'', nameD = ''beer'', volumeMlD = Finite 570, abvD = Finite 5,
        standardDrinksD = calculateStandardDrinksD (Finite 570) (Finite 5), timestampD = 1000\<rparr>])) = [\<lparr>idD = ''3'', nameD = ''shot'', volumeMlD = Finite 30, abvD = Finite 40,
        standardDrinksD = calculateStandardDrinksD (Finite 30) (Finite 40), timestampD = 1000\<rparr>,
      \<lparr>idD = ''2'', nameD = ''wine'', volumeMlD = Finite 150, abvD = Finite 12,
        standardDrinksD = calculateStandardDrinksD (Finite 150) (Finite 12), timestampD = 1000\<rparr>,
      \<lparr>idD = ''1'', nameD = ''beer'', volumeMlD = Finite 570, abvD = Finite 5,
        standardDrinksD = calculateStandardDrinksD (Finite 570) (Finite 5), timestampD = 1000\<rparr>]"
    by (simp add: initialDrinksD_def)
  have a: "bacD (hd (pointsD (\<lambda>t. ''12:00'') [\<lparr>idD = ''1'', nameD = ''beer'', volumeMlD = Finite 570, abvD = Finite 5,
        standardDrinksD = calculateStandardDrinksD (Finite 570) (Finite 5), timestampD = 1000\<rparr>,
      \<lparr>idD = ''2'', nameD = ''wine'', volumeMlD = Finite 150, abvD = Finite 12,
        standardDrinksD = calculateStandardDrinksD (Finite 150) (Finite 12), timestampD = 1000\<rparr>,
      \<lparr>idD = ''3'', nameD = ''shot'', volumeMlD = Finite 30, abvD = Finite 40,
        standardDrinksD = calculateStandardDrinksD (Finite 30) (Finite 40), timestampD = 1000\<rparr>] (Finite 2) (Finite 1) (Finite 80) male))
     = Finite (3056917591187151 / 2 ^ 55)"
    unfolding first_bacD[OF neA] iA sum_beer_wine_shot toBACD_80_male
    by (simp only: double_evals)
  have b: "bacD (hd (pointsD (\<lambda>t. ''12:00'') [\<lparr>idD = ''3'', nameD = ''shot'', volumeMlD = Finite 30, abvD = Finite 40,
        standardDrinksD = calculateStandardDrinksD (Finite 30) (Finite 40), timestampD = 1000\<rparr>,
      \<lparr>idD = ''2'', nameD = ''wine'', volumeMlD = Finite 150, abvD = Finite 12,
        standardDrinksD = calculateStandardDrinksD (Finite 150) (Finite 12), timestampD = 1000\<rparr>,
      \<lparr>idD = ''1'', nameD = ''beer'', volumeMlD = Finite 570, abvD = Finite 5,
        standardDrinksD = calculateStandardDrinksD (Finite 570) (Finite 5), timestampD = 1000\<rparr>] (Finite 2) (Finite 1) (Finite 80) male))
     = Finite (6113835182374303 / 2 ^ 56)"
    unfolding first_bacD[OF neB] iB sum_shot_wine_beer toBACD_80_male
    by (simp only: double_evals)
  have "Finite (3056917591187151 / 2 ^ 55) \<noteq> Finite (6113835182374303 / 2 ^ 56)" by simp
  with a b have "pointsD (\<lambda>t. ''12:00'') [\<lparr>idD = ''1'', nameD = ''beer'', volumeMlD = Finite 570, abvD = Finite 5,
        standardDrinksD = calculateStandardDrinksD (Finite 570) (Finite 5), timestampD = 1000\<rparr>,
      \<lparr>idD = ''2'', nameD = ''wine'', volumeMlD = Finite 150, abvD = Finite 12,
        standardDrinksD = calculateStandardDrinksD (Finite 150) (Finite 12), timestampD = 1000\<rparr>,
      \<lparr>idD = ''3'', nameD = ''shot'', volumeMlD = Finite 30, abvD = Finite 40,
        standardDrinksD = calculateStandardDrinksD (Finite 30) (Finite 40), timestampD = 1000\<rparr>] (Finite 2) (Finite 1) (Finite 80) male
   \<noteq> pointsD (\<lambda>t. ''12:00'') [\<lparr>idD = ''3'', nameD = ''shot'', volumeMlD = Finite 30, abvD = Finite 40,
        standardDrinksD = calculateStandardDrinksD (Finite 30) (Finite 40), timestampD = 1000\<rparr>,
      \<lparr>idD = ''2'', nameD = ''wine'', volumeMlD = Finite 150, abvD = Finite 12,
        standardDrinksD = calculateStandardDrinksD (Finite 150) (Finite 12), timestampD = 1000\<rparr>,
      \<lparr>idD = ''1'', nameD = ''beer'', volumeMlD = Finite 570, abvD = Finite 5,
        standardDrinksD = calculateStandardDrinksD (Finite 570) (Finite 5), timestampD = 1000\<rparr>] (Finite 2) (Finite 1) (Finite 80) male"
    by metis
  with m a b show ?thesis by blast
qed

text \<open>
  C6. For every drink list and elimination profile the sample sequence has at most 289
  samples, the initial one and at most 288 loop steps. A run on a non-empty list either
  reaches this ceiling or was stopped by the early exit of the loop (the clock before the
  last step was past the last drink and the last BAC was at most 0.001).
\<close>

theorem points_at_most_289_samples:
  "length (points f drinks fb sb w g) \<le> 289 \<and>
   (drinks = [] \<or> length (points f drinks fb sb w g) = 289 \<or>
    (Max (timestamp ` set drinks)
       < time (points f drinks fb sb w g ! (length (points f drinks fb sb w g) - 2)) \<and>
     bac (last (points f drinks fb sb w g)) \<le> 0.001))"
proof -
  have le: "length (points f drinks fb sb w g) \<le> 289"
    using points_length[of f drinks fb sb w g] by (simp add: maxSteps_eq)
  then have "length (points f drinks fb sb w g) = 289 \<or> length (points f drinks fb sb w g) < 289"
    by auto
  with le points_stopped_early[of drinks f fb sb w g] show ?thesis
    by blast
qed

theorem points_at_most_289_samples_witness:
  "length (points (\<lambda>t. ''12:00'')
      [\<lparr>id = ''1'', name = ''beer'', volumeMl = 570, abv = 5,
        standardDrinks = 2.24865, timestamp = 1000\<rparr>] 2 1 80 male) = 16 \<and>
   length (points (\<lambda>t. ''12:00'')
      [\<lparr>id = ''1'', name = ''beer'', volumeMl = 570, abv = 5,
        standardDrinks = 2.24865, timestamp = 1000\<rparr>] 2 1 80 male) \<le> 289"
proof -
  have "length (points (\<lambda>t. ''12:00'')
      [\<lparr>id = ''1'', name = ''beer'', volumeMl = 570, abv = 5,
        standardDrinks = 2.24865, timestamp = 1000\<rparr>] 2 1 80 male) = 16"
    by (simp add: eval_defs)
  with points_at_most_289_samples[of "\<lambda>t. ''12:00''"
      "[\<lparr>id = ''1'', name = ''beer'', volumeMl = 570, abv = 5,
        standardDrinks = 2.24865, timestamp = 1000\<rparr>]" 2 1 80 male]
  show ?thesis by simp
qed

text \<open>
  C7. For every non-empty drink list the first sample's time is the earliest drink's
  timestamp \<open>t0\<close>, the \<open>i\<close>-th sample's time is \<open>t0 + i * 300000\<close> milliseconds, and the
  times of consecutive samples strictly increase.
\<close>

theorem points_time_grid:
  assumes "drinks \<noteq> []"
  shows "time (points f drinks fb sb w g ! 0) = Min (timestamp ` set drinks) \<and>
    (\<forall>i < length (points f drinks fb sb w g).
        time (points f drinks fb sb w g ! i) = Min (timestamp ` set drinks) + int i * 300000) \<and>
    (\<forall>i. Suc i < length (points f drinks fb sb w g) \<longrightarrow>
        time (points f drinks fb sb w g ! i) < time (points f drinks fb sb w g ! Suc i))"
proof -
  let ?P = "points f drinks fb sb w g"
  have grid: "time (?P ! i) = Min (timestamp ` set drinks) + int i * 300000" if "i < length ?P" for i
    using points_nth_time[OF assms that] by (simp add: stepMs_eq)
  have "0 < length ?P" by (simp add: points_unfold[OF assms])
  from grid[OF this] have "time (?P ! 0) = Min (timestamp ` set drinks)" by simp
  moreover have "time (?P ! i) < time (?P ! Suc i)" if "Suc i < length ?P" for i
    using grid[of i] grid[of "Suc i"] that by simp
  ultimately show ?thesis using grid by blast
qed

theorem points_time_grid_witness:
  "[\<lparr>id = ''1'', name = ''beer'', volumeMl = 570, abv = 5,
        standardDrinks = 2.24865, timestamp = 1000\<rparr>] \<noteq> [] \<and>
   time (points (\<lambda>t. ''12:00'')
      [\<lparr>id = ''1'', name = ''beer'', volumeMl = 570, abv = 5,
        standardDrinks = 2.24865, timestamp = 1000\<rparr>] 2 1 80 male ! 0) = 1000 \<and>
   time (points (\<lambda>t. ''12:00'')
      [\<lparr>id = ''1'', name = ''beer'', volumeMl = 570, abv = 5,
        standardDrinks = 2.24865, timestamp = 1000\<rparr>] 2 1 80 male ! 1) = 301000 \<and>
   time (points (\<lambda>t. ''12:00'')
      [\<lparr>id = ''1'', name = ''beer'', volumeMl = 570, abv = 5,
        standardDrinks = 2.24865, timestamp = 1000\<rparr>] 2 1 80 male ! 15) = 4501000 \<and>
   time (points (\<lambda>t. ''12:00'')
      [\<lparr>id = ''1'', name = ''beer'', volumeMl = 570, abv = 5,
        standardDrinks = 2.24865, timestamp = 1000\<rparr>] 2 1 80 male ! 14) < time (points (\<lambda>t. ''12:00'')
      [\<lparr>id = ''1'', name = ''beer'', volumeMl = 570, abv = 5,
        standardDrinks = 2.24865, timestamp = 1000\<rparr>] 2 1 80 male ! 15)"
proof -
  have len: "length (points (\<lambda>t. ''12:00'')
      [\<lparr>id = ''1'', name = ''beer'', volumeMl = 570, abv = 5,
        standardDrinks = 2.24865, timestamp = 1000\<rparr>] 2 1 80 male) = 16"
    by (simp add: eval_defs)
  have ne: "[\<lparr>id = ''1'', name = ''beer'', volumeMl = 570, abv = 5,
        standardDrinks = 2.24865, timestamp = 1000\<rparr>] \<noteq> []" by simp
  from points_time_grid[OF ne, of "\<lambda>t. ''12:00''" 2 1 80 male] len
  have "\<forall>i<16. time (points (\<lambda>t. ''12:00'')
      [\<lparr>id = ''1'', name = ''beer'', volumeMl = 570, abv = 5,
        standardDrinks = 2.24865, timestamp = 1000\<rparr>] 2 1 80 male ! i) = 1000 + int i * 300000"
    by simp
  then show ?thesis by simp
qed




text \<open>
  C9. \<open>points\<close> is the empty list exactly when the drink list is empty; on the empty
  list the summary \<open>soberTimeInfo\<close> is \<open>null\<close> (\<open>None\<close>), and no operation of the
  model can fail; every non-empty drink list gives at least two samples.
\<close>

theorem points_empty_iff:
  "(points f drinks fb sb w g = [] \<longleftrightarrow> drinks = []) \<and>
   soberTimeInfo (points f [] fb sb w g) = None \<and>
   (drinks \<noteq> [] \<longrightarrow> 2 \<le> length (points f drinks fb sb w g))"
proof -
  have "points f [] fb sb w g = []" by (simp add: points_def)
  moreover have "soberTimeInfo [] = None" by (simp add: soberTimeInfo_def)
  moreover have "2 \<le> length (points f drinks fb sb w g)" if ne: "drinks \<noteq> []"
  proof -
    have "whileLoop f (sort_key timestamp drinks) fb sb w g (Max (timestamp ` set drinks)) 0
         (Min (timestamp ` set drinks)) 0
         (addDrinks 0 (initialDrinks (sort_key timestamp drinks) (Min (timestamp ` set drinks)))) \<noteq> []"
      by (rule whileLoop_nonempty) (simp add: maxSteps_eq)
    then show ?thesis
      by (simp add: points_unfold[OF ne] Suc_le_eq)
  qed
  ultimately show ?thesis by fastforce
qed

theorem points_empty_iff_witness:
  "points (\<lambda>t. ''12:00'') [] 2 1 80 male = [] \<and>
   soberTimeInfo (points (\<lambda>t. ''12:00'') [] 2 1 80 male) = None \<and>
   [\<lparr>id = ''1'', name = ''beer'', volumeMl = 570, abv = 5,
        standardDrinks = 2.24865, timestamp = 1000\<rparr>] \<noteq> [] \<and>
   points (\<lambda>t. ''12:00'')
      [\<lparr>id = ''1'', name = ''beer'', volumeMl = 570, abv = 5,
        standardDrinks = 2.24865, timestamp = 1000\<rparr>] 2 1 80 male \<noteq> [] \<and>
   2 \<le> length (points (\<lambda>t. ''12:00'')
      [\<lparr>id = ''1'', name = ''beer'', volumeMl = 570, abv = 5,
        standardDrinks = 2.24865, timestamp = 1000\<rparr>] 2 1 80 male)"
  using points_empty_iff[of "\<lambda>t. ''12:00''" "[]" 2 1 80 male]
    points_empty_iff[of "\<lambda>t. ''12:00''" "[\<lparr>id = ''1'', name = ''beer'', volumeMl = 570, abv = 5,
        standardDrinks = 2.24865, timestamp = 1000\<rparr>]" 2 1 80 male]
  by simp

text \<open>
  C10. A drink whose timestamp is more than 24 hours after the earliest timestamp is in
  neither the initial sum nor any of the 288 step intervals, so its units are never added:
  replacing them by any other value leaves the samples unchanged. On such an input the
  early exit never fires, and the run has all 289 samples.
\<close>

theorem late_drink_ignored:
  assumes "d \<in> set drinks"
    and "Min (timestamp ` set drinks) + 24 * 60 * 60 * 1000 < timestamp d"
  shows "d \<notin> set (initialDrinks (sort_key timestamp drinks) (Min (timestamp ` set drinks))) \<and>
    (\<forall>k < 288. d \<notin> set (drinksInInterval (sort_key timestamp drinks)
        (Min (timestamp ` set drinks) + int k * 300000)
        (Min (timestamp ` set drinks) + int k * 300000 + 300000))) \<and>
    points f (map (\<lambda>e. if e = d then e\<lparr>standardDrinks := x\<rparr> else e) drinks) fb sb w g
      = points f drinks fb sb w g \<and>
    length (points f drinks fb sb w g) = 289"
proof -
  let ?t0 = "Min (timestamp ` set drinks)"
  from assms(1) have ne: "drinks \<noteq> []" by auto
  have t0: "?t0 \<le> timestamp d" using assms(1) by simp
  have "timestamp d \<le> Max (timestamp ` set drinks)" using assms(1) by simp
  with assms(2) have late: "?t0 + 86400000 < Max (timestamp ` set drinks)" by simp
  have a: "d \<notin> set (initialDrinks (sort_key timestamp drinks) ?t0)"
    using assms(2) by (simp add: initialDrinks_def)
  have b: "d \<notin> set (drinksInInterval (sort_key timestamp drinks)
        (?t0 + int k * 300000) (?t0 + int k * 300000 + 300000))" if "k < 288" for k
    using assms(2) that by (simp add: drinksInInterval_def)
  have c: "points f (map (\<lambda>e. if e = d then e\<lparr>standardDrinks := x\<rparr> else e) drinks) fb sb w g
      = points f drinks fb sb w g"
    by (rule points_map_late[OF ne]) (use assms(2) in auto)
  have "length (points f drinks fb sb w g) = 289"
    by (rule points_full_horizon[OF ne late])
  with a b c show ?thesis by blast
qed

theorem late_drink_ignored_witness:
  "\<lparr>id = ''2'', name = ''wine'', volumeMl = 150, abv = 12,
        standardDrinks = 1.4202, timestamp = 86400001\<rparr> \<in> set [\<lparr>id = ''1'', name = ''beer'', volumeMl = 570, abv = 5,
        standardDrinks = 2.24865, timestamp = 0\<rparr>,
      \<lparr>id = ''2'', name = ''wine'', volumeMl = 150, abv = 12,
        standardDrinks = 1.4202, timestamp = 86400001\<rparr>] \<and>
   Min (timestamp ` set [\<lparr>id = ''1'', name = ''beer'', volumeMl = 570, abv = 5,
        standardDrinks = 2.24865, timestamp = 0\<rparr>,
      \<lparr>id = ''2'', name = ''wine'', volumeMl = 150, abv = 12,
        standardDrinks = 1.4202, timestamp = 86400001\<rparr>]) + 24 * 60 * 60 * 1000 < timestamp \<lparr>id = ''2'', name = ''wine'', volumeMl = 150, abv = 12,
        standardDrinks = 1.4202, timestamp = 86400001\<rparr> \<and>
   points (\<lambda>t. ''12:00'') [\<lparr>id = ''1'', name = ''beer'', volumeMl = 570, abv = 5,
        standardDrinks = 2.24865, timestamp = 0\<rparr>,
      \<lparr>id = ''2'', name = ''wine'', volumeMl = 150, abv = 12,
        standardDrinks = 700, timestamp = 86400001\<rparr>] 2 1 80 male
     = points (\<lambda>t. ''12:00'') [\<lparr>id = ''1'', name = ''beer'', volumeMl = 570, abv = 5,
        standardDrinks = 2.24865, timestamp = 0\<rparr>,
      \<lparr>id = ''2'', name = ''wine'', volumeMl = 150, abv = 12,
        standardDrinks = 1.4202, timestamp = 86400001\<rparr>] 2 1 80 male \<and>
   length (points (\<lambda>t. ''12:00'') [\<lparr>id = ''1'', name = ''beer'', volumeMl = 570, abv = 5,
        standardDrinks = 2.24865, timestamp = 0\<rparr>,
      \<lparr>id = ''2'', name = ''wine'', volumeMl = 150, abv = 12,
        standardDrinks = 1.4202, timestamp = 86400001\<rparr>] 2 1 80 male) = 289"
proof -
  have h1: "\<lparr>id = ''2'', name = ''wine'', volumeMl = 150, abv = 12,
        standardDrinks = 1.4202, timestamp = 86400001\<rparr> \<in> set [\<lparr>id = ''1'', name = ''beer'', volumeMl = 570, abv = 5,
        standardDrinks = 2.24865, timestamp = 0\<rparr>,
      \<lparr>id = ''2'', name = ''wine'', volumeMl = 150, abv = 12,
        standardDrinks = 1.4202, timestamp = 86400001\<rparr>]" by simp
  have h2: "Min (timestamp ` set [\<lparr>id = ''1'', name = ''beer'', volumeMl = 570, abv = 5,
        standardDrinks = 2.24865, timestamp = 0\<rparr>,
      \<lparr>id = ''2'', name = ''wine'', volumeMl = 150, abv = 12,
        standardDrinks = 1.4202, timestamp = 86400001\<rparr>]) + 24 * 60 * 60 * 1000 < timestamp \<lparr>id = ''2'', name = ''wine'', volumeMl = 150, abv = 12,
        standardDrinks = 1.4202, timestamp = 86400001\<rparr>" by simp
  have m: "map (\<lambda>e. if e = \<lparr>id = ''2'', name = ''wine'', volumeMl = 150, abv = 12,
        standardDrinks = 1.4202, timestamp = 86400001\<rparr> then e\<lparr>standardDrinks := 700\<rparr> else e) [\<lparr>id = ''1'', name = ''beer'', volumeMl = 570, abv = 5,
        standardDrinks = 2.24865, timestamp = 0\<rparr>,
      \<lparr>id = ''2'', name = ''wine'', volumeMl = 150, abv = 12,
        standardDrinks = 1.4202, timestamp = 86400001\<rparr>] = [\<lparr>id = ''1'', name = ''beer'', volumeMl = 570, abv = 5,
        standardDrinks = 2.24865, timestamp = 0\<rparr>,
      \<lparr>id = ''2'', name = ''wine'', volumeMl = 150, abv = 12,
        standardDrinks = 700, timestamp = 86400001\<rparr>]" by simp
  from late_drink_ignored[OF h1 h2, of "\<lambda>t. ''12:00''" 700 2 1 80 male]
  have "points (\<lambda>t. ''12:00'') (map (\<lambda>e. if e = \<lparr>id = ''2'', name = ''wine'', volumeMl = 150, abv = 12,
        standardDrinks = 1.4202, timestamp = 86400001\<rparr> then e\<lparr>standardDrinks := 700\<rparr> else e) [\<lparr>id = ''1'', name = ''beer'', volumeMl = 570, abv = 5,
        standardDrinks = 2.24865, timestamp = 0\<rparr>,
      \<lparr>id = ''2'', name = ''wine'', volumeMl = 150, abv = 12,
        standardDrinks = 1.4202, timestamp = 86400001\<rparr>]) 2 1 80 male
     = points (\<lambda>t. ''12:00'') [\<lparr>id = ''1'', name = ''beer'', volumeMl = 570, abv = 5,
        standardDrinks = 2.24865, timestamp = 0\<rparr>,
      \<lparr>id = ''2'', name = ''wine'', volumeMl = 150, abv = 12,
        standardDrinks = 1.4202, timestamp = 86400001\<rparr>] 2 1 80 male \<and>
   length (points (\<lambda>t. ''12:00'') [\<lparr>id = ''1'', name = ''beer'', volumeMl = 570, abv = 5,
        standardDrinks = 2.24865, timestamp = 0\<rparr>,
      \<lparr>id = ''2'', name = ''wine'', volumeMl = 150, abv = 12,
        standardDrinks = 1.4202, timestamp = 86400001\<rparr>] 2 1 80 male) = 289"
    by blast
  then have "points (\<lambda>t. ''12:00'') [\<lparr>id = ''1'', name = ''beer'', volumeMl = 570, abv = 5,
        standardDrinks = 2.24865, timestamp = 0\<rparr>,
      \<lparr>id = ''2'', name = ''wine'', volumeMl = 150, abv = 12,
        standardDrinks = 700, timestamp = 86400001\<rparr>] 2 1 80 male
     = points (\<lambda>t. ''12:00'') [\<lparr>id = ''1'', name = ''beer'', volumeMl = 570, abv = 5,
        standardDrinks = 2.24865, timestamp = 0\<rparr>,
      \<lparr>id = ''2'', name = ''wine'', volumeMl = 150, abv = 12,
        standardDrinks = 1.4202, timestamp = 86400001\<rparr>] 2 1 80 male \<and>
   length (points (\<lambda>t. ''12:00'') [\<lparr>id = ''1'', name = ''beer'', volumeMl = 570, abv = 5,
        standardDrinks = 2.24865, timestamp = 0\<rparr>,
      \<lparr>id = ''2'', name = ''wine'', volumeMl = 150, abv = 12,
        standardDrinks = 1.4202, timestamp = 86400001\<rparr>] 2 1 80 male) = 289"
    by (simp only: m)
  with h1 h2 show ?thesis by blast
qed

end
